theory Spec2Isabelle
  imports Main "HOL-Library.Log_Nat"
begin

section \<open>Constants of CombatCommander.cpp\<close>

text \<open>Squad priorities: which squad can steal units from which (lines 11-17).\<close>

definition IdlePriority :: nat where "IdlePriority = 0"

definition AttackPriority :: nat where "AttackPriority = 1"

definition ReconPriority :: nat where "ReconPriority = 2"

definition BaseDefensePriority :: nat where "BaseDefensePriority = 3"

definition ScoutDefensePriority :: nat where "ScoutDefensePriority = 4"

definition DropPriority :: nat where "DropPriority = 5"

text \<open>The attack squads and the reconnaissance squad (lines 19-25).\<close>

definition AttackRadius :: int where "AttackRadius = 800"

definition DefensivePositionRadius :: int where "DefensivePositionRadius = 400"

definition ReconTargetTimeout :: int where "ReconTargetTimeout = 40 * 24"

definition ReconRadius :: int where "ReconRadius = 400"

section \<open>Units, positions, orders\<close>

text \<open>
  A \<open>BWAPI::Unit\<close> is a pointer: a unit is identified by its address, and everything
  else about it is read from the game at the moment of the call. A \<open>BWAPI::Unitset\<close>
  is an ordered set of such pointers; it is kept as a duplicate-free list in iteration
  order (ascending address).
\<close>

type_synonym Unit = nat

type_synonym Position = "int \<times> int"

type_synonym Region = nat

type_synonym BaseLocation = nat

definition Unitset_insert :: "Unit \<Rightarrow> Unit list \<Rightarrow> Unit list" where
  "Unitset_insert u us = (if u \<in> set us then us else insort u us)"

definition Unitset_erase :: "Unit \<Rightarrow> Unit list \<Rightarrow> Unit list" where
  "Unitset_erase u us = removeAll u us"

text \<open>The unit types that CombatCommander.cpp names, and one constructor for all others.\<close>

datatype UnitType =
    Zerg_Zergling | Zerg_Hydralisk | Zerg_Mutalisk | Zerg_Scourge | Zerg_Devourer
  | Zerg_Overlord | Zerg_Lurker | Zerg_Guardian | Zerg_Larva | Zerg_Egg | Zerg_Lurker_Egg
  | Zerg_Cocoon | Zerg_Sunken_Colony | Zerg_Spore_Colony
  | Terran_Marine | Terran_Medic | Terran_Vulture | Terran_Siege_Tank_Tank_Mode
  | Terran_Siege_Tank_Siege_Mode | Terran_Wraith | Terran_Valkyrie | Terran_Battlecruiser
  | Terran_Missile_Turret | Terran_Bunker | Terran_Comsat_Station
  | Protoss_Zealot | Protoss_Dragoon | Protoss_Dark_Templar | Protoss_Corsair | Protoss_Scout
  | Protoss_Carrier | Protoss_Reaver | Protoss_High_Templar | Protoss_Observer | Protoss_Probe
  | Protoss_Photon_Cannon
  | Other_UnitType nat

datatype SquadOrderType = Idle | Attack | Defend | Hold | HoldWall | Load | Drop

record SquadOrder =
  orderType :: SquadOrderType
  orderPosition :: Position
  orderRadius :: int
  orderStatus :: string

section \<open>Squad and squad registry\<close>

text \<open>
  Modelled from the spec: Squad.cpp and SquadData.cpp are not among the sources. A squad is
  "identity = unique name (string). Attributes: priority (integer), current Directive, a
  bounded agent membership set, and two tuning flags - combat-simulation radius and whether
  it reasons only about currently visible enemies".
\<close>

record Squad =
  squadName :: string
  squadOrder :: SquadOrder
  squadPriority :: nat
  squadUnits :: "Unit list"
  combatSimRadius :: int
  fightVisible :: bool

text \<open>
  Modelled from the spec: the constructor \<open>Squad(name, order, priority)\<close> makes a squad with
  no members. The spec gives no defaults for the two tuning flags; the model starts them
  at 0 and False, and nothing below depends on them.
\<close>

definition newSquad :: "string \<Rightarrow> SquadOrder \<Rightarrow> nat \<Rightarrow> Squad" where
  "newSquad n ord p =
     \<lparr>squadName = n, squadOrder = ord, squadPriority = p, squadUnits = [],
      combatSimRadius = 0, fightVisible = False\<rparr>"

text \<open>
  Modelled from the spec: the registry is "the authoritative map from squad name to Squad".
  It is kept as the list of its squads; a squad is found by its name, and an operation on a
  squad reaches the first squad of that name.
\<close>

type_synonym SquadData = "Squad list"

definition getSquad :: "SquadData \<Rightarrow> string \<Rightarrow> Squad option" where
  "getSquad sd n = find (\<lambda>s. squadName s = n) sd"

definition squadExists :: "SquadData \<Rightarrow> string \<Rightarrow> bool" where
  "squadExists sd n = (getSquad sd n \<noteq> None)"

text \<open>
  Modelled from the spec: "addSquad(squad) (fails fatally if name already exists)". The
  fatal failure is the value None.
\<close>

definition addSquad :: "SquadData \<Rightarrow> Squad \<Rightarrow> SquadData option" where
  "addSquad sd s = (if squadExists sd (squadName s) then None else Some (sd @ [s]))"

text \<open>
  A method called on a \<open>Squad &\<close> obtained from the registry changes that squad inside the
  registry: \<open>onSquad n f\<close> applies \<open>f\<close> to the first squad named \<open>n\<close>.
\<close>

fun onSquad :: "string \<Rightarrow> (Squad \<Rightarrow> Squad) \<Rightarrow> SquadData \<Rightarrow> SquadData" where
  "onSquad n f [] = []"
| "onSquad n f (s # ss) = (if squadName s = n then f s # ss else s # onSquad n f ss)"

text \<open>
  Modelled from the spec: the membership operations of a squad ("exposes membership tests");
  adding to a set a member it already has changes nothing.
\<close>

definition containsUnit :: "Squad \<Rightarrow> Unit \<Rightarrow> bool" where
  "containsUnit s u = (u \<in> set (squadUnits s))"

definition isEmpty :: "Squad \<Rightarrow> bool" where
  "isEmpty s = (squadUnits s = [])"

definition addUnit :: "Unit \<Rightarrow> Squad \<Rightarrow> Squad" where
  "addUnit u s = s\<lparr>squadUnits := Unitset_insert u (squadUnits s)\<rparr>"

definition removeUnit :: "Unit \<Rightarrow> Squad \<Rightarrow> Squad" where
  "removeUnit u s = s\<lparr>squadUnits := Unitset_erase u (squadUnits s)\<rparr>"

definition clear :: "Squad \<Rightarrow> Squad" where
  "clear s = s\<lparr>squadUnits := []\<rparr>"

definition setSquadOrder :: "SquadOrder \<Rightarrow> Squad \<Rightarrow> Squad" where
  "setSquadOrder ord s = s\<lparr>squadOrder := ord\<rparr>"

text \<open>
  A method of a \<open>Squad &\<close> that only reads: \<open>inSquad sd n u\<close> is \<open>containsUnit\<close> asked of
  the squad named \<open>n\<close>.
\<close>

definition inSquad :: "SquadData \<Rightarrow> string \<Rightarrow> Unit \<Rightarrow> bool" where
  "inSquad sd n u = (case getSquad sd n of None \<Rightarrow> False | Some s \<Rightarrow> containsUnit s u)"

text \<open>
  Modelled from the spec: "canAssign(agent, squad) -> true iff the agent is not already a
  member of a squad with priority >= the requesting squad's priority". The requesting squad
  is passed by name; the C++ passes a reference, so a name that is not in the registry
  cannot occur there, and the model answers False for it.
\<close>

definition canAssignUnitToSquad :: "SquadData \<Rightarrow> Unit \<Rightarrow> string \<Rightarrow> bool" where
  "canAssignUnitToSquad sd u n =
     (case getSquad sd n of
        None \<Rightarrow> False
      | Some t \<Rightarrow> list_all (\<lambda>s. \<not> (containsUnit s u \<and> squadPriority s \<ge> squadPriority t)) sd)"

text \<open>
  Modelled from the spec: "assign(agent, squad) (removes agent from its current squad if any,
  inserts into target; no-op safe to call redundantly)". The current squad is the first squad
  of the registry that has the agent.
\<close>

definition getUnitSquad :: "SquadData \<Rightarrow> Unit \<Rightarrow> Squad option" where
  "getUnitSquad sd u = find (\<lambda>s. containsUnit s u) sd"

fun removeFromCurrent :: "Unit \<Rightarrow> SquadData \<Rightarrow> SquadData" where
  "removeFromCurrent u [] = []"
| "removeFromCurrent u (s # ss) =
     (if containsUnit s u then removeUnit u s # ss else s # removeFromCurrent u ss)"

definition assignUnitToSquad :: "SquadData \<Rightarrow> Unit \<Rightarrow> string \<Rightarrow> SquadData" where
  "assignUnitToSquad sd u n = onSquad n (addUnit u) (removeFromCurrent u sd)"

section \<open>The game as the commander reads it\<close>

datatype Player = Self | Enemy | Neutral

datatype Race = Terran | Protoss | Zerg | Race_Unknown

text \<open>An entry of the InformationManager's table of remembered enemy units.\<close>

record UnitInfo =
  uiType :: UnitType
  lastPosition :: Position
  goneFromLastPosition :: bool

text \<open>
  CombatCommander.cpp reads the game through BWAPI, BWTA and the other managers of the bot,
  none of which is part of this file. Every such query is a field of the record \<open>Game\<close>:
  one value of \<open>Game\<close> is what these queries answer during one call of the commander.
  The fields keep the names of the queries. The main base location is never null (comment
  of line 471), so that the test of line 706 always succeeds. The capability summaries of a
  squad (\<open>hasDetector\<close>, \<open>hasCombatUnits\<close>, \<open>hasGround\<close>, \<open>hasAir\<close>,
  \<open>canAttackAir\<close>, \<open>canAttackGround\<close>) belong to Squad.cpp, which is not among the
  sources, and are queries too.
\<close>

record Game =
  frameCount :: int
  getType :: "Unit \<Rightarrow> UnitType"
  unitExists :: "Unit \<Rightarrow> bool"
  isFlying :: "Unit \<Rightarrow> bool"
  isLoaded :: "Unit \<Rightarrow> bool"
  isLifted :: "Unit \<Rightarrow> bool"
  isAttacking :: "Unit \<Rightarrow> bool"
  isCompleted :: "Unit \<Rightarrow> bool"
  isPowered :: "Unit \<Rightarrow> bool"
  isDetected :: "Unit \<Rightarrow> bool"
  getPosition :: "Unit \<Rightarrow> Position"
  getDistance :: "Unit \<Rightarrow> Position \<Rightarrow> int"
  isWorker :: "UnitType \<Rightarrow> bool"
  isDetector :: "UnitType \<Rightarrow> bool"
  isBuilding :: "UnitType \<Rightarrow> bool"
  spaceRequired :: "UnitType \<Rightarrow> int"
  spaceProvided :: "UnitType \<Rightarrow> int"
  isValid :: "Position \<Rightarrow> bool"
  positionDistance :: "Position \<Rightarrow> Position \<Rightarrow> rat"
  startLocation :: Position
  selfUnits :: "Unit list"
  enemyUnits :: "Unit list"
  enemyRace :: Race
  isVisible :: "int \<Rightarrow> int \<Rightarrow> bool"
  CanAttackAir :: "Unit \<Rightarrow> bool"
  CanAttackGround :: "Unit \<Rightarrow> bool"
  TypeCanAttackAir :: "UnitType \<Rightarrow> bool"
  TypeCanAttackGround :: "UnitType \<Rightarrow> bool"
  getRegions :: "Region list"
  getCenter :: "Region \<Rightarrow> Position"
  getRegion :: "Position \<Rightarrow> Region option"
  getRegionTile :: "int \<times> int \<Rightarrow> Region option"
  getBaseLocations :: "BaseLocation list"
  basePosition :: "BaseLocation \<Rightarrow> Position"
  baseTilePosition :: "BaseLocation \<Rightarrow> int \<times> int"
  getMyMainBaseLocation :: BaseLocation
  getMyNaturalLocation :: "BaseLocation option"
  getEnemyMainBaseLocation :: "BaseLocation option"
  getBaseOwner :: "BaseLocation \<Rightarrow> Player"
  getOccupiedRegions :: "Region list"
  getUnitInfo :: "UnitInfo list"
  getNearbyForce :: "Position \<Rightarrow> UnitInfo list"
  weHaveCombatUnits :: bool
  getGroundTileDistance :: "Position \<Rightarrow> Position \<Rightarrow> int"
  getLeastExplored :: "bool \<Rightarrow> Position"
  gridEnemyUnits :: "Position \<Rightarrow> int \<Rightarrow> Unit list"
  randomIndex :: "nat \<Rightarrow> nat"
  dropIsPlanned :: bool
  ScoutDefenseRadius :: int
  WorkersDefendRush :: bool
  wallExists :: bool
  wallGapCenter :: Position
  hasDetector :: "Squad \<Rightarrow> bool"
  hasCombatUnits :: "Squad \<Rightarrow> bool"
  hasGround :: "Squad \<Rightarrow> bool"
  hasAir :: "Squad \<Rightarrow> bool"
  canAttackAir :: "Squad \<Rightarrow> bool"
  canAttackGround :: "Squad \<Rightarrow> bool"

text \<open>BWAPI's constant \<open>Positions::Invalid\<close>.\<close>

definition Positions_Invalid :: Position where
  "Positions_Invalid = (32000, 32000)"

text \<open>Division of C++ \<open>int\<close>s truncates towards zero.\<close>

definition cdiv :: "int \<Rightarrow> int \<Rightarrow> int" where
  "cdiv a b = sgn a * sgn b * (\<bar>a\<bar> div \<bar>b\<bar>)"

text \<open>The remainder \<open>a % b\<close> of C++ goes with that division: it has the sign of \<open>a\<close>.\<close>

definition cmod :: "int \<Rightarrow> int \<Rightarrow> int" where
  "cmod a b = a - b * cdiv a b"

text \<open>
  A value that is stored in a C++ \<open>int\<close> of 32 bits. Signed overflow, and the conversion of
  a double that is outside the range of \<open>int\<close>, are undefined in C++: the model then has
  no result, as for a fatal error.
\<close>

definition checkedInt :: "int \<Rightarrow> int option" where
  "checkedInt x = (if - (2 ^ 31) \<le> x \<and> x < 2 ^ 31 then Some x else None)"

text \<open>\<open>BWAPI::TilePosition(p)\<close> of a pixel position: both coordinates divided by 32.\<close>

definition TilePosition :: "Position \<Rightarrow> int \<times> int" where
  "TilePosition p = (cdiv (fst p) 32, cdiv (snd p) 32)"

text \<open>
  Modelled from the spec: the membership test \<open>Squad::containsUnitType\<close> of Squad.cpp
  ("exposes membership tests"): some member has the type.
\<close>

definition containsUnitType :: "Game \<Rightarrow> Squad \<Rightarrow> UnitType \<Rightarrow> bool" where
  "containsUnitType g s t = list_ex (\<lambda>u. getType g u = t) (squadUnits s)"

text \<open>A loop whose body can end the run with a fatal error: None is passed on.\<close>

fun foldOpt :: "('a \<Rightarrow> 's \<Rightarrow> 's option) \<Rightarrow> 'a list \<Rightarrow> 's \<Rightarrow> 's option" where
  "foldOpt f [] s = Some s"
| "foldOpt f (x # xs) s = (case f x s of None \<Rightarrow> None | Some s' \<Rightarrow> foldOpt f xs s')"

section \<open>The commander\<close>

record CombatCommander =
  initialized :: bool
  goAggressive :: bool
  reconTarget :: Position
  lastReconTargetChange :: int
  enemyWorkerAttackedAt :: int
  squadData :: SquadData
  combatUnits :: "Unit list"

text \<open>The constructor (lines 27-34); the registry and the roster start empty.\<close>

definition CombatCommander_init :: CombatCommander where
  "CombatCommander_init =
     \<lparr>initialized = False, goAggressive = True, reconTarget = Positions_Invalid,
      lastReconTargetChange = 0, enemyWorkerAttackedAt = 0, squadData = [], combatUnits = []\<rparr>"

subsection \<open>getAttackLocation (lines 1241-1358)\<close>

text \<open>
  Step 1, the score of an enemy base: minus the number of nearby enemies that are buildings
  or slow units good for defense and that could attack the squad. The third disjunct of the
  source, \<open>enemy.type == enemy.type == Protoss_High_Templar\<close>, compares the truth value
  of \<open>enemy.type == enemy.type\<close>, that is 1, with the type High Templar, whose number is
  not 1: it is false for every enemy.
\<close>

definition goodForDefense :: "Game \<Rightarrow> UnitType \<Rightarrow> bool" where
  "goodForDefense g t =
     (isBuilding g t \<or> t = Terran_Siege_Tank_Tank_Mode \<or> t = Terran_Siege_Tank_Siege_Mode
      \<or> t = Protoss_Reaver \<or> t = Zerg_Lurker \<or> t = Zerg_Guardian)"

definition baseScore :: "Game \<Rightarrow> bool \<Rightarrow> bool \<Rightarrow> BaseLocation \<Rightarrow> int" where
  "baseScore g hasG hasA base =
     fold (\<lambda>enemy score.
             if goodForDefense g (uiType enemy)
                \<and> (hasG \<and> TypeCanAttackGround g (uiType enemy)
                   \<or> hasA \<and> TypeCanAttackAir g (uiType enemy)
                   \<or> False)
             then score - 1 else score)
          (getNearbyForce g (basePosition g base)) 0"

definition weakestEnemyBase :: "Game \<Rightarrow> bool \<Rightarrow> bool \<Rightarrow> BaseLocation option" where
  "weakestEnemyBase g hasG hasA =
     fst (fold (\<lambda>base (targetBase, bestScore).
                  if getBaseOwner g base = Enemy
                  then (let score = baseScore g hasG hasA base
                        in if score > bestScore then (Some base, score)
                           else (targetBase, bestScore))
                  else (targetBase, bestScore))
               (getBaseLocations g) (None, - 99999))"

definition knownBuilding :: "Game \<Rightarrow> UnitInfo \<Rightarrow> bool" where
  "knownBuilding g ui =
     (isBuilding g (uiType ui) \<and> isValid g (lastPosition ui) \<and> \<not> goneFromLastPosition ui)"

definition attackableUnit :: "Game \<Rightarrow> bool \<Rightarrow> bool \<Rightarrow> Unit \<Rightarrow> bool" where
  "attackableUnit g canAA canAG unit =
     (\<not> (getType g unit = Zerg_Larva \<or> \<not> unitExists g unit \<or> \<not> isDetected g unit
         \<or> \<not> isValid g (getPosition g unit))
      \<and> (isFlying g unit \<and> canAA \<or> \<not> isFlying g unit \<and> canAG))"

text \<open>Steps 2 to 4, reached when step 1 has returned nothing.\<close>

definition attackLocationAfterBases :: "Game \<Rightarrow> bool \<Rightarrow> bool \<Rightarrow> bool \<Rightarrow> bool \<Rightarrow> Position" where
  "attackLocationAfterBases g hasG hasA canAA canAG =
     (case (if canAG \<or> enemyRace g = Terran then find (knownBuilding g) (getUnitInfo g)
            else None) of
        Some ui \<Rightarrow> lastPosition ui
      | None \<Rightarrow>
          (case find (attackableUnit g canAA canAG) (enemyUnits g) of
             Some unit \<Rightarrow> getPosition g unit
           | None \<Rightarrow> getLeastExplored g (hasG \<and> \<not> hasA)))"

definition getAttackLocation :: "Game \<Rightarrow> Squad option \<Rightarrow> Position" where
  "getAttackLocation g squad =
     (let hasG = (case squad of None \<Rightarrow> True | Some s \<Rightarrow> hasGround g s);
          hasA = (case squad of None \<Rightarrow> False | Some s \<Rightarrow> hasAir g s);
          canAA = (case squad of None \<Rightarrow> False | Some s \<Rightarrow> canAttackAir g s);
          canAG = (case squad of None \<Rightarrow> True | Some s \<Rightarrow> canAttackGround g s)
      in case (if canAG then weakestEnemyBase g hasG hasA else None) of
           Some targetBase \<Rightarrow> basePosition g targetBase
         | None \<Rightarrow> attackLocationAfterBases g hasG hasA canAA canAG)"

subsection \<open>getDropLocation (lines 1361-1423)\<close>

definition getDropLocation :: "Game \<Rightarrow> Position" where
  "getDropLocation g =
     (case getEnemyMainBaseLocation g of
        Some base \<Rightarrow> basePosition g base
      | None \<Rightarrow>
          (case find (knownBuilding g) (getUnitInfo g) of
             Some ui \<Rightarrow> lastPosition ui
           | None \<Rightarrow> getLeastExplored g False))"

subsection \<open>initializeSquads (lines 38-76)\<close>

definition initializeSquads :: "Game \<Rightarrow> CombatCommander \<Rightarrow> CombatCommander option" where
  "initializeSquads g cc =
     (let idleOrder = \<lparr>orderType = Idle, orderPosition = startLocation g, orderRadius = 100,
                       orderStatus = ''Chill out''\<rparr>;
          mainAttackOrder = \<lparr>orderType = Attack, orderPosition = getAttackLocation g None,
                             orderRadius = AttackRadius, orderStatus = ''Attack enemy base''\<rparr>;
          reconSquad = (newSquad ''Recon'' idleOrder ReconPriority)
                          \<lparr>combatSimRadius := 200, fightVisible := True\<rparr>;
          ourBasePosition = startLocation g;
          enemyScoutDefense = \<lparr>orderType = Defend, orderPosition = ourBasePosition,
                               orderRadius = ScoutDefenseRadius g, orderStatus = ''Get the scout''\<rparr>;
          doDrop = \<lparr>orderType = Hold, orderPosition = ourBasePosition, orderRadius = AttackRadius,
                    orderStatus = ''Wait for transport''\<rparr>
      in case addSquad (squadData cc) (newSquad ''Idle'' idleOrder IdlePriority) of
           None \<Rightarrow> None
         | Some sd1 \<Rightarrow>
        (case addSquad sd1 (newSquad ''Ground'' mainAttackOrder AttackPriority) of
           None \<Rightarrow> None
         | Some sd2 \<Rightarrow>
        (case addSquad sd2 (newSquad ''Flying'' mainAttackOrder AttackPriority) of
           None \<Rightarrow> None
         | Some sd3 \<Rightarrow>
        (case addSquad sd3 reconSquad of
           None \<Rightarrow> None
         | Some sd4 \<Rightarrow>
        (case (if ScoutDefenseRadius g > 0
               then addSquad sd4 (newSquad ''ScoutDefense'' enemyScoutDefense ScoutDefensePriority)
               else Some sd4) of
           None \<Rightarrow> None
         | Some sd5 \<Rightarrow>
        (case (if dropIsPlanned g
               then addSquad sd5 (newSquad ''Drop'' doDrop DropPriority)
               else Some sd5) of
           None \<Rightarrow> None
         | Some sd6 \<Rightarrow> Some (cc\<lparr>squadData := sd6, initialized := True\<rparr>)))))))"

subsection \<open>updateIdleSquad (lines 110-121)\<close>

definition updateIdleSquad :: "CombatCommander \<Rightarrow> CombatCommander option" where
  "updateIdleSquad cc =
     (case getSquad (squadData cc) ''Idle'' of
        None \<Rightarrow> None
      | Some _ \<Rightarrow>
          Some (cc\<lparr>squadData :=
                     fold (\<lambda>unit sd. if canAssignUnitToSquad sd unit ''Idle''
                                      then onSquad ''Idle'' (addUnit unit) sd else sd)
                          (combatUnits cc) (squadData cc)\<rparr>))"

subsection \<open>updateAttackSquads (lines 374-527)\<close>

definition isFlyingSquadUnit :: "UnitType \<Rightarrow> bool" where
  "isFlyingSquadUnit t =
     (t = Zerg_Mutalisk \<or> t = Terran_Wraith \<or> t = Terran_Valkyrie \<or> t = Terran_Battlecruiser
      \<or> t = Protoss_Corsair \<or> t = Protoss_Scout)"

definition isOptionalFlyingSquadUnit :: "UnitType \<Rightarrow> bool" where
  "isOptionalFlyingSquadUnit t =
     (t = Zerg_Scourge \<or> t = Zerg_Devourer \<or> t = Protoss_Carrier)"

definition isGroundSquadUnit :: "Game \<Rightarrow> UnitType \<Rightarrow> bool" where
  "isGroundSquadUnit g t = (\<not> isWorker g t)"

text \<open>
  One pass of the loop over the roster (lines 394-456). The state is the registry and the two
  flags \<open>groundDetector\<close> and \<open>flyingDetector\<close>. The assertion of line 439 is fatal when it
  fails.
\<close>

definition attackSquadsUnit ::
  "Game \<Rightarrow> bool \<Rightarrow> bool \<Rightarrow> Unit \<Rightarrow> SquadData \<times> bool \<times> bool \<Rightarrow> (SquadData \<times> bool \<times> bool) option" where
  "attackSquadsUnit g groundSquadExists flyingSquadExists unit st =
     (case st of (sd, groundDetector, flyingDetector) \<Rightarrow>
        if isDetector g (getType g unit) then
          (if groundSquadExists \<and> \<not> groundDetector \<and> canAssignUnitToSquad sd unit ''Ground''
           then Some (assignUnitToSquad sd unit ''Ground'', True, flyingDetector)
           else if flyingSquadExists \<and> \<not> flyingDetector
                   \<and> canAssignUnitToSquad sd unit ''Ground''
           then Some (assignUnitToSquad sd unit ''Flying'', groundDetector, True)
           else Some st)
        else if isFlyingSquadUnit (getType g unit) then
          (if canAssignUnitToSquad sd unit ''Flying''
           then Some (assignUnitToSquad sd unit ''Flying'', groundDetector, flyingDetector)
           else Some st)
        else if isOptionalFlyingSquadUnit (getType g unit) then
          (if flyingSquadExists then
             (let sd1 = (if inSquad sd ''Ground'' unit
                         then onSquad ''Ground'' (removeUnit unit) sd else sd)
              in if canAssignUnitToSquad sd1 unit ''Flying''
                 then Some (assignUnitToSquad sd1 unit ''Flying'', groundDetector, flyingDetector)
                 else Some (sd1, groundDetector, flyingDetector))
           else
             (case (if inSquad sd ''Flying'' unit
                    then (let sd1 = onSquad ''Flying'' (removeUnit unit) sd
                          in if canAssignUnitToSquad sd1 unit ''Ground'' then Some sd1 else None)
                    else Some sd) of
                None \<Rightarrow> None
              | Some sd1 \<Rightarrow>
                  if canAssignUnitToSquad sd1 unit ''Ground''
                  then Some (assignUnitToSquad sd1 unit ''Ground'', groundDetector, flyingDetector)
                  else Some (sd1, groundDetector, flyingDetector)))
        else if isGroundSquadUnit g (getType g unit) then
          (if canAssignUnitToSquad sd unit ''Ground''
           then Some (assignUnitToSquad sd unit ''Ground'', groundDetector, flyingDetector)
           else Some st)
        else Some st)"

text \<open>The directives of the two squads (lines 458-496).\<close>

definition getDefensePosition :: "Game \<Rightarrow> Position \<times> int" where
  "getDefensePosition g =
     (let radius = DefensivePositionRadius;
          base = getMyMainBaseLocation g;
          base = (case getMyNaturalLocation g of
                    None \<Rightarrow> base
                  | Some natural \<Rightarrow> if Self = getBaseOwner g natural then natural else base);
          defendPosition = basePosition g base
      in if wallExists g then (wallGapCenter g, cdiv radius 4) else (defendPosition, radius))"

definition attackSquadsOrders :: "Game \<Rightarrow> bool \<Rightarrow> SquadData \<Rightarrow> SquadData" where
  "attackSquadsOrders g aggressive sd =
     (if aggressive then
        (let mainAttackOrder =
               \<lparr>orderType = Attack, orderPosition = getAttackLocation g (getSquad sd ''Ground''),
                orderRadius = AttackRadius, orderStatus = ''Attack enemy base''\<rparr>;
             sd1 = onSquad ''Ground'' (setSquadOrder mainAttackOrder) sd;
             flyingAttackOrder =
               \<lparr>orderType = Attack, orderPosition = getAttackLocation g (getSquad sd1 ''Flying''),
                orderRadius = AttackRadius, orderStatus = ''Attack enemy base''\<rparr>
         in onSquad ''Flying'' (setSquadOrder flyingAttackOrder) sd1)
      else
        (case getDefensePosition g of (defendPosition, radius) \<Rightarrow>
           (let mainDefendOrder =
                  \<lparr>orderType = (if wallExists g then HoldWall else Hold),
                   orderPosition = defendPosition, orderRadius = radius,
                   orderStatus = ''Hold the wall''\<rparr>;
                sd1 = onSquad ''Ground'' (setSquadOrder mainDefendOrder) sd;
                flyingDefendOrder =
                  \<lparr>orderType = Hold, orderPosition = defendPosition, orderRadius = radius,
                   orderStatus = ''Hold the wall''\<rparr>
            in onSquad ''Flying'' (setSquadOrder flyingDefendOrder) sd1)))"

definition updateAttackSquads :: "Game \<Rightarrow> CombatCommander \<Rightarrow> CombatCommander option" where
  "updateAttackSquads g cc =
     (case getSquad (squadData cc) ''Ground'' of
        None \<Rightarrow> None
      | Some groundSquad \<Rightarrow>
     (case getSquad (squadData cc) ''Flying'' of
        None \<Rightarrow> None
      | Some flyingSquad \<Rightarrow>
          (let groundDetector = hasDetector g groundSquad;
               groundSquadExists = hasCombatUnits g groundSquad;
               flyingDetector = hasDetector g flyingSquad;
               flyingSquadExists =
                 list_ex (\<lambda>unit. isFlyingSquadUnit (getType g unit)) (squadUnits flyingSquad)
           in case foldOpt (attackSquadsUnit g groundSquadExists flyingSquadExists)
                     (combatUnits cc) (squadData cc, groundDetector, flyingDetector) of
                None \<Rightarrow> None
              | Some (sd, _, _) \<Rightarrow>
                  Some (cc\<lparr>squadData := attackSquadsOrders g (goAggressive cc) sd\<rparr>))))"

subsection \<open>updateDropSquads (lines 532-628) and unitIsGoodToDrop (lines 1137-1142)\<close>

definition unitIsGoodToDrop :: "Game \<Rightarrow> Unit \<Rightarrow> bool" where
  "unitIsGoodToDrop g unit =
     (getType g unit = Protoss_Dark_Templar \<or> getType g unit = Terran_Vulture)"

text \<open>
  The loop over the squad (lines 561-583): the transport found last, the transport spots
  that remain of 8, and whether some unit is not loaded.
\<close>

definition dropSquadSurvey :: "Game \<Rightarrow> Unit list \<Rightarrow> Unit option \<times> int \<times> bool" where
  "dropSquadSurvey g dropUnits =
     fold (\<lambda>unit (transportUnit, transportSpotsRemaining, anyUnloadedUnits).
             if unitExists g unit then
               (if isFlying g unit \<and> spaceProvided g (getType g unit) > 0
                then (Some unit, transportSpotsRemaining, anyUnloadedUnits)
                else (transportUnit,
                      transportSpotsRemaining - spaceRequired g (getType g unit),
                      (if \<not> isLoaded g unit then True else anyUnloadedUnits)))
             else (transportUnit, transportSpotsRemaining, anyUnloadedUnits))
          dropUnits (None, 8, False)"

text \<open>One pass of the recruiting loop (lines 604-626).\<close>

definition dropSquadRecruit ::
  "Game \<Rightarrow> Unit \<Rightarrow> SquadData \<times> Unit option \<times> int \<Rightarrow> SquadData \<times> Unit option \<times> int" where
  "dropSquadRecruit g unit st =
     (case st of (sd, transportUnit, transportSpotsRemaining) \<Rightarrow>
        if transportUnit = None \<and> spaceProvided g (getType g unit) > 0 \<and> isFlying g unit
           \<and> canAssignUnitToSquad sd unit ''Drop''
        then (assignUnitToSquad sd unit ''Drop'', Some unit, transportSpotsRemaining)
        else if spaceRequired g (getType g unit) \<le> transportSpotsRemaining
                \<and> unitIsGoodToDrop g unit \<and> canAssignUnitToSquad sd unit ''Drop''
        then (assignUnitToSquad sd unit ''Drop'', transportUnit,
              transportSpotsRemaining - spaceRequired g (getType g unit))
        else st)"

definition updateDropSquads :: "Game \<Rightarrow> CombatCommander \<Rightarrow> CombatCommander option" where
  "updateDropSquads g cc =
     (if \<not> squadExists (squadData cc) ''Drop'' then Some cc
      else case getSquad (squadData cc) ''Drop'' of
        None \<Rightarrow> None
      | Some dropSquad \<Rightarrow>
          if orderType (squadOrder dropSquad) = Drop then Some cc
          else
            (case dropSquadSurvey g (squadUnits dropSquad) of
               (transportUnit, transportSpotsRemaining, anyUnloadedUnits) \<Rightarrow>
                 (case (transportUnit, transportSpotsRemaining = 0) of
                    (Some transport, True) \<Rightarrow>
                      if anyUnloadedUnits then
                        Some (cc\<lparr>squadData := onSquad ''Drop''
                                   (setSquadOrder \<lparr>orderType = Load,
                                       orderPosition = getPosition g transport,
                                       orderRadius = AttackRadius, orderStatus = ''Load up''\<rparr>)
                                   (squadData cc)\<rparr>)
                      else
                        Some (cc\<lparr>squadData := onSquad ''Drop''
                                   (setSquadOrder \<lparr>orderType = Drop,
                                       orderPosition = getDropLocation g,
                                       orderRadius = 300, orderStatus = ''Go drop!''\<rparr>)
                                   (squadData cc)\<rparr>)
                  | _ \<Rightarrow>
                      Some (cc\<lparr>squadData :=
                                 fst (fold (dropSquadRecruit g) (combatUnits cc)
                                        (squadData cc, transportUnit, transportSpotsRemaining))\<rparr>))))"

subsection \<open>updateScoutDefenseSquad (lines 630-688)\<close>

text \<open>An enemy unit in the region that is not a scout (lines 654-662).\<close>

definition notAScout :: "Game \<Rightarrow> int \<Rightarrow> Region \<Rightarrow> Unit \<Rightarrow> bool" where
  "notAScout g workerAttackedAt myRegion unit =
     (getRegionTile g (TilePosition (getPosition g unit)) = Some myRegion
      \<and> getType g unit \<noteq> Zerg_Overlord
      \<and> (\<not> isWorker g (getType g unit) \<or> workerAttackedAt > frameCount g - 120))"

definition scoutDefender :: "Game \<Rightarrow> SquadData \<Rightarrow> Region \<Rightarrow> Unit \<Rightarrow> bool" where
  "scoutDefender g sd myRegion unit =
     (getType g unit = Protoss_Dragoon
      \<and> getRegionTile g (TilePosition (getPosition g unit)) = Some myRegion
      \<and> canAssignUnitToSquad sd unit ''ScoutDefense'')"

definition updateScoutDefenseSquad :: "Game \<Rightarrow> CombatCommander \<Rightarrow> CombatCommander option" where
  "updateScoutDefenseSquad g cc =
     (if ScoutDefenseRadius g = 0 \<or> combatUnits cc = [] then Some cc
      else case getSquad (squadData cc) ''ScoutDefense'' of
        None \<Rightarrow> None
      | Some scoutDefenseSquad \<Rightarrow>
          (case getRegionTile g (baseTilePosition g (getMyMainBaseLocation g)) of
             None \<Rightarrow> Some cc
           | Some myRegion \<Rightarrow>
               if \<not> isValid g (getCenter g myRegion) then Some cc
               else
                 (let chaseScout =
                        (\<not> list_ex (notAScout g (enemyWorkerAttackedAt cc) myRegion) (enemyUnits g))
                  in if \<not> chaseScout then
                       (if \<not> isEmpty scoutDefenseSquad
                        then Some (cc\<lparr>squadData := onSquad ''ScoutDefense'' clear (squadData cc)\<rparr>)
                        else Some cc)
                     else if isEmpty scoutDefenseSquad then
                       (case find (scoutDefender g (squadData cc) myRegion) (combatUnits cc) of
                          None \<Rightarrow> Some cc
                        | Some unit \<Rightarrow>
                            Some (cc\<lparr>squadData :=
                                       assignUnitToSquad (squadData cc) unit ''ScoutDefense''\<rparr>))
                     else Some cc)))"

subsection \<open>updateReconSquad (lines 127-259) and its helpers (lines 262-368)\<close>

definition weighReconUnit :: "UnitType \<Rightarrow> int" where
  "weighReconUnit t =
     (if t = Zerg_Zergling then 2
      else if t = Zerg_Hydralisk then 3
      else if t = Terran_Marine then 2
      else if t = Terran_Medic then 2
      else if t = Terran_Vulture then 4
      else if t = Terran_Siege_Tank_Tank_Mode then 6
      else if t = Terran_Siege_Tank_Siege_Mode then 6
      else if t = Protoss_Zealot then 4
      else if t = Protoss_Dragoon then 4
      else if t = Protoss_Dark_Templar then 4
      else 0)"

text \<open>
  getReconLocation: \<open>choices.at(i)\<close> throws when the index that \<open>Random\<close> gives is out of
  range; this is the value None.
\<close>

definition getReconLocation :: "Game \<Rightarrow> Position option" where
  "getReconLocation g =
     (let mainPosition = basePosition g (getMyMainBaseLocation g);
          choices = filter (\<lambda>base. getBaseOwner g base = Neutral
                                  \<and> getGroundTileDistance g (basePosition g base) mainPosition \<noteq> - 1)
                           (getBaseLocations g)
      in if choices = [] then Some Positions_Invalid
         else (let i = randomIndex g (length choices)
               in if i < length choices then Some (basePosition g (choices ! i)) else None))"

definition chooseReconTarget :: "Game \<Rightarrow> CombatCommander \<Rightarrow> CombatCommander option" where
  "chooseReconTarget g cc =
     (case getReconLocation g of
        None \<Rightarrow> None
      | Some nextTarget \<Rightarrow>
          (let change =
                 (if \<not> isValid g nextTarget then True
                  else if \<not> isValid g (reconTarget cc) then True
                  else if frameCount g - lastReconTargetChange cc \<ge> ReconTargetTimeout then True
                  else if isVisible g (cdiv (fst (reconTarget cc)) 32) (cdiv (snd (reconTarget cc)) 32)
                  then filter (\<lambda>unit. \<not> isFlying g unit)
                              (gridEnemyUnits g (reconTarget cc) ReconRadius) = []
                  else False)
           in if change
              then Some (cc\<lparr>reconTarget := nextTarget, lastReconTargetChange := frameCount g\<rparr>)
              else Some cc))"

text \<open>The weight limit of the squad (lines 181-188), from the available weight.\<close>

definition maxWeight :: int where "maxWeight = 12"

definition reconWeightLimit :: "int \<Rightarrow> int" where
  "reconWeightLimit availableWeight =
     (let weightLimit = (if availableWeight \<ge> 24 then 2 + cdiv (availableWeight - 24) 6 else 0)
      in if weightLimit > maxWeight then maxWeight else weightLimit)"

definition squadReconWeight :: "Game \<Rightarrow> Unit list \<Rightarrow> int" where
  "squadReconWeight g units = fold (\<lambda>unit w. w + weighReconUnit (getType g unit)) units 0"

definition countType :: "Game \<Rightarrow> UnitType \<Rightarrow> Unit list \<Rightarrow> int" where
  "countType g t units = fold (\<lambda>unit n. if getType g unit = t then n + 1 else n) units 0"

text \<open>
  The first adding loop (lines 204-235). The state is the registry, \<open>squadWeight\<close>,
  \<open>nMarines\<close> and \<open>hasDetector\<close>; the loop ends at the first unit for which the squad has
  reached the limit.
\<close>

definition reconAddUnit ::
  "Game \<Rightarrow> int \<Rightarrow> int \<Rightarrow> Unit \<Rightarrow> SquadData \<times> int \<times> int \<times> bool \<Rightarrow> SquadData \<times> int \<times> int \<times> bool" where
  "reconAddUnit g weightLimit availableDetectors unit st =
     (case st of (sd, squadWeight, nMarines, hasDet) \<Rightarrow>
        (let type = getType g unit; weight = weighReconUnit type
         in if weight > 0 \<and> squadWeight + weight \<le> weightLimit
               \<and> canAssignUnitToSquad sd unit ''Recon''
            then (if type = Terran_Marine then
                    (if nMarines * weight < maxWeight - 2 * weighReconUnit Terran_Medic
                     then (assignUnitToSquad sd unit ''Recon'', squadWeight + weight,
                           nMarines + 1, hasDet)
                     else st)
                  else if type \<noteq> Terran_Medic then
                    (assignUnitToSquad sd unit ''Recon'', squadWeight + weight, nMarines, hasDet)
                  else st)
            else if \<not> hasDet \<and> availableDetectors > 1 \<and> isDetector g type
                    \<and> canAssignUnitToSquad sd unit ''Recon''
            then (assignUnitToSquad sd unit ''Recon'', squadWeight, nMarines, True)
            else st))"

fun reconAddUnits ::
  "Game \<Rightarrow> int \<Rightarrow> int \<Rightarrow> Unit list \<Rightarrow> SquadData \<times> int \<times> int \<times> bool \<Rightarrow> SquadData \<times> int \<times> int \<times> bool" where
  "reconAddUnits g weightLimit availableDetectors [] st = st"
| "reconAddUnits g weightLimit availableDetectors (unit # units) st =
     (if fst (snd st) \<ge> weightLimit then st
      else reconAddUnits g weightLimit availableDetectors units
             (reconAddUnit g weightLimit availableDetectors unit st))"

text \<open>The loop that fills in medics (lines 240-253); the state adds \<open>nMedics\<close>.\<close>

fun reconAddMedics ::
  "Game \<Rightarrow> int \<Rightarrow> Unit list \<Rightarrow> SquadData \<times> int \<times> int \<Rightarrow> SquadData \<times> int \<times> int" where
  "reconAddMedics g weightLimit [] st = st"
| "reconAddMedics g weightLimit (unit # units) st =
     (case st of (sd, squadWeight, nMedics) \<Rightarrow>
        if squadWeight \<ge> weightLimit \<or> nMedics \<ge> 2 then st
        else if getType g unit = Terran_Medic \<and> canAssignUnitToSquad sd unit ''Recon''
        then reconAddMedics g weightLimit units
               (assignUnitToSquad sd unit ''Recon'',
                squadWeight + weighReconUnit Terran_Medic, nMedics + 1)
        else reconAddMedics g weightLimit units st)"

text \<open>
  What is already in the squad, and the two places where the squad is cleared (lines
  148-199): the registry, \<open>squadWeight\<close>, \<open>nMarines\<close> and \<open>nMedics\<close> as they stand
  before the adding loops. The weight limit (lines 172-188) is computed from the roster
  only and is passed in.
\<close>

definition reconSquadReview ::
  "Game \<Rightarrow> int \<Rightarrow> Squad \<Rightarrow> SquadData \<Rightarrow> SquadData \<times> int \<times> int \<times> int" where
  "reconSquadReview g weightLimit reconSquad sd =
     (let squadWeight = squadReconWeight g (squadUnits reconSquad);
          nMarines = countType g Terran_Marine (squadUnits reconSquad);
          nMedics = countType g Terran_Medic (squadUnits reconSquad);
          sd1 = (if squadWeight = 0 \<and> \<not> isEmpty reconSquad
                 then onSquad ''Recon'' clear sd else sd)
      in if squadWeight > weightLimit \<or> nMarines = 0 \<and> nMedics > 0
         then (onSquad ''Recon'' clear sd1, 0, 0, 0)
         else (sd1, squadWeight, nMarines, nMedics))"

text \<open>The two adding loops (lines 201-254).\<close>

definition reconSquadFill ::
  "Game \<Rightarrow> int \<Rightarrow> Unit list \<Rightarrow> SquadData \<times> int \<times> int \<times> int \<Rightarrow> SquadData" where
  "reconSquadFill g weightLimit units st =
     (case st of (sd, squadWeight, nMarines, nMedics) \<Rightarrow>
        (let availableDetectors =
               int (length (filter (\<lambda>unit. isDetector g (getType g unit)) units));
             hasDet = (case getSquad sd ''Recon'' of None \<Rightarrow> False | Some s \<Rightarrow> hasDetector g s)
         in case reconAddUnits g weightLimit availableDetectors units
                   (sd, squadWeight, nMarines, hasDet) of
              (sd3, squadWeight3, nMarines3, _) \<Rightarrow>
                if nMarines3 > 0 \<and> nMedics < 2
                then fst (reconAddMedics g weightLimit units (sd3, squadWeight3, nMedics))
                else sd3))"

definition updateReconSquad :: "Game \<Rightarrow> CombatCommander \<Rightarrow> CombatCommander option" where
  "updateReconSquad g cc =
     (case getSquad (squadData cc) ''Recon'' of
        None \<Rightarrow> None
      | Some reconSquad \<Rightarrow>
          if \<not> goAggressive cc
          then Some (cc\<lparr>squadData := onSquad ''Recon'' clear (squadData cc)\<rparr>)
          else
            (case chooseReconTarget g cc of
               None \<Rightarrow> None
             | Some cc1 \<Rightarrow>
                 if \<not> isValid g (reconTarget cc1)
                 then Some (cc1\<lparr>squadData := onSquad ''Recon'' clear (squadData cc1)\<rparr>)
                 else
                   (let weightLimit = reconWeightLimit (squadReconWeight g (combatUnits cc1));
                        sd4 = reconSquadFill g weightLimit (combatUnits cc1)
                                (reconSquadReview g weightLimit reconSquad (squadData cc1))
                    in Some (cc1\<lparr>squadData :=
                               onSquad ''Recon''
                                 (setSquadOrder \<lparr>orderType = Attack,
                                    orderPosition = reconTarget cc1,
                                    orderRadius = ReconRadius,
                                    orderStatus = ''Reconnaissance in force''\<rparr>)
                                 sd4\<rparr>))))"

subsection \<open>updateBaseDefenseSquads (lines 690-924)\<close>

text \<open>The name of the defense squad of a region: \<open>"Base Defense " << x << " " << y\<close>.\<close>

fun digits :: "nat \<Rightarrow> string" where
  "digits n =
     (if n < 10 then [''0123456789'' ! n]
      else digits (n div 10) @ [''0123456789'' ! (n mod 10)])"

definition show_int :: "int \<Rightarrow> string" where
  "show_int i = (if i < 0 then CHR ''-'' # digits (nat (- i)) else digits (nat i))"

definition baseDefenseName :: "Position \<Rightarrow> string" where
  "baseDefenseName regionCenter =
     ''Base Defense '' @ show_int (fst regionCenter) @ '' '' @ show_int (snd regionCenter)"

text \<open>All of the enemy units in the region (lines 745-761).\<close>

definition enemyUnitsInRegion :: "Game \<Rightarrow> Region \<Rightarrow> Unit list" where
  "enemyUnitsInRegion g myRegion =
     filter (\<lambda>unit. \<not> (getType g unit = Zerg_Overlord \<or> getType g unit = Protoss_Observer
                         \<or> isLifted g unit)
                    \<and> getRegionTile g (TilePosition (getPosition g unit)) = Some myRegion)
            (enemyUnits g)"

text \<open>
  The first enemy worker in the region is taken for a scout, unless it has attacked recently
  (lines 763-772). The result is the set of threats and the new \<open>_enemyWorkerAttackedAt\<close>.
\<close>

definition discountScout :: "Game \<Rightarrow> int \<Rightarrow> Unit list \<Rightarrow> Unit list \<times> int" where
  "discountScout g workerAttackedAt enemies =
     (case find (\<lambda>unit. isWorker g (getType g unit)) enemies of
        None \<Rightarrow> (enemies, workerAttackedAt)
      | Some unit \<Rightarrow>
          if isAttacking g unit then (enemies, frameCount g)
          else if workerAttackedAt < frameCount g - 120
          then (Unitset_erase unit enemies, workerAttackedAt)
          else (enemies, workerAttackedAt))"

text \<open>
  \<open>std::ceil(groundDefendersNeeded * 1.2)\<close> (line 854) is computed in IEEE double precision
  and stored back into the \<open>int\<close>. The literal 1.2 is the double
  \<open>5404319552844595 / 2^52\<close>. The product of the integer and this double is rounded to
  53 significant bits, ties to even; \<open>roundToDouble a\<close> is that rounding for the number
  \<open>a / 2^52\<close>, again as a multiple of \<open>2^-52\<close>. \<open>ceilTimes_1_2 n\<close> is the value of
  \<open>std::ceil\<close>, a double that is a whole number; storing it into the \<open>int\<close> is the
  conversion \<open>checkedInt\<close>.
\<close>

definition double_1_2 :: int where
  "double_1_2 = 5404319552844595"

definition roundToDouble :: "int \<Rightarrow> int" where
  "roundToDouble a =
     (let m = \<bar>a\<bar>; s = bitlen m - 53
      in if s \<le> 0 then a
         else (let q = m div 2 ^ nat s; r = m mod 2 ^ nat s; h = 2 ^ nat (s - 1)
               in sgn a * (if r > h \<or> (r = h \<and> odd q) then (q + 1) * 2 ^ nat s
                           else q * 2 ^ nat s)))"

definition ceilTimes_1_2 :: "int \<Rightarrow> int" where
  "ceilTimes_1_2 n = - ((- roundToDouble (n * double_1_2)) div 2 ^ 52)"

text \<open>The weight of one enemy ground unit (lines 835-844).\<close>

definition groundThreat :: "Game \<Rightarrow> UnitType \<Rightarrow> int" where
  "groundThreat g t =
     (if isWorker g t then 1
      else if t = Zerg_Zergling then 2
      else if t = Zerg_Hydralisk \<or> t = Terran_Marine then 3
      else if t = Protoss_Zealot then 5
      else 6)"

definition groundThreatSum :: "Game \<Rightarrow> Unit list \<Rightarrow> int" where
  "groundThreatSum g enemies =
     fold (\<lambda>unit n. if isFlying g unit then n else n + groundThreat g (getType g unit)) enemies 0"

text \<open>
  A completed, powered building of ours in the region, or within 500 of the position of the
  order of the defense squad (lines 862-864 and 878-880).
\<close>

definition staticDefenseHere :: "Game \<Rightarrow> Region \<Rightarrow> Position \<Rightarrow> Unit \<Rightarrow> bool" where
  "staticDefenseHere g myRegion orderPos unit =
     (isCompleted g unit \<and> isPowered g unit
      \<and> (getRegionTile g (TilePosition (getPosition g unit)) = Some myRegion
         \<or> positionDistance g orderPos (getPosition g unit) < 500))"

definition staticAirDefense :: "Game \<Rightarrow> Region \<Rightarrow> Position \<Rightarrow> Unit \<Rightarrow> bool" where
  "staticAirDefense g myRegion orderPos unit =
     ((getType g unit = Terran_Missile_Turret \<or> getType g unit = Protoss_Photon_Cannon
       \<or> getType g unit = Zerg_Spore_Colony)
      \<and> staticDefenseHere g myRegion orderPos unit)"

definition staticGroundDefense :: "Game \<Rightarrow> Region \<Rightarrow> Position \<Rightarrow> Unit \<Rightarrow> bool" where
  "staticGroundDefense g myRegion orderPos unit =
     ((getType g unit = Protoss_Photon_Cannon \<or> getType g unit = Zerg_Sunken_Colony)
      \<and> staticDefenseHere g myRegion orderPos unit)"

definition flyingDefendersNeeded :: "Game \<Rightarrow> Region \<Rightarrow> Position \<Rightarrow> Unit list \<Rightarrow> int" where
  "flyingDefendersNeeded g myRegion orderPos enemies =
     (let numDefendersPerEnemyUnit = 2;
          numEnemyFlyingInRegion = int (length (filter (isFlying g) enemies));
          needed = numDefendersPerEnemyUnit * numEnemyFlyingInRegion;
          needed = fold (\<lambda>unit n. if staticAirDefense g myRegion orderPos unit then n - 3 else n)
                        (selfUnits g) needed
      in max needed 0)"

text \<open>
  The ground need of a region (lines 828-854 and 875-886). The sum of the weights only grows
  and the subtraction of the static defense only shrinks, so that each of the two loops
  leaves the range of \<open>int\<close> exactly when its last value does.
\<close>

definition groundDefendersNeeded ::
  "Game \<Rightarrow> Region \<Rightarrow> Position \<Rightarrow> Unit list \<Rightarrow> int option" where
  "groundDefendersNeeded g myRegion orderPos enemies =
     (case checkedInt (groundThreatSum g enemies) of
        None \<Rightarrow> None
      | Some needed \<Rightarrow>
     (case checkedInt (ceilTimes_1_2 needed) of
        None \<Rightarrow> None
      | Some needed \<Rightarrow>
     (case checkedInt
             (fold (\<lambda>unit n. if staticGroundDefense g myRegion orderPos unit then n - 6 else n)
                   (selfUnits g) needed) of
        None \<Rightarrow> None
      | Some needed \<Rightarrow> Some (max needed 0))))"

definition sunkenDefender :: "Game \<Rightarrow> Region \<Rightarrow> Position \<Rightarrow> bool" where
  "sunkenDefender g myRegion orderPos =
     list_ex (staticGroundDefense g myRegion orderPos) (selfUnits g)"

text \<open>numZerglingsInOurBase (lines 1476-1494) and buildingRush (lines 1497-1517).\<close>

definition numZerglingsInOurBase :: "Game \<Rightarrow> int" where
  "numZerglingsInOurBase g =
     (let concernRadius = 300;
          myBasePosition = basePosition g (getMyMainBaseLocation g)
      in fold (\<lambda>unit zerglings.
                 if getType g unit = Zerg_Zergling \<and> getDistance g unit myBasePosition < concernRadius
                 then zerglings + 1 else zerglings)
              (enemyUnits g) 0)"

definition buildingRush :: "Game \<Rightarrow> bool" where
  "buildingRush g =
     (if weHaveCombatUnits g then False
      else (let myBasePosition = basePosition g (getMyMainBaseLocation g)
            in list_ex (\<lambda>unit. isBuilding g (getType g unit)
                                \<and> getDistance g unit myBasePosition < 1200)
                       (enemyUnits g)))"

subsection \<open>findClosestDefender (lines 1000-1046)\<close>

definition closestDefenderScan ::
  "Game \<Rightarrow> SquadData \<Rightarrow> string \<Rightarrow> Position \<Rightarrow> bool \<Rightarrow> bool \<Rightarrow> Unit
     \<Rightarrow> Unit option \<times> int \<times> Unit option \<times> int \<Rightarrow> Unit option \<times> int \<times> Unit option \<times> int" where
  "closestDefenderScan g sd defenseSquad pos flyingDefender pullWorkers unit st =
     (case st of (closestDefender, minDistance, closestWorker, minWorkerDistance) \<Rightarrow>
        if (flyingDefender \<and> \<not> CanAttackAir g unit)
           \<or> (\<not> flyingDefender \<and> \<not> CanAttackGround g unit) then st
        else if \<not> canAssignUnitToSquad sd unit defenseSquad then st
        else (let dist = getDistance g unit pos
              in if isWorker g (getType g unit) then
                   (if \<not> pullWorkers \<or> dist > 1000 then st
                    else if dist < minWorkerDistance
                    then (closestDefender, minDistance, Some unit, dist)
                    else st)
                 else if dist < minDistance
                 then (Some unit, dist, closestWorker, minWorkerDistance)
                 else st))"

definition findClosestDefender ::
  "Game \<Rightarrow> Unit list \<Rightarrow> SquadData \<Rightarrow> string \<Rightarrow> Position \<Rightarrow> bool \<Rightarrow> bool \<Rightarrow> Unit option" where
  "findClosestDefender g units sd defenseSquad pos flyingDefender pullWorkers =
     (case fold (closestDefenderScan g sd defenseSquad pos flyingDefender pullWorkers) units
             (None, 99999, None, 99999) of
        (closestDefender, minDistance, closestWorker, minWorkerDistance) \<Rightarrow>
          (case closestWorker of
             None \<Rightarrow> closestDefender
           | Some worker \<Rightarrow>
               if closestDefender = None \<or> (minWorkerDistance < minDistance \<and> minDistance > 200)
               then Some worker else closestDefender))"

subsection \<open>updateDefenseSquadUnits (lines 926-997)\<close>

text \<open>
  The defenders already in the squad (lines 936-951): \<open>flyingDefendersAdded\<close>,
  \<open>groundDefendersAdded\<close> and \<open>workersInGroup\<close>. The three counters are \<open>size_t\<close>; they only
  grow here and in the loops below, except for the decrement of line 993, which is taken
  when \<open>groundDefendersAdded\<close> is above zero, and the difference of line 965 has
  \<open>workersInGroup\<close> at most \<open>groundDefendersAdded\<close>, so that no operation wraps around.
\<close>

definition countDefenders :: "Game \<Rightarrow> Unit list \<Rightarrow> nat \<times> nat \<times> nat" where
  "countDefenders g units =
     fold (\<lambda>unit (flyingAdded, groundAdded, workers).
             (let flyingAdded = (if CanAttackAir g unit then flyingAdded + 1 else flyingAdded)
              in if isWorker g (getType g unit) then (flyingAdded, groundAdded + 1, workers + 1)
                 else if getType g unit = Protoss_Zealot then (flyingAdded, groundAdded + 4, workers)
                 else (flyingAdded, groundAdded + 5, workers)))
          units (0, 0, 0)"

text \<open>
  The two loops that add defenders (lines 954-983) call findClosestDefender until it finds
  nobody. They end because a unit that has been assigned to the defense squad can no longer
  be assigned to it, while no other unit becomes assignable. The facts about the registry
  that show this come first.
\<close>

lemma set_Unitset_insert: "set (Unitset_insert u us) = insert u (set us)"
  by (auto simp: Unitset_insert_def set_insort_key)

lemma set_Unitset_erase: "set (Unitset_erase u us) = set us - {u}"
  by (auto simp: Unitset_erase_def)

definition sameSquads :: "Unit \<Rightarrow> SquadData \<Rightarrow> SquadData \<Rightarrow> bool" where
  "sameSquads d sd' sd =
     list_all2 (\<lambda>s' s. squadName s' = squadName s \<and> squadPriority s' = squadPriority s
                        \<and> (\<forall>u. u \<noteq> d \<longrightarrow> containsUnit s' u = containsUnit s u)) sd' sd"

lemma sameSquads_refl: "sameSquads d sd sd"
  by (simp add: sameSquads_def list_all2_refl)

lemma sameSquads_trans: "sameSquads d a b \<Longrightarrow> sameSquads d b c \<Longrightarrow> sameSquads d a c"
  unfolding sameSquads_def
  by (erule list_all2_trans[rotated]) auto

lemma sameSquads_onSquad:
  assumes "\<And>s. squadName (f s) = squadName s \<and> squadPriority (f s) = squadPriority s
              \<and> (\<forall>u. u \<noteq> d \<longrightarrow> containsUnit (f s) u = containsUnit s u)"
  shows "sameSquads d (onSquad n f sd) sd"
  using assms by (induction sd) (auto simp: sameSquads_def list_all2_refl)

lemma sameSquads_removeFromCurrent: "sameSquads d (removeFromCurrent d sd) sd"
  by (induction sd)
    (auto simp: sameSquads_def list_all2_refl removeUnit_def containsUnit_def set_Unitset_erase)

lemma sameSquads_assign: "sameSquads d (assignUnitToSquad sd d n) sd"
  unfolding assignUnitToSquad_def
  by (rule sameSquads_trans[OF sameSquads_onSquad sameSquads_removeFromCurrent])
    (auto simp: addUnit_def containsUnit_def set_Unitset_insert)

lemma sameSquads_getSquad:
  "sameSquads d sd' sd \<Longrightarrow>
     rel_option (\<lambda>s' s. squadName s' = squadName s \<and> squadPriority s' = squadPriority s
                        \<and> (\<forall>u. u \<noteq> d \<longrightarrow> containsUnit s' u = containsUnit s u))
       (getSquad sd' n) (getSquad sd n)"
  unfolding sameSquads_def getSquad_def
  by (induction sd' sd rule: list_all2_induct) auto

lemma sameSquads_canAssign:
  assumes "sameSquads d sd' sd" and "u \<noteq> d"
  shows "canAssignUnitToSquad sd' u n = canAssignUnitToSquad sd u n"
proof -
  from sameSquads_getSquad[OF assms(1), of n]
  show ?thesis
  proof (cases rule: option.rel_cases)
    case None
    then show ?thesis by (simp add: canAssignUnitToSquad_def)
  next
    case (Some t' t)
    have "list_all (\<lambda>s. \<not> (containsUnit s u \<and> squadPriority t' \<le> squadPriority s)) sd'
          = list_all (\<lambda>s. \<not> (containsUnit s u \<and> squadPriority t \<le> squadPriority s)) sd"
      using assms(1) Some(3) assms(2) unfolding sameSquads_def
      by (induction sd' sd rule: list_all2_induct) auto
    with Some show ?thesis by (simp add: canAssignUnitToSquad_def)
  qed
qed

lemma getSquad_mem: "getSquad sd n = Some t \<Longrightarrow> t \<in> set sd \<and> squadName t = n"
  unfolding getSquad_def by (induction sd) (auto split: if_splits)

lemma getSquad_onSquad:
  "getSquad sd n = Some t \<Longrightarrow> squadName (f t) = n \<Longrightarrow> getSquad (onSquad n f sd) n = Some (f t)"
  unfolding getSquad_def by (induction sd) (auto split: if_splits)

lemma assign_not_canAssign: "\<not> canAssignUnitToSquad (assignUnitToSquad sd d n) d n"
proof (cases "getSquad (removeFromCurrent d sd) n")
  case None
  have "rel_option (\<lambda>s' s. squadName s' = squadName s \<and> squadPriority s' = squadPriority s
                        \<and> (\<forall>u. u \<noteq> d \<longrightarrow> containsUnit s' u = containsUnit s u))
       (getSquad (assignUnitToSquad sd d n) n) (getSquad (removeFromCurrent d sd) n)"
    unfolding assignUnitToSquad_def
    by (rule sameSquads_getSquad[OF sameSquads_onSquad])
      (auto simp: addUnit_def containsUnit_def set_Unitset_insert)
  with None have "getSquad (assignUnitToSquad sd d n) n = None" by simp
  then show ?thesis by (simp add: canAssignUnitToSquad_def)
next
  case (Some t)
  then have "squadName t = n" by (simp add: getSquad_mem)
  then have g: "getSquad (assignUnitToSquad sd d n) n = Some (addUnit d t)"
    unfolding assignUnitToSquad_def using Some
    by (intro getSquad_onSquad) (auto simp: addUnit_def)
  then have "addUnit d t \<in> set (assignUnitToSquad sd d n)" by (simp add: getSquad_mem)
  moreover have "containsUnit (addUnit d t) d"
    by (simp add: addUnit_def containsUnit_def set_Unitset_insert)
  ultimately show ?thesis using g
    by (auto simp: canAssignUnitToSquad_def list_all_iff)
qed

lemma assign_fewer_candidates:
  assumes "d \<in> set units" and "canAssignUnitToSquad sd d n"
  shows "length (filter (\<lambda>u. canAssignUnitToSquad (assignUnitToSquad sd d n) u n) units)
         < length (filter (\<lambda>u. canAssignUnitToSquad sd u n) units)"
proof -
  let ?P = "\<lambda>u. canAssignUnitToSquad (assignUnitToSquad sd d n) u n"
  let ?Q = "\<lambda>u. canAssignUnitToSquad sd u n"
  have imp: "?P u \<Longrightarrow> ?Q u" for u
    using sameSquads_canAssign[OF sameSquads_assign, of u d sd n] assign_not_canAssign[of sd d n]
    by (cases "u = d") auto
  then have "filter ?P units = filter ?P (filter ?Q units)"
    by (auto intro: filter_cong)
  moreover have "d \<in> set (filter ?Q units)" using assms by simp
  moreover have "\<not> ?P d" by (rule assign_not_canAssign)
  ultimately show ?thesis
    by (metis length_filter_less)
qed

lemma closestDefenderScan_candidates:
  assumes "fold (closestDefenderScan g sd n pos fl pw) units st = (cd, md, cw, mwd)"
    and "\<forall>d. fst st = Some d \<or> fst (snd (snd st)) = Some d
             \<longrightarrow> d \<in> A \<and> canAssignUnitToSquad sd d n"
    and "set units \<subseteq> A"
  shows "\<forall>d. cd = Some d \<or> cw = Some d \<longrightarrow> d \<in> A \<and> canAssignUnitToSquad sd d n"
  using assms
proof (induction units arbitrary: st)
  case Nil
  then show ?case by auto
next
  case (Cons u us)
  show ?case
  proof (rule Cons.IH[of "closestDefenderScan g sd n pos fl pw u st"])
    show "fold (closestDefenderScan g sd n pos fl pw) us (closestDefenderScan g sd n pos fl pw u st)
          = (cd, md, cw, mwd)"
      using Cons.prems(1) by simp
    show "\<forall>d. fst (closestDefenderScan g sd n pos fl pw u st) = Some d
             \<or> fst (snd (snd (closestDefenderScan g sd n pos fl pw u st))) = Some d
             \<longrightarrow> d \<in> A \<and> canAssignUnitToSquad sd d n"
      using Cons.prems(2,3)
      by (auto simp: closestDefenderScan_def Let_def split: prod.splits if_splits)
    show "set us \<subseteq> A" using Cons.prems(3) by simp
  qed
qed

lemma findClosestDefender_candidate:
  assumes "findClosestDefender g units sd n pos fl pw = Some d"
  shows "d \<in> set units \<and> canAssignUnitToSquad sd d n"
proof -
  obtain cd md cw mwd where
    f: "fold (closestDefenderScan g sd n pos fl pw) units (None, 99999, None, 99999)
        = (cd, md, cw, mwd)"
    by (metis prod_cases4)
  have "\<forall>d. cd = Some d \<or> cw = Some d \<longrightarrow> d \<in> set units \<and> canAssignUnitToSquad sd d n"
    by (rule closestDefenderScan_candidates[OF f]) auto
  moreover have "cd = Some d \<or> cw = Some d"
    using assms f by (auto simp: findClosestDefender_def split: option.splits if_splits)
  ultimately show ?thesis by blast
qed

text \<open>
  Add flying defenders (lines 954-961). The assertion of line 958 is fatal when it fails.
\<close>

function addFlyingDefenders ::
  "Game \<Rightarrow> Unit list \<Rightarrow> string \<Rightarrow> nat \<Rightarrow> SquadData \<times> nat \<Rightarrow> (SquadData \<times> nat) option" where
  "addFlyingDefenders g units defenseSquad needed (sd, added) =
     (if needed > added then
        (case getSquad sd defenseSquad of
           None \<Rightarrow> None
         | Some squad \<Rightarrow>
             (case findClosestDefender g units sd defenseSquad
                     (orderPosition (squadOrder squad)) True False of
                None \<Rightarrow> Some (sd, added)
              | Some defenderToAdd \<Rightarrow>
                  if isWorker g (getType g defenderToAdd) then None
                  else addFlyingDefenders g units defenseSquad needed
                         (assignUnitToSquad sd defenderToAdd defenseSquad,
                          added + 1)))
      else Some (sd, added))"
  by pat_completeness auto

termination
  by (relation "measure (\<lambda>(g, units, n, needed, sd, added).
                  length (filter (\<lambda>u. canAssignUnitToSquad sd u n) units))")
    (auto dest!: findClosestDefender_candidate intro: assign_fewer_candidates)

declare addFlyingDefenders.simps [simp del]

text \<open>
  Add ground defenders (lines 963-983). The assertion of line 970 is fatal when it fails.
\<close>

function addGroundDefenders ::
  "Game \<Rightarrow> Unit list \<Rightarrow> string \<Rightarrow> nat \<Rightarrow> bool \<Rightarrow> nat \<Rightarrow> SquadData \<times> nat
     \<Rightarrow> (SquadData \<times> nat) option" where
  "addGroundDefenders g units defenseSquad needed pullWorkers workersInGroup (sd, added) =
     (if needed > added - workersInGroup then
        (case getSquad sd defenseSquad of
           None \<Rightarrow> None
         | Some squad \<Rightarrow>
             (case findClosestDefender g units sd defenseSquad
                     (orderPosition (squadOrder squad)) False pullWorkers of
                None \<Rightarrow> Some (sd, added)
              | Some defenderToAdd \<Rightarrow>
                  if isWorker g (getType g defenderToAdd) then
                    (if \<not> pullWorkers then None
                     else if needed \<le> added then Some (sd, added)
                     else addGroundDefenders g units defenseSquad needed pullWorkers workersInGroup
                            (assignUnitToSquad sd defenderToAdd defenseSquad, added + 1))
                  else if getType g defenderToAdd = Protoss_Zealot then
                    addGroundDefenders g units defenseSquad needed pullWorkers workersInGroup
                      (assignUnitToSquad sd defenderToAdd defenseSquad, added + 4)
                  else
                    addGroundDefenders g units defenseSquad needed pullWorkers workersInGroup
                      (assignUnitToSquad sd defenderToAdd defenseSquad, added + 5)))
      else Some (sd, added))"
  by pat_completeness auto

termination
  by (relation "measure (\<lambda>(g, units, n, needed, pw, w, sd, added).
                  length (filter (\<lambda>u. canAssignUnitToSquad sd u n) units))")
    (auto dest!: findClosestDefender_candidate intro: assign_fewer_candidates)

declare addGroundDefenders.simps [simp del]

text \<open>
  Remove excess workers (lines 985-996). \<open>containsUnitType(Protoss_Probe)\<close> holds exactly
  when the inner loop finds a probe, which is then removed.
\<close>

lemma find_Some_mem: "find P xs = Some x \<Longrightarrow> x \<in> set xs"
  by (induction xs) (auto split: if_splits)

lemma removeUnit_shorter:
  assumes "getSquad sd n = Some squad" and "unit \<in> set (squadUnits squad)"
  shows "(case getSquad (onSquad n (removeUnit unit) sd) n of
            None \<Rightarrow> 0 | Some s \<Rightarrow> length (squadUnits s))
         < length (squadUnits squad)"
proof -
  have "squadName (removeUnit unit squad) = n"
    using assms(1) by (simp add: getSquad_mem removeUnit_def)
  with assms(1) have "getSquad (onSquad n (removeUnit unit) sd) n = Some (removeUnit unit squad)"
    by (rule getSquad_onSquad)
  moreover have "length (removeAll unit (squadUnits squad)) < length (squadUnits squad)"
    using assms(2) by (simp add: length_removeAll_less)
  ultimately show ?thesis by (simp add: removeUnit_def Unitset_erase_def)
qed

function removeExcessWorkers ::
  "Game \<Rightarrow> string \<Rightarrow> nat \<Rightarrow> SquadData \<times> nat \<Rightarrow> SquadData \<times> nat" where
  "removeExcessWorkers g defenseSquad needed (sd, added) =
     (if added > needed then
        (case getSquad sd defenseSquad of
           None \<Rightarrow> (sd, added)
         | Some squad \<Rightarrow>
             (case find (\<lambda>unit. getType g unit = Protoss_Probe) (squadUnits squad) of
                None \<Rightarrow> (sd, added)
              | Some unit \<Rightarrow>
                  removeExcessWorkers g defenseSquad needed
                    (onSquad defenseSquad (removeUnit unit) sd, added - 1)))
      else (sd, added))"
  by pat_completeness auto

termination
  by (relation "measure (\<lambda>(g, n, needed, sd, added).
                  case getSquad sd n of None \<Rightarrow> 0 | Some s \<Rightarrow> length (squadUnits s))")
    (auto dest!: find_Some_mem intro: removeUnit_shorter)

declare removeExcessWorkers.simps [simp del]

definition updateDefenseSquadUnits ::
  "Game \<Rightarrow> Unit list \<Rightarrow> string \<Rightarrow> nat \<Rightarrow> nat \<Rightarrow> bool \<Rightarrow> SquadData \<Rightarrow> SquadData option" where
  "updateDefenseSquadUnits g units defenseSquad flyingNeeded groundNeeded pullWorkers sd =
     (if flyingNeeded = 0 \<and> groundNeeded = 0 then Some (onSquad defenseSquad clear sd)
      else case getSquad sd defenseSquad of
        None \<Rightarrow> None
      | Some squad \<Rightarrow>
          (case countDefenders g (squadUnits squad) of
             (flyingAdded, groundAdded, workersInGroup) \<Rightarrow>
               (case addFlyingDefenders g units defenseSquad flyingNeeded (sd, flyingAdded) of
                  None \<Rightarrow> None
                | Some (sd1, _) \<Rightarrow>
                    (case addGroundDefenders g units defenseSquad groundNeeded pullWorkers
                            workersInGroup (sd1, groundAdded) of
                       None \<Rightarrow> None
                     | Some (sd2, groundAdded2) \<Rightarrow>
                         Some (fst (removeExcessWorkers g defenseSquad groundNeeded
                                      (sd2, groundAdded2)))))))"

text \<open>The body of the loop over the regions (lines 713-895), for one region.\<close>

definition clearIfExists :: "string \<Rightarrow> SquadData \<Rightarrow> SquadData" where
  "clearIfExists n sd = (if squadExists sd n then onSquad n clear sd else sd)"

text \<open>The order of the defense squad of the region (lines 788-807).\<close>

definition regionOrder ::
  "Game \<Rightarrow> CombatCommander \<Rightarrow> Region option \<Rightarrow> Region \<Rightarrow> SquadOrder option" where
  "regionOrder g cc mainRegion myRegion =
     (if goAggressive cc \<or> Some myRegion = mainRegion
      then Some \<lparr>orderType = Defend, orderPosition = getCenter g myRegion,
                 orderRadius = 32 * 25, orderStatus = ''Defend region''\<rparr>
      else map_option squadOrder (getSquad (squadData cc) ''Ground''))"

definition orderDefenseSquad :: "string \<Rightarrow> SquadOrder \<Rightarrow> SquadData \<Rightarrow> SquadData option" where
  "orderDefenseSquad defenseName ord sd =
     (if \<not> squadExists sd defenseName
      then addSquad sd (newSquad defenseName ord BaseDefensePriority)
      else Some (onSquad defenseName (setSquadOrder ord) sd))"

text \<open>
  The needs and the recruiting (lines 810-894). The assertion of line 814 and getSquad are
  fatal when the squad does not exist.
\<close>

definition pullWorkersFor :: "Game \<Rightarrow> CombatCommander \<Rightarrow> Region \<Rightarrow> Position \<Rightarrow> bool" where
  "pullWorkersFor g cc myRegion orderPos =
     (\<not> goAggressive cc
      \<or> (WorkersDefendRush g
         \<and> (\<not> sunkenDefender g myRegion orderPos \<and> numZerglingsInOurBase g > 0
            \<or> buildingRush g)))"

definition recruitForRegion ::
  "Game \<Rightarrow> CombatCommander \<Rightarrow> Region \<Rightarrow> Unit list \<Rightarrow> string \<Rightarrow> CombatCommander option" where
  "recruitForRegion g cc myRegion enemies defenseName =
     (case getSquad (squadData cc) defenseName of
        None \<Rightarrow> None
      | Some defenseSquad \<Rightarrow>
          (let orderPos = orderPosition (squadOrder defenseSquad);
               flyingNeeded = nat (flyingDefendersNeeded g myRegion orderPos enemies)
           in case groundDefendersNeeded g myRegion orderPos enemies of
                None \<Rightarrow> None
              | Some needed \<Rightarrow>
                  (let groundNeeded = nat needed;
                       pullWorkers = pullWorkersFor g cc myRegion orderPos
                   in case updateDefenseSquadUnits g (combatUnits cc) defenseName
                             flyingNeeded groundNeeded pullWorkers (squadData cc) of
                        None \<Rightarrow> None
                      | Some sd \<Rightarrow> Some (cc\<lparr>squadData := sd\<rparr>))))"

definition defendRegion ::
  "Game \<Rightarrow> Region option \<Rightarrow> Region option \<Rightarrow> Region \<Rightarrow> CombatCommander
     \<Rightarrow> CombatCommander option" where
  "defendRegion g enemyRegion mainRegion myRegion cc =
     (if Some myRegion = enemyRegion then Some cc
      else if \<not> isValid g (getCenter g myRegion) then Some cc
      else
        (let defenseName = baseDefenseName (getCenter g myRegion)
         in if myRegion \<notin> set (getOccupiedRegions g)
            then Some (cc\<lparr>squadData := clearIfExists defenseName (squadData cc)\<rparr>)
            else
              (case discountScout g (enemyWorkerAttackedAt cc) (enemyUnitsInRegion g myRegion) of
                 (enemies, workerAttackedAt) \<Rightarrow>
                   (let cc1 = cc\<lparr>enemyWorkerAttackedAt := workerAttackedAt\<rparr>
                    in if enemies = []
                       then Some (cc1\<lparr>squadData := clearIfExists defenseName (squadData cc1)\<rparr>)
                       else
                         (case regionOrder g cc1 mainRegion myRegion of
                            None \<Rightarrow> None
                          | Some ord \<Rightarrow>
                              (case orderDefenseSquad defenseName ord (squadData cc1) of
                                 None \<Rightarrow> None
                               | Some sd1 \<Rightarrow>
                                   recruitForRegion g (cc1\<lparr>squadData := sd1\<rparr>) myRegion enemies
                                     defenseName))))))"

text \<open>
  The sweep over all squads (lines 897-923): a squad with a Defend order and members, and no
  enemy unit within the radius of the order, is cleared.
\<close>

definition enemyUnitInRange :: "Game \<Rightarrow> SquadOrder \<Rightarrow> bool" where
  "enemyUnitInRange g ord =
     list_ex (\<lambda>unit. getDistance g unit (orderPosition ord) < orderRadius ord) (enemyUnits g)"

definition sweepDefenseSquads :: "Game \<Rightarrow> SquadData \<Rightarrow> SquadData" where
  "sweepDefenseSquads g sd =
     fold (\<lambda>squad sd'.
             if orderType (squadOrder squad) \<noteq> Defend \<or> isEmpty squad then sd'
             else if \<not> enemyUnitInRange g (squadOrder squad)
             then onSquad (squadName squad) clear sd'
             else sd')
          sd sd"

definition updateBaseDefenseSquads :: "Game \<Rightarrow> CombatCommander \<Rightarrow> CombatCommander option" where
  "updateBaseDefenseSquads g cc =
     (if combatUnits cc = [] then Some cc
      else
        (let enemyRegion = (case getEnemyMainBaseLocation g of
                              None \<Rightarrow> None
                            | Some enemyBaseLocation \<Rightarrow> getRegion g (basePosition g enemyBaseLocation));
             mainRegion = getRegion g (basePosition g (getMyMainBaseLocation g))
         in case foldOpt (defendRegion g enemyRegion mainRegion) (getRegions g) cc of
              None \<Rightarrow> None
            | Some cc1 \<Rightarrow> Some (cc1\<lparr>squadData := sweepDefenseSquads g (squadData cc1)\<rparr>)))"

subsection \<open>update (lines 78-108)\<close>

text \<open>
  The policies of a full allocation tick, in the order of lines 91-96.
\<close>

definition allocate :: "Game \<Rightarrow> CombatCommander \<Rightarrow> CombatCommander option" where
  "allocate g cc =
     (case updateIdleSquad cc of None \<Rightarrow> None | Some cc1 \<Rightarrow>
     (case updateDropSquads g cc1 of None \<Rightarrow> None | Some cc2 \<Rightarrow>
     (case updateScoutDefenseSquad g cc2 of None \<Rightarrow> None | Some cc3 \<Rightarrow>
     (case updateBaseDefenseSquads g cc3 of None \<Rightarrow> None | Some cc4 \<Rightarrow>
     (case updateReconSquad g cc4 of None \<Rightarrow> None | Some cc5 \<Rightarrow>
      updateAttackSquads g cc5)))))"

text \<open>
  What \<open>update\<close> does to the commander. The calls that follow the allocation
  (doComsatScan, loadOrUnloadBunkers, cancelDyingItems) give orders to units and do not touch
  the commander; the squads' own \<open>update\<close> belongs to Squad.cpp, which is not among the
  sources, and is left out.
\<close>

definition update :: "Game \<Rightarrow> Unit list \<Rightarrow> CombatCommander \<Rightarrow> CombatCommander option" where
  "update g units cc =
     (case (if \<not> initialized cc then initializeSquads g cc else Some cc) of
        None \<Rightarrow> None
      | Some cc0 \<Rightarrow>
          (let cc1 = cc0\<lparr>combatUnits := units\<rparr>;
               frame8 = cmod (frameCount g) 8
           in if frame8 = 1 then allocate g cc1 else Some cc1))"

section \<open>Runs of the commander, and the properties of the registry\<close>

text \<open>A run of the commander: one call of \<open>update\<close> for each tick, with its game and roster.\<close>

fun run :: "(Game \<times> Unit list) list \<Rightarrow> CombatCommander \<Rightarrow> CombatCommander option" where
  "run [] cc = Some cc"
| "run ((g, units) # ticks) cc =
     (case update g units cc of None \<Rightarrow> None | Some cc' \<Rightarrow> run ticks cc')"

text \<open>
  No unit is a member of two squads: the member lists of the registry, one after the other,
  repeat no unit. \<open>allUnits\<close> is the set of the units that are in some squad.
\<close>

definition exclusive :: "SquadData \<Rightarrow> bool" where
  "exclusive sd = distinct (concat (map squadUnits sd))"

definition allUnits :: "SquadData \<Rightarrow> Unit set" where
  "allUnits sd = set (concat (map squadUnits sd))"

text \<open>
  The operations that the policies apply to the registry. \<open>regSteps N sd sd'\<close> says that
  \<open>sd'\<close> comes from \<open>sd\<close> by a sequence of them: assigning a unit, removing a unit,
  clearing a squad, adding to the Idle squad a unit that the admission check lets in, and
  setting the order of, or creating, a squad whose name is in \<open>N\<close>.
\<close>

inductive regSteps :: "string set \<Rightarrow> SquadData \<Rightarrow> SquadData \<Rightarrow> bool" for N :: "string set" where
  same: "regSteps N sd sd"
| assign: "regSteps N sd sd1 \<Longrightarrow> regSteps N sd (assignUnitToSquad sd1 u n)"
| remove: "regSteps N sd sd1 \<Longrightarrow> regSteps N sd (onSquad n (removeUnit u) sd1)"
| clear: "regSteps N sd sd1 \<Longrightarrow> regSteps N sd (onSquad n clear sd1)"
| idle: "regSteps N sd sd1 \<Longrightarrow> canAssignUnitToSquad sd1 u ''Idle''
          \<Longrightarrow> regSteps N sd (onSquad ''Idle'' (addUnit u) sd1)"
| order: "regSteps N sd sd1 \<Longrightarrow> n \<in> N \<Longrightarrow> regSteps N sd (onSquad n (setSquadOrder ord) sd1)"
| add: "regSteps N sd sd1 \<Longrightarrow> n \<in> N \<Longrightarrow> addSquad sd1 (newSquad n ord p) = Some sd2
          \<Longrightarrow> regSteps N sd sd2"

text \<open>
  The Idle squad has the lowest priority; with it, the admission check of updateIdleSquad
  lets in only units that are in no squad.
\<close>

definition idleLowest :: "SquadData \<Rightarrow> bool" where
  "idleLowest sd = (case getSquad sd ''Idle'' of None \<Rightarrow> True | Some t \<Rightarrow> squadPriority t = IdlePriority)"

definition wellFormed :: "SquadData \<Rightarrow> bool" where
  "wellFormed sd = (exclusive sd \<and> idleLowest sd)"

definition commanderOk :: "CombatCommander \<Rightarrow> bool" where
  "commanderOk cc = (wellFormed (squadData cc) \<and> (\<not> initialized cc \<longrightarrow> squadData cc = []))"

text \<open>The squads whose order a policy of the allocation sets, and the squads it creates.\<close>

definition policyNames :: "string set" where
  "policyNames = {''Drop'', ''Recon'', ''Ground'', ''Flying''} \<union> range baseDefenseName"

text \<open>
  Two registries with the same squads, names, priorities and orders: only the members may
  differ.
\<close>

definition unitsChanged :: "SquadData \<Rightarrow> SquadData \<Rightarrow> bool" where
  "unitsChanged sd' sd =
     list_all2 (\<lambda>s' s. squadName s' = squadName s \<and> squadPriority s' = squadPriority s
                        \<and> squadOrder s' = squadOrder s) sd' sd"

text \<open>
  The three phases of the drop protocol in their order, and what it means for the order of
  the Drop squad to have moved forward only: the phase has not gone down, and an order that
  was Drop is still the same order.
\<close>

fun dropPhase :: "SquadOrderType \<Rightarrow> nat" where
  "dropPhase Hold = 0"
| "dropPhase Load = 1"
| "dropPhase Drop = 2"
| "dropPhase _ = 0"

definition dropProtocolKind :: "SquadOrderType \<Rightarrow> bool" where
  "dropProtocolKind k = (k = Hold \<or> k = Load \<or> k = Drop)"

definition forwardOnly :: "SquadOrder \<Rightarrow> SquadOrder \<Rightarrow> bool" where
  "forwardOnly before after =
     (dropProtocolKind (orderType after)
      \<and> dropPhase (orderType before) \<le> dropPhase (orderType after)
      \<and> (orderType before = Drop \<longrightarrow> after = before))"

text \<open>
  The words of the claims about the drop squad: a transport is a flying unit that provides
  cargo space (line 570), and the cargo of the squad is its other units. Units that no longer
  exist are passed over by the loop of lines 566-583 and count as neither.
\<close>

definition isTransport :: "Game \<Rightarrow> Unit \<Rightarrow> bool" where
  "isTransport g unit = (isFlying g unit \<and> spaceProvided g (getType g unit) > 0)"

definition cargo :: "Game \<Rightarrow> Unit list \<Rightarrow> Unit list" where
  "cargo g units = filter (\<lambda>unit. unitExists g unit \<and> \<not> isTransport g unit) units"

text \<open>The units of a region, and the members of a squad after a policy has run.\<close>

definition unitsInRegion :: "Game \<Rightarrow> Region \<Rightarrow> Unit list \<Rightarrow> Unit list" where
  "unitsInRegion g r units =
     filter (\<lambda>unit. getRegionTile g (TilePosition (getPosition g unit)) = Some r) units"

definition membersAfter :: "string \<Rightarrow> CombatCommander option \<Rightarrow> Unit list option" where
  "membersAfter n r =
     (case r of None \<Rightarrow> None | Some cc \<Rightarrow> map_option squadUnits (getSquad (squadData cc) n))"

text \<open>The order of a squad after a policy has run; None when the run was fatal.\<close>

definition squadOrderAfter :: "string \<Rightarrow> CombatCommander option \<Rightarrow> SquadOrder option" where
  "squadOrderAfter n r =
     (case r of None \<Rightarrow> None | Some cc \<Rightarrow> map_option squadOrder (getSquad (squadData cc) n))"

text \<open>The names of the squads that have a unit, after a policy or a run.\<close>

definition squadsOf :: "Unit \<Rightarrow> CombatCommander option \<Rightarrow> string list option" where
  "squadsOf u r =
     (case r of None \<Rightarrow> None
      | Some cc \<Rightarrow> Some (map squadName (filter (\<lambda>s. containsUnit s u) (squadData cc))))"

text \<open>One pass of the loop of updateIdleSquad (lines 113-120).\<close>

definition idleStep :: "Unit \<Rightarrow> SquadData \<Rightarrow> SquadData" where
  "idleStep unit sd = (if canAssignUnitToSquad sd unit ''Idle''
                        then onSquad ''Idle'' (addUnit unit) sd else sd)"

section \<open>Concrete games and commanders\<close>

text \<open>
  A game in which nothing is on the map; the concrete games below change the fields that
  matter to them.
\<close>

definition quietGame :: Game where
  "quietGame =
     \<lparr>frameCount = 1, getType = (\<lambda>_. Other_UnitType 0), unitExists = (\<lambda>_. True),
      isFlying = (\<lambda>_. False), isLoaded = (\<lambda>_. False), isLifted = (\<lambda>_. False),
      isAttacking = (\<lambda>_. False), isCompleted = (\<lambda>_. True), isPowered = (\<lambda>_. True),
      isDetected = (\<lambda>_. True), getPosition = (\<lambda>_. (0, 0)), getDistance = (\<lambda>_ _. 0),
      isWorker = (\<lambda>_. False), isDetector = (\<lambda>_. False), isBuilding = (\<lambda>_. False),
      spaceRequired = (\<lambda>_. 255), spaceProvided = (\<lambda>_. 0),
      isValid = (\<lambda>p. 0 \<le> fst p \<and> fst p < 4096 \<and> 0 \<le> snd p \<and> snd p < 4096),
      positionDistance = (\<lambda>_ _. 0), startLocation = (0, 0),
      selfUnits = [], enemyUnits = [], enemyRace = Race_Unknown, isVisible = (\<lambda>_ _. False),
      CanAttackAir = (\<lambda>_. False), CanAttackGround = (\<lambda>_. False),
      TypeCanAttackAir = (\<lambda>_. False), TypeCanAttackGround = (\<lambda>_. False),
      getRegions = [], getCenter = (\<lambda>_. (0, 0)), getRegion = (\<lambda>_. None),
      getRegionTile = (\<lambda>_. None), getBaseLocations = [], basePosition = (\<lambda>_. (0, 0)),
      baseTilePosition = (\<lambda>_. (0, 0)), getMyMainBaseLocation = 0,
      getMyNaturalLocation = None, getEnemyMainBaseLocation = None,
      getBaseOwner = (\<lambda>_. Neutral), getOccupiedRegions = [], getUnitInfo = [],
      getNearbyForce = (\<lambda>_. []), weHaveCombatUnits = False,
      getGroundTileDistance = (\<lambda>_ _. - 1), getLeastExplored = (\<lambda>_. (0, 0)),
      gridEnemyUnits = (\<lambda>_ _. []), randomIndex = (\<lambda>_. 0), dropIsPlanned = False,
      ScoutDefenseRadius = 0, WorkersDefendRush = False, wallExists = False,
      wallGapCenter = (0, 0), hasDetector = (\<lambda>_. False), hasCombatUnits = (\<lambda>_. False),
      hasGround = (\<lambda>_. False), hasAir = (\<lambda>_. False), canAttackAir = (\<lambda>_. False),
      canAttackGround = (\<lambda>_. False)\<rparr>"

definition terranGame :: Game where
  "terranGame = quietGame\<lparr>enemyRace := Terran, isBuilding := (\<lambda>t. t = Terran_Bunker),
       getUnitInfo := [\<lparr>uiType = Terran_Marine, lastPosition = (5, 5), goneFromLastPosition = False\<rparr>,
                       \<lparr>uiType = Terran_Bunker, lastPosition = (320, 640), goneFromLastPosition = False\<rparr>]\<rparr>"

text \<open>
  The same table of remembered units with a Zerg enemy, and an unexplored point at (7, 7);
  in \<open>groundGame\<close> every squad can also attack ground. No base belongs to the enemy.
\<close>

definition zergGame :: Game where
  "zergGame = terranGame\<lparr>enemyRace := Zerg, getLeastExplored := (\<lambda>_. (7, 7))\<rparr>"

definition groundGame :: Game where
  "groundGame = zergGame\<lparr>canAttackGround := (\<lambda>_. True)\<rparr>"

definition flyingSquad :: Squad where
  "flyingSquad = newSquad ''Flying'' \<lparr>orderType = Attack, orderPosition = (0, 0),
       orderRadius = 800, orderStatus = ''Attack enemy base''\<rparr> AttackPriority"

text \<open>
  A commander in defensive posture with its four permanent squads; units 1 (a zealot) and 2
  (a probe) are in the Idle squad. In \<open>wallGame\<close> the natural is ours and the wall exists.
\<close>

definition holdOrder :: SquadOrder where
  "holdOrder = \<lparr>orderType = Hold, orderPosition = (64, 64), orderRadius = 400,
                  orderStatus = ''Hold the wall''\<rparr>"

definition idleOrder0 :: SquadOrder where
  "idleOrder0 = \<lparr>orderType = Idle, orderPosition = (64, 64), orderRadius = 100,
                  orderStatus = ''Chill out''\<rparr>"

definition wallGame :: Game where
  "wallGame = quietGame\<lparr>getType := (\<lambda>u. if u = 1 then Protoss_Zealot else Protoss_Probe),
       isWorker := (\<lambda>t. t = Protoss_Probe),
       basePosition := (\<lambda>b. if b = 0 then (64, 64) else (900, 900)),
       getMyNaturalLocation := Some 1, getBaseOwner := (\<lambda>b. if b \<le> 1 then Self else Neutral),
       wallExists := True, wallGapCenter := (1000, 2000)\<rparr>"

definition defensiveCommander :: CombatCommander where
  "defensiveCommander =
     \<lparr>initialized = True, goAggressive = False, reconTarget = Positions_Invalid,
      lastReconTargetChange = 0, enemyWorkerAttackedAt = 0,
      squadData = [(newSquad ''Idle'' idleOrder0 IdlePriority)\<lparr>squadUnits := [1, 2]\<rparr>,
                   newSquad ''Ground'' holdOrder AttackPriority,
                   newSquad ''Flying'' holdOrder AttackPriority,
                   newSquad ''Recon'' idleOrder0 ReconPriority],
      combatUnits = [1, 2]\<rparr>"

text \<open>Two units on an empty map: unit 1 is a zealot, unit 2 a probe.\<close>

definition twoUnitsGame :: Game where
  "twoUnitsGame = quietGame\<lparr>getType := (\<lambda>u. if u = 1 then Protoss_Zealot else Protoss_Probe),
       isWorker := (\<lambda>t. t = Protoss_Probe)\<rparr>"

text \<open>
  A drop squad of a transport (unit 10, which provides 8 spaces) and four dark templar
  (units 11 to 14, 2 spaces each), at a given frame, with the dark templar loaded or not.
\<close>

definition dropGame :: "int \<Rightarrow> bool \<Rightarrow> Game" where
  "dropGame frame loaded =
     quietGame\<lparr>frameCount := frame,
       getType := (\<lambda>u. if u = 10 then Other_UnitType 1 else Protoss_Dark_Templar),
       isFlying := (\<lambda>u. u = 10),
       spaceProvided := (\<lambda>t. if t = Other_UnitType 1 then 8 else 0),
       spaceRequired := (\<lambda>t. if t = Protoss_Dark_Templar then 2 else 255),
       isLoaded := (\<lambda>u. loaded \<and> u \<noteq> 10),
       getPosition := (\<lambda>_. (64, 64)),
       getEnemyMainBaseLocation := Some 3,
       basePosition := (\<lambda>b. if b = 3 then (3000, 3000) else (64, 64)),
       dropIsPlanned := True\<rparr>"

definition dropCommander :: CombatCommander where
  "dropCommander =
     \<lparr>initialized = True, goAggressive = True, reconTarget = Positions_Invalid,
      lastReconTargetChange = 0, enemyWorkerAttackedAt = 0,
      squadData = [newSquad ''Idle'' idleOrder0 IdlePriority,
                   newSquad ''Ground'' holdOrder AttackPriority,
                   newSquad ''Flying'' holdOrder AttackPriority,
                   newSquad ''Recon'' idleOrder0 ReconPriority,
                   (newSquad ''Drop'' \<lparr>orderType = Hold, orderPosition = (64, 64),
                        orderRadius = 800, orderStatus = ''Wait for transport''\<rparr> DropPriority)
                     \<lparr>squadUnits := [10, 11, 12, 13, 14]\<rparr>],
      combatUnits = [10, 11, 12, 13, 14]\<rparr>"

text \<open>
  The home region is region 0. The enemy unit 90 is a worker in the home region; of our units,
  2 is a probe, 3 and 5 are dragoons at home and 4 is a dragoon elsewhere. The commander has
  recorded no attack of an enemy worker: the record has the value that the constructor gives.
\<close>

definition scoutGame :: Game where
  "scoutGame =
     quietGame\<lparr>frameCount := 2001, ScoutDefenseRadius := 600,
       getType := (\<lambda>u. if u = 90 \<or> u = 91 then Other_UnitType 7
                        else if u = 2 then Protoss_Probe else Protoss_Dragoon),
       isWorker := (\<lambda>t. t = Other_UnitType 7 \<or> t = Protoss_Probe),
       getPosition := (\<lambda>u. if u = 4 then (3000, 3000) else (100, 100)),
       getRegionTile := (\<lambda>tile. if tile = (3, 3) \<or> tile = (2, 2) then Some 0 else Some 1),
       baseTilePosition := (\<lambda>_. (2, 2)), getCenter := (\<lambda>_. (128, 128)),
       enemyUnits := [90]\<rparr>"

definition scoutCommander :: CombatCommander where
  "scoutCommander =
     \<lparr>initialized = True, goAggressive = True, reconTarget = Positions_Invalid,
      lastReconTargetChange = 0, enemyWorkerAttackedAt = 0,
      squadData = [(newSquad ''Idle'' idleOrder0 IdlePriority)\<lparr>squadUnits := [2, 3, 4, 5]\<rparr>,
                   newSquad ''Ground'' holdOrder AttackPriority,
                   newSquad ''Flying'' holdOrder AttackPriority,
                   newSquad ''Recon'' idleOrder0 ReconPriority,
                   newSquad ''ScoutDefense'' \<lparr>orderType = Defend, orderPosition = (64, 64),
                        orderRadius = 600, orderStatus = ''Get the scout''\<rparr> ScoutDefensePriority],
      combatUnits = [2, 3, 4, 5]\<rparr>"

text \<open>
  \<open>earlyScoutGame\<close> is \<open>scoutGame\<close> at frame 113. In \<open>workerAttackGame\<close>, at frame
  1993, the only enemy unit in sight is another worker (unit 91), which is attacking in
  region 1, a region that we occupy.
\<close>

definition earlyScoutGame :: Game where
  "earlyScoutGame = scoutGame\<lparr>frameCount := 113\<rparr>"

definition workerAttackGame :: Game where
  "workerAttackGame =
     scoutGame\<lparr>frameCount := 1993, enemyUnits := [91], isAttacking := (\<lambda>u. u = 91),
       getPosition := (\<lambda>u. if u = 4 \<or> u = 91 then (3000, 3000) else (100, 100)),
       getRegions := [1], getOccupiedRegions := [1]\<rparr>"

text \<open>
  A Terran roster of available weight 30: unit 1 is a marine, units 2 and 3 are medics and
  units 4 to 7 are siege tanks, all in the Idle squad. One neutral base can be reached, so
  that the recon squad has a target.
\<close>

definition reconGame :: Game where
  "reconGame =
     quietGame\<lparr>getType := (\<lambda>u. if u = 1 then Terran_Marine
                              else if u = 2 \<or> u = 3 then Terran_Medic
                              else Terran_Siege_Tank_Tank_Mode),
       getBaseLocations := [5], getBaseOwner := (\<lambda>b. if b = 5 then Neutral else Self),
       basePosition := (\<lambda>b. if b = 5 then (2000, 2000) else (64, 64)),
       getGroundTileDistance := (\<lambda>_ _. 10)\<rparr>"

definition reconCommander :: CombatCommander where
  "reconCommander =
     \<lparr>initialized = True, goAggressive = True, reconTarget = Positions_Invalid,
      lastReconTargetChange = 0, enemyWorkerAttackedAt = 0,
      squadData = [(newSquad ''Idle'' idleOrder0 IdlePriority)
                      \<lparr>squadUnits := [1, 2, 3, 4, 5, 6, 7]\<rparr>,
                   newSquad ''Ground'' holdOrder AttackPriority,
                   newSquad ''Flying'' holdOrder AttackPriority,
                   (newSquad ''Recon'' idleOrder0 ReconPriority)
                      \<lparr>combatSimRadius := 200, fightVisible := True\<rparr>],
      combatUnits = [1, 2, 3, 4, 5, 6, 7]\<rparr>"

text \<open>
  In \<open>rushGame\<close> an enemy zergling (unit 50) is in our only region, near the base, and
  workers may defend against a rush; our only unit is a probe (unit 2). In \<open>calmGame\<close>,
  one allocation tick later, the zergling is gone.
\<close>

definition rushGame :: Game where
  "rushGame =
     quietGame\<lparr>frameCount := 1,
       getType := (\<lambda>u. if u = 50 then Zerg_Zergling else Protoss_Probe),
       isWorker := (\<lambda>t. t = Protoss_Probe), CanAttackGround := (\<lambda>u. u = 2),
       getPosition := (\<lambda>_. (100, 100)),
       getRegions := [0], getCenter := (\<lambda>_. (100, 100)), getRegionTile := (\<lambda>_. Some 0),
       getRegion := (\<lambda>_. Some 0), getOccupiedRegions := [0], enemyUnits := [50],
       WorkersDefendRush := True\<rparr>"

definition calmGame :: Game where
  "calmGame = rushGame\<lparr>frameCount := 9, enemyUnits := []\<rparr>"

text \<open>
  A commander whose Ground squad has unit 1; unit 2 of the roster is in no squad.
\<close>

definition freshCommander :: CombatCommander where
  "freshCommander =
     \<lparr>initialized = True, goAggressive = True, reconTarget = Positions_Invalid,
      lastReconTargetChange = 0, enemyWorkerAttackedAt = 0,
      squadData = [newSquad ''Idle'' idleOrder0 IdlePriority,
                   (newSquad ''Ground'' holdOrder AttackPriority)\<lparr>squadUnits := [1]\<rparr>,
                   newSquad ''Flying'' holdOrder AttackPriority,
                   newSquad ''Recon'' idleOrder0 ReconPriority],
      combatUnits = [1, 2]\<rparr>"


text \<open>Unfolding rules for evaluating the model on a concrete game.\<close>

lemmas registry_defs =
  getSquad_def squadExists_def addSquad_def newSquad_def containsUnit_def isEmpty_def
  addUnit_def removeUnit_def clear_def setSquadOrder_def inSquad_def
  canAssignUnitToSquad_def getUnitSquad_def assignUnitToSquad_def
  Unitset_insert_def Unitset_erase_def
  IdlePriority_def AttackPriority_def ReconPriority_def BaseDefensePriority_def
  ScoutDefensePriority_def DropPriority_def

lemmas targeting_defs =
  getAttackLocation_def attackLocationAfterBases_def weakestEnemyBase_def baseScore_def
  knownBuilding_def attackableUnit_def getDropLocation_def AttackRadius_def

lemmas attack_defs =
  updateAttackSquads_def attackSquadsUnit_def attackSquadsOrders_def getDefensePosition_def
  isFlyingSquadUnit_def isOptionalFlyingSquadUnit_def isGroundSquadUnit_def
  DefensivePositionRadius_def cdiv_def

lemmas recon_defs =
  updateReconSquad_def chooseReconTarget_def getReconLocation_def reconSquadReview_def
  reconSquadFill_def reconAddUnit_def reconWeightLimit_def squadReconWeight_def countType_def
  weighReconUnit_def maxWeight_def ReconRadius_def ReconTargetTimeout_def Positions_Invalid_def
  cdiv_def

lemmas tick_defs =
  update_def cmod_def cdiv_def allocate_def initializeSquads_def updateIdleSquad_def updateDropSquads_def
  updateScoutDefenseSquad_def updateBaseDefenseSquads_def sweepDefenseSquads_def
  enemyUnitInRange_def CombatCommander_init_def

lemmas drop_defs =
  dropGame_def dropCommander_def quietGame_def holdOrder_def idleOrder0_def dropSquadRecruit_def
  dropSquadSurvey_def unitIsGoodToDrop_def squadOrderAfter_def

lemmas defense_defs =
  defendRegion_def baseDefenseName_def show_int_def clearIfExists_def enemyUnitsInRegion_def
  discountScout_def regionOrder_def orderDefenseSquad_def recruitForRegion_def
  pullWorkersFor_def sunkenDefender_def numZerglingsInOurBase_def buildingRush_def
  flyingDefendersNeeded_def groundDefendersNeeded_def checkedInt_def groundThreatSum_def groundThreat_def
  staticGroundDefense_def staticAirDefense_def staticDefenseHere_def
  updateDefenseSquadUnits_def countDefenders_def findClosestDefender_def
  closestDefenderScan_def addFlyingDefenders.simps addGroundDefenders.simps
  removeExcessWorkers.simps TilePosition_def

section \<open>Changes of membership leave names, priorities and orders alone\<close>

lemma unitsChanged_refl: "unitsChanged sd sd"
  by (simp add: unitsChanged_def list_all2_refl)

lemma unitsChanged_trans: "unitsChanged a b \<Longrightarrow> unitsChanged b c \<Longrightarrow> unitsChanged a c"
  unfolding unitsChanged_def
  by (erule list_all2_trans[rotated]) auto

lemma unitsChanged_onSquad:
  assumes "\<And>s. squadName (f s) = squadName s \<and> squadPriority (f s) = squadPriority s
              \<and> squadOrder (f s) = squadOrder s"
  shows "unitsChanged (onSquad n f sd) sd"
  using assms by (induction sd) (auto simp: unitsChanged_def list_all2_refl)

lemma unitsChanged_addUnit: "unitsChanged (onSquad n (addUnit u) sd) sd"
  by (rule unitsChanged_onSquad) (simp add: addUnit_def)

lemma unitsChanged_removeUnit: "unitsChanged (onSquad n (removeUnit u) sd) sd"
  by (rule unitsChanged_onSquad) (simp add: removeUnit_def)

lemma unitsChanged_clear: "unitsChanged (onSquad n clear sd) sd"
  by (rule unitsChanged_onSquad) (simp add: clear_def)

lemma unitsChanged_removeFromCurrent: "unitsChanged (removeFromCurrent u sd) sd"
  by (induction sd) (auto simp: unitsChanged_def list_all2_refl removeUnit_def)

lemma unitsChanged_assign: "unitsChanged (assignUnitToSquad sd u n) sd"
  unfolding assignUnitToSquad_def
  by (rule unitsChanged_trans[OF unitsChanged_addUnit unitsChanged_removeFromCurrent])

lemma unitsChanged_getSquad:
  "unitsChanged sd' sd \<Longrightarrow>
     rel_option (\<lambda>s' s. squadName s' = squadName s \<and> squadPriority s' = squadPriority s
                        \<and> squadOrder s' = squadOrder s)
       (getSquad sd' n) (getSquad sd n)"
  unfolding unitsChanged_def getSquad_def
  by (induction sd' sd rule: list_all2_induct) auto

lemma unitsChanged_order:
  "unitsChanged sd' sd \<Longrightarrow>
     map_option squadOrder (getSquad sd' n) = map_option squadOrder (getSquad sd n)"
  using unitsChanged_getSquad[of sd' sd n] by (auto elim!: option.rel_cases)

lemma unitsChanged_squadExists: "unitsChanged sd' sd \<Longrightarrow> squadExists sd' n = squadExists sd n"
  using unitsChanged_getSquad[of sd' sd n] by (auto simp: squadExists_def elim!: option.rel_cases)

lemma getSquad_onSquad_other:
  "n \<noteq> m \<Longrightarrow> (\<And>s. squadName (f s) = squadName s) \<Longrightarrow> getSquad (onSquad n f sd) m = getSquad sd m"
  unfolding getSquad_def by (induction sd) auto

lemma attackSquadsUnit_unitsChanged:
  "attackSquadsUnit g a b u st = Some st' \<Longrightarrow> unitsChanged (fst st') (fst st)"
  by (auto simp: attackSquadsUnit_def Let_def unitsChanged_refl unitsChanged_assign
        unitsChanged_removeUnit
      intro: unitsChanged_trans[OF unitsChanged_assign unitsChanged_removeUnit]
      split: prod.splits if_splits option.splits)

lemma foldOpt_unitsChanged:
  assumes "\<And>x s s'. f x s = Some s' \<Longrightarrow> unitsChanged (sel s') (sel s)"
    and "foldOpt f xs s = Some s'"
  shows "unitsChanged (sel s') (sel s)"
  using assms(2)
proof (induction xs arbitrary: s)
  case Nil
  then show ?case by (simp add: unitsChanged_refl)
next
  case (Cons x xs)
  then obtain s1 where s1: "f x s = Some s1" and r: "foldOpt f xs s1 = Some s'"
    by (auto split: option.splits)
  from Cons.IH[OF r] assms(1)[OF s1] show ?case by (rule unitsChanged_trans)
qed

section \<open>The registry under the policies\<close>

lemma regSteps_trans: "regSteps N b c \<Longrightarrow> regSteps N a b \<Longrightarrow> regSteps N a c"
  by (induction rule: regSteps.induct) (auto intro: regSteps.intros)

lemma regSteps_mono: "regSteps N a b \<Longrightarrow> N \<subseteq> M \<Longrightarrow> regSteps M a b"
  by (induction rule: regSteps.induct) (auto intro: regSteps.intros)

lemma allUnits_Nil: "allUnits [] = {}"
  by (simp add: allUnits_def)

lemma allUnits_Cons: "allUnits (s # ss) = set (squadUnits s) \<union> allUnits ss"
  by (simp add: allUnits_def)

lemma exclusive_Nil: "exclusive []"
  by (simp add: exclusive_def)

lemma exclusive_Cons:
  "exclusive (s # ss) = (distinct (squadUnits s) \<and> exclusive ss \<and> set (squadUnits s) \<inter> allUnits ss = {})"
  by (auto simp: exclusive_def allUnits_def)

lemma allUnits_onSquad_subset:
  assumes "\<And>s. set (squadUnits (f s)) \<subseteq> set (squadUnits s)"
  shows "allUnits (onSquad n f sd) \<subseteq> allUnits sd"
  using assms by (induction sd) (auto simp: allUnits_Nil allUnits_Cons)

lemma exclusive_onSquad_shrink:
  assumes "\<And>s. set (squadUnits (f s)) \<subseteq> set (squadUnits s)"
    and "\<And>s. distinct (squadUnits s) \<Longrightarrow> distinct (squadUnits (f s))"
    and "exclusive sd"
  shows "exclusive (onSquad n f sd)"
  using assms(3)
proof (induction sd)
  case Nil
  then show ?case by (simp add: exclusive_Nil)
next
  case (Cons s ss)
  then show ?case
    using assms(1)[of s] assms(2)[of s] allUnits_onSquad_subset[of f n ss, OF assms(1)]
    by (auto simp: exclusive_Cons)
qed

lemma exclusive_clear: "exclusive sd \<Longrightarrow> exclusive (onSquad n clear sd)"
  by (rule exclusive_onSquad_shrink) (auto simp: clear_def)

lemma exclusive_removeUnit: "exclusive sd \<Longrightarrow> exclusive (onSquad n (removeUnit u) sd)"
  by (rule exclusive_onSquad_shrink)
    (auto simp: removeUnit_def Unitset_erase_def distinct_removeAll)

lemma exclusive_setSquadOrder: "exclusive sd \<Longrightarrow> exclusive (onSquad n (setSquadOrder ord) sd)"
  by (rule exclusive_onSquad_shrink) (auto simp: setSquadOrder_def)

lemma distinct_Unitset_insert: "distinct us \<Longrightarrow> distinct (Unitset_insert u us)"
  by (simp add: Unitset_insert_def distinct_insort)

lemma allUnits_addUnit: "allUnits (onSquad n (addUnit u) sd) \<subseteq> insert u (allUnits sd)"
  by (induction sd) (auto simp: allUnits_Nil allUnits_Cons addUnit_def set_Unitset_insert)

lemma exclusive_addUnit_free:
  assumes "exclusive sd" and "u \<notin> allUnits sd"
  shows "exclusive (onSquad n (addUnit u) sd)"
  using assms
proof (induction sd)
  case Nil
  then show ?case by (simp add: exclusive_Nil)
next
  case (Cons s ss)
  show ?case
  proof (cases "squadName s = n")
    case True
    with Cons.prems show ?thesis
      by (auto simp: exclusive_Cons allUnits_Cons addUnit_def set_Unitset_insert
            distinct_Unitset_insert)
  next
    case False
    have "exclusive (onSquad n (addUnit u) ss)"
      using Cons by (simp add: exclusive_Cons allUnits_Cons)
    moreover have "set (squadUnits s) \<inter> allUnits (onSquad n (addUnit u) ss) = {}"
      using Cons.prems allUnits_addUnit[of n u ss]
      by (auto simp: exclusive_Cons allUnits_Cons)
    ultimately show ?thesis using False Cons.prems(1) by (simp add: exclusive_Cons)
  qed
qed

lemma allUnits_removeFromCurrent: "allUnits (removeFromCurrent u sd) \<subseteq> allUnits sd"
  by (induction sd) (auto simp: allUnits_Nil allUnits_Cons removeUnit_def set_Unitset_erase)

lemma removeFromCurrent_exclusive:
  assumes "exclusive sd"
  shows "exclusive (removeFromCurrent u sd) \<and> u \<notin> allUnits (removeFromCurrent u sd)"
  using assms
proof (induction sd)
  case Nil
  then show ?case by (simp add: exclusive_Nil allUnits_Nil)
next
  case (Cons s ss)
  show ?case
  proof (cases "containsUnit s u")
    case True
    with Cons.prems show ?thesis
      by (auto simp: exclusive_Cons allUnits_Cons containsUnit_def removeUnit_def
            set_Unitset_erase Unitset_erase_def distinct_removeAll)
  next
    case False
    with Cons show ?thesis using allUnits_removeFromCurrent[of u ss]
      by (auto simp: exclusive_Cons allUnits_Cons containsUnit_def)
  qed
qed

lemma exclusive_assign: "exclusive sd \<Longrightarrow> exclusive (assignUnitToSquad sd u n)"
  unfolding assignUnitToSquad_def
  using removeFromCurrent_exclusive[of sd u] by (simp add: exclusive_addUnit_free)

lemma exclusive_addSquad:
  "exclusive sd \<Longrightarrow> addSquad sd (newSquad n ord p) = Some sd' \<Longrightarrow> exclusive sd'"
  by (auto simp: addSquad_def exclusive_def newSquad_def split: if_splits)

lemma idle_candidate_free:
  assumes "idleLowest sd" and "canAssignUnitToSquad sd u ''Idle''"
  shows "u \<notin> allUnits sd"
  using assms
  by (auto simp: idleLowest_def canAssignUnitToSquad_def IdlePriority_def list_all_iff
        allUnits_def containsUnit_def split: option.splits)

lemma getSquad_append:
  "getSquad (sd @ [s]) n = (case getSquad sd n of Some t \<Rightarrow> Some t
                            | None \<Rightarrow> if squadName s = n then Some s else None)"
  unfolding getSquad_def by (induction sd) auto

lemma getSquad_onSquad_gen:
  assumes "\<And>s. squadName (f s) = squadName s"
  shows "getSquad (onSquad n f sd) m = (if n = m then map_option f (getSquad sd m) else getSquad sd m)"
  using assms unfolding getSquad_def by (induction sd) auto

lemma getSquad_removeFromCurrent_priority:
  "map_option squadPriority (getSquad (removeFromCurrent u sd) n) = map_option squadPriority (getSquad sd n)"
  unfolding getSquad_def by (induction sd) (auto simp: removeUnit_def)

lemma getSquad_assign_priority:
  "map_option squadPriority (getSquad (assignUnitToSquad sd u m) n) = map_option squadPriority (getSquad sd n)"
  unfolding assignUnitToSquad_def
  using getSquad_removeFromCurrent_priority[of u sd n]
  by (cases "getSquad (removeFromCurrent u sd) n")
     (auto simp: getSquad_onSquad_gen addUnit_def)

lemma idleLowest_priority:
  "map_option squadPriority (getSquad sd' ''Idle'') = map_option squadPriority (getSquad sd ''Idle'')
   \<Longrightarrow> idleLowest sd \<Longrightarrow> idleLowest sd'"
  by (auto simp: idleLowest_def split: option.splits)

lemma regSteps_wellFormed:
  assumes "regSteps N sd sd'" and "''Idle'' \<notin> N" and "wellFormed sd"
  shows "wellFormed sd'"
  using assms
proof (induction rule: regSteps.induct)
  case (same sd)
  then show ?case by simp
next
  case (assign sd sd1 u n)
  then show ?case
    by (auto simp: wellFormed_def exclusive_assign intro: idleLowest_priority[OF getSquad_assign_priority])
next
  case (remove sd sd1 n u)
  then show ?case
    by (auto simp: wellFormed_def exclusive_removeUnit idleLowest_def getSquad_onSquad_gen removeUnit_def
        split: option.splits)
next
  case (clear sd sd1 n)
  then show ?case
    by (auto simp: wellFormed_def exclusive_clear idleLowest_def getSquad_onSquad_gen clear_def
        split: option.splits)
next
  case (idle sd sd1 u)
  then show ?case
    by (auto simp: wellFormed_def exclusive_addUnit_free idle_candidate_free idleLowest_def
          getSquad_onSquad_gen addUnit_def split: option.splits)
next
  case (order sd sd1 n ord)
  then show ?case
    by (auto simp: wellFormed_def exclusive_setSquadOrder idleLowest_def getSquad_onSquad_gen
          setSquadOrder_def split: option.splits)
next
  case (add sd sd1 n ord p sd2)
  then have wf: "wellFormed sd1" and n: "n \<noteq> ''Idle''" by auto
  from add.hyps(3) have sd2: "sd2 = sd1 @ [newSquad n ord p]"
    by (auto simp: addSquad_def split: if_splits)
  have "idleLowest sd2" using wf n
    by (auto simp: sd2 wellFormed_def idleLowest_def getSquad_append newSquad_def split: option.splits)
  with wf add.hyps(3) show ?case by (auto simp: wellFormed_def intro: exclusive_addSquad)
qed

lemma regSteps_order_kept:
  assumes "regSteps N sd sd'" and "m \<notin> N" and "getSquad sd m = Some t"
  shows "\<exists>t'. getSquad sd' m = Some t' \<and> squadOrder t' = squadOrder t
              \<and> squadPriority t' = squadPriority t"
  using assms
proof (induction rule: regSteps.induct)
  case (same sd)
  then show ?case by simp
next
  case (assign sd sd1 u n)
  then obtain t1 where t1: "getSquad sd1 m = Some t1" "squadOrder t1 = squadOrder t"
     "squadPriority t1 = squadPriority t" by auto
  from unitsChanged_getSquad[OF unitsChanged_assign, of sd1 u n m] t1
  show ?case by (auto elim!: option.rel_cases)
next
  case (remove sd sd1 n u)
  then show ?case by (auto simp: getSquad_onSquad_gen removeUnit_def)
next
  case (clear sd sd1 n)
  then show ?case by (auto simp: getSquad_onSquad_gen clear_def)
next
  case (idle sd sd1 u)
  then show ?case by (auto simp: getSquad_onSquad_gen addUnit_def)
next
  case (order sd sd1 n ord)
  then show ?case by (auto simp: getSquad_onSquad_gen setSquadOrder_def)
next
  case (add sd sd1 n ord p sd2)
  then show ?case by (auto simp: addSquad_def getSquad_append split: if_splits)
qed

lemma idle_fold_steps:
  "regSteps N a sd \<Longrightarrow>
   regSteps N a (fold (\<lambda>unit sd. if canAssignUnitToSquad sd unit ''Idle''
                                    then onSquad ''Idle'' (addUnit unit) sd else sd) us sd)"
  by (induction us arbitrary: sd) (auto intro: regSteps.idle)

lemma updateIdleSquad_steps:
  assumes "updateIdleSquad cc = Some cc'"
  shows "regSteps N (squadData cc) (squadData cc')"
  using assms
  by (auto simp: updateIdleSquad_def split: option.splits intro!: idle_fold_steps regSteps.same)

lemma dropSquadRecruit_steps:
  "regSteps N a (fst st) \<Longrightarrow> regSteps N a (fst (dropSquadRecruit g u st))"
  by (auto simp: dropSquadRecruit_def split: prod.splits intro: regSteps.assign)

lemma fold_steps:
  assumes "\<And>x st. regSteps N a (fst st) \<Longrightarrow> regSteps N a (fst (f x st))"
  shows "regSteps N a (fst st) \<Longrightarrow> regSteps N a (fst (fold f xs st))"
  using assms by (induction xs arbitrary: st) auto

lemma updateDropSquads_steps:
  assumes "updateDropSquads g cc = Some cc'" and "''Drop'' \<in> N"
  shows "regSteps N (squadData cc) (squadData cc')"
proof -
  have r: "regSteps N (squadData cc)
             (fst (fold (dropSquadRecruit g) (combatUnits cc) (squadData cc, t, n)))" for t n
    by (rule fold_steps[OF dropSquadRecruit_steps]) (simp_all add: regSteps.same)
  show ?thesis
    using assms r
    by (auto simp: updateDropSquads_def split: option.splits if_splits prod.splits bool.splits
          intro: regSteps.same regSteps.order[OF regSteps.same])
qed

lemma updateScoutDefenseSquad_steps:
  assumes "updateScoutDefenseSquad g cc = Some cc'"
  shows "regSteps N (squadData cc) (squadData cc')"
  using assms
  by (auto simp: updateScoutDefenseSquad_def Let_def split: option.splits if_splits
        intro: regSteps.same regSteps.clear[OF regSteps.same] regSteps.assign[OF regSteps.same])

lemma reconAddUnit_steps:
  "regSteps N a (fst st) \<Longrightarrow> regSteps N a (fst (reconAddUnit g wl ad u st))"
  by (auto simp: reconAddUnit_def Let_def split: prod.splits intro: regSteps.assign)

lemma reconAddUnits_steps:
  "regSteps N a (fst st) \<Longrightarrow> regSteps N a (fst (reconAddUnits g wl ad us st))"
proof (induction us arbitrary: st)
  case Nil
  then show ?case by simp
next
  case (Cons u us)
  show ?case
  proof (cases "fst (snd st) \<ge> wl")
    case True
    then show ?thesis using Cons.prems by simp
  next
    case False
    have "regSteps N a (fst (reconAddUnit g wl ad u st))"
      using Cons.prems by (rule reconAddUnit_steps)
    from Cons.IH[OF this] False show ?thesis by simp
  qed
qed

lemma reconAddMedics_steps:
  "regSteps N a (fst st) \<Longrightarrow> regSteps N a (fst (reconAddMedics g wl us st))"
proof (induction us arbitrary: st)
  case Nil
  then show ?case by simp
next
  case (Cons u us)
  obtain sd w m where st: "st = (sd, w, m)" by (cases st) auto
  have a: "regSteps N a (fst (assignUnitToSquad sd u ''Recon'', w + weighReconUnit Terran_Medic, m + 1))"
    using Cons.prems st by (auto intro: regSteps.assign)
  show ?case
    using Cons.IH[OF a] Cons.IH[OF Cons.prems] Cons.prems st by simp
qed

lemma chooseReconTarget_squadData:
  "chooseReconTarget g cc = Some cc1 \<Longrightarrow> squadData cc1 = squadData cc \<and> combatUnits cc1 = combatUnits cc"
  by (auto simp: chooseReconTarget_def Let_def split: option.splits if_splits)

lemma reconSquadReview_steps:
  "regSteps N a sd \<Longrightarrow> regSteps N a (fst (reconSquadReview g wl rs sd))"
  by (auto simp: reconSquadReview_def Let_def intro!: regSteps.clear)

lemma reconSquadFill_steps:
  assumes "regSteps N a (fst st)"
  shows "regSteps N a (reconSquadFill g wl us st)"
proof -
  obtain sd w m d where st: "st = (sd, w, m, d)" by (cases st) auto
  define ad where "ad = int (length (filter (\<lambda>unit. isDetector g (getType g unit)) us))"
  define h where "h = (case getSquad sd ''Recon'' of None \<Rightarrow> False | Some s \<Rightarrow> hasDetector g s)"
  obtain sd3 w3 m3 h3 where r: "reconAddUnits g wl ad us (sd, w, m, h) = (sd3, w3, m3, h3)"
    by (cases "reconAddUnits g wl ad us (sd, w, m, h)") auto
  have s3: "regSteps N a sd3"
    using reconAddUnits_steps[of N a "(sd, w, m, h)" g wl ad us] assms st r by simp
  have "regSteps N a (fst (reconAddMedics g wl us (sd3, w3, d)))"
    using s3 by (intro reconAddMedics_steps) simp
  with s3 show ?thesis
    using r by (simp add: reconSquadFill_def st Let_def ad_def h_def)
qed

lemma updateReconSquad_steps:
  assumes "updateReconSquad g cc = Some cc'" and "''Recon'' \<in> N"
  shows "regSteps N (squadData cc) (squadData cc')"
proof (cases "goAggressive cc")
  case False
  with assms show ?thesis
    by (auto simp: updateReconSquad_def split: option.splits
          intro: regSteps.clear[OF regSteps.same])
next
  case True
  with assms(1) obtain cc1 where c1: "chooseReconTarget g cc = Some cc1"
    by (auto simp: updateReconSquad_def split: option.splits)
  note sq = chooseReconTarget_squadData[OF c1]
  show ?thesis
  proof (cases "isValid g (reconTarget cc1)")
    case False
    with assms True c1 sq show ?thesis
      by (auto simp: updateReconSquad_def split: option.splits
          intro: regSteps.clear[OF regSteps.same])
  next
    case v: True
    have "regSteps N (squadData cc) (reconSquadFill g wl us (reconSquadReview g wl rs (squadData cc)))"
      for wl us rs
      by (intro reconSquadFill_steps reconSquadReview_steps regSteps.same)
    with assms True c1 v sq show ?thesis
      by (auto simp: updateReconSquad_def Let_def split: option.splits intro!: regSteps.order)
  qed
qed

lemma attackSquadsUnit_steps:
  "attackSquadsUnit g a b u st = Some st' \<Longrightarrow> regSteps N x (fst st) \<Longrightarrow> regSteps N x (fst st')"
  by (auto simp: attackSquadsUnit_def Let_def
      intro!: regSteps.assign regSteps.remove
      split: prod.splits if_splits option.splits)

lemma foldOpt_steps:
  assumes "\<And>x s s'. f x s = Some s' \<Longrightarrow> regSteps N a (sel s) \<Longrightarrow> regSteps N a (sel s')"
    and "foldOpt f xs s = Some s'" and "regSteps N a (sel s)"
  shows "regSteps N a (sel s')"
  using assms(2,3)
proof (induction xs arbitrary: s)
  case Nil
  then show ?case by simp
next
  case (Cons x xs)
  then obtain s1 where s1: "f x s = Some s1" and r: "foldOpt f xs s1 = Some s'"
    by (auto split: option.splits)
  from Cons.IH[OF r assms(1)[OF s1 Cons.prems(2)]] show ?case .
qed

lemma attackSquadsOrders_steps:
  assumes "''Ground'' \<in> N" and "''Flying'' \<in> N" and "regSteps N a sd"
  shows "regSteps N a (attackSquadsOrders g ag sd)"
  using assms
  by (auto simp: attackSquadsOrders_def Let_def split: prod.splits intro!: regSteps.order)

lemma updateAttackSquads_steps:
  assumes "updateAttackSquads g cc = Some cc'" and "''Ground'' \<in> N" and "''Flying'' \<in> N"
  shows "regSteps N (squadData cc) (squadData cc')"
proof -
  from assms(1) obtain gs fs sd gd fd where
    loop: "foldOpt (attackSquadsUnit g (hasCombatUnits g gs)
              (list_ex (\<lambda>unit. isFlyingSquadUnit (getType g unit)) (squadUnits fs)))
             (combatUnits cc) (squadData cc, hasDetector g gs, hasDetector g fs) = Some (sd, gd, fd)" and
    cc': "cc' = cc\<lparr>squadData := attackSquadsOrders g (goAggressive cc) sd\<rparr>"
    by (auto simp: updateAttackSquads_def Let_def split: option.splits prod.splits)
  have "regSteps N (squadData cc) (fst (sd, gd, fd))"
    by (rule foldOpt_steps[OF attackSquadsUnit_steps loop]) (simp_all add: regSteps.same)
  then show ?thesis using assms(2,3) cc' by (simp add: attackSquadsOrders_steps)
qed

lemma addFlyingDefenders_steps:
  "addFlyingDefenders g us n needed st = Some st' \<Longrightarrow> regSteps N a (fst st)
   \<Longrightarrow> regSteps N a (fst st')"
proof (induction g us n needed st rule: addFlyingDefenders.induct)
  case (1 g units defenseSquad needed sd added)
  note eq = "1.prems"(1)[unfolded addFlyingDefenders.simps[of g units defenseSquad needed sd added]]
  show ?case
  proof (cases "needed > added")
    case False
    with eq "1.prems"(2) show ?thesis by simp
  next
    case True
    with eq obtain squad where sq: "getSquad sd defenseSquad = Some squad"
      by (auto split: option.splits)
    show ?thesis
    proof (cases "findClosestDefender g units sd defenseSquad (orderPosition (squadOrder squad)) True False")
      case None
      with True sq eq "1.prems"(2) show ?thesis by simp
    next
      case (Some d)
      with True sq eq have w: "\<not> isWorker g (getType g d)"
        by (auto split: if_splits)
      have "regSteps N a (fst (assignUnitToSquad sd d defenseSquad, added + 1))"
        using "1.prems"(2) by (auto intro: regSteps.assign)
      moreover have "addFlyingDefenders g units defenseSquad needed
                       (assignUnitToSquad sd d defenseSquad, added + 1) = Some st'"
        using True sq Some w eq by simp
      ultimately show ?thesis
        using "1.IH"[OF True sq Some w] by blast
    qed
  qed
qed

lemma addGroundDefenders_steps:
  "addGroundDefenders g us n needed pw wig st = Some st' \<Longrightarrow> regSteps N a (fst st)
   \<Longrightarrow> regSteps N a (fst st')"
proof (induction g us n needed pw wig st rule: addGroundDefenders.induct)
  case (1 g units defenseSquad needed pullWorkers workersInGroup sd added)
  note eq = "1.prems"(1)[unfolded addGroundDefenders.simps[of g units defenseSquad needed
                                     pullWorkers workersInGroup sd added]]
  show ?case
  proof (cases "needed > added - workersInGroup")
    case False
    with eq "1.prems"(2) show ?thesis by simp
  next
    case True
    with eq obtain squad where sq: "getSquad sd defenseSquad = Some squad"
      by (auto split: option.splits)
    show ?thesis
    proof (cases "findClosestDefender g units sd defenseSquad (orderPosition (squadOrder squad)) False pullWorkers")
      case None
      with True sq eq "1.prems"(2) show ?thesis by simp
    next
      case (Some d)
      have as: "regSteps N a (fst (assignUnitToSquad sd d defenseSquad, k))" for k :: nat
        using "1.prems"(2) by (auto intro: regSteps.assign)
      show ?thesis
      proof (cases "isWorker g (getType g d)")
        case w: True
        with True sq Some eq have pw: "pullWorkers" by (auto split: if_splits)
        show ?thesis
        proof (cases "needed \<le> added")
          case le: True
          with True sq Some w pw eq "1.prems"(2) show ?thesis by simp
        next
          case False
          then have "addGroundDefenders g units defenseSquad needed pullWorkers workersInGroup
                       (assignUnitToSquad sd d defenseSquad, added + 1) = Some st'"
            using True sq Some w pw eq by simp
          then show ?thesis
            using "1.IH"(1)[OF True sq Some w _ False] pw as[of "added + 1"] by simp
        qed
      next
        case nw: False
        show ?thesis
        proof (cases "getType g d = Protoss_Zealot")
          case z: True
          then have "addGroundDefenders g units defenseSquad needed pullWorkers workersInGroup
                       (assignUnitToSquad sd d defenseSquad, added + 4) = Some st'"
            using True sq Some nw eq by simp
          then show ?thesis
            using "1.IH"(2)[OF True sq Some nw z] as[of "added + 4"] by simp
        next
          case z: False
          then have "addGroundDefenders g units defenseSquad needed pullWorkers workersInGroup
                       (assignUnitToSquad sd d defenseSquad, added + 5) = Some st'"
            using True sq Some nw eq by simp
          then show ?thesis
            using "1.IH"(3)[OF True sq Some nw z] as[of "added + 5"] by simp
        qed
      qed
    qed
  qed
qed

lemma removeExcessWorkers_steps:
  "regSteps N a (fst st) \<Longrightarrow> regSteps N a (fst (removeExcessWorkers g n needed st))"
proof (induction g n needed st rule: removeExcessWorkers.induct)
  case (1 g defenseSquad needed sd added)
  note eq = removeExcessWorkers.simps[of g defenseSquad needed sd added]
  show ?case
  proof (cases "added > needed")
    case False
    with "1.prems" show ?thesis by (simp add: eq)
  next
    case True
    show ?thesis
    proof (cases "getSquad sd defenseSquad")
      case None
      with True "1.prems" show ?thesis by (simp add: eq)
    next
      case (Some squad)
      show ?thesis
      proof (cases "find (\<lambda>unit. getType g unit = Protoss_Probe) (squadUnits squad)")
        case None
        with True Some "1.prems" show ?thesis by (simp add: eq)
      next
        case u: (Some unit)
        have "regSteps N a (fst (onSquad defenseSquad (removeUnit unit) sd, added - 1))"
          using "1.prems" by (auto intro: regSteps.remove)
        from "1.IH"[OF True Some u this] True Some u show ?thesis by (simp add: eq)
      qed
    qed
  qed
qed

lemma updateDefenseSquadUnits_steps:
  assumes "updateDefenseSquadUnits g us n fl gr pw sd = Some sd'" and "regSteps N a sd"
  shows "regSteps N a sd'"
proof (cases "fl = 0 \<and> gr = 0")
  case True
  with assms show ?thesis by (auto simp: updateDefenseSquadUnits_def intro: regSteps.clear)
next
  case False
  with assms(1) obtain squad where sq: "getSquad sd n = Some squad"
    by (auto simp: updateDefenseSquadUnits_def split: option.splits if_splits)
  obtain fa ga w where cd: "countDefenders g (squadUnits squad) = (fa, ga, w)"
    by (cases "countDefenders g (squadUnits squad)") auto
  from assms(1) False sq cd obtain sd1 fa1 where
    f: "addFlyingDefenders g us n fl (sd, fa) = Some (sd1, fa1)"
    by (auto simp: updateDefenseSquadUnits_def split: option.splits if_splits)
  from assms(1) False sq cd f obtain sd2 ga2 where
    gnd: "addGroundDefenders g us n gr pw w (sd1, ga) = Some (sd2, ga2)"
    by (auto simp: updateDefenseSquadUnits_def split: option.splits if_splits)
  from assms(1) False sq cd f gnd have r: "sd' = fst (removeExcessWorkers g n gr (sd2, ga2))"
    by (auto simp: updateDefenseSquadUnits_def split: option.splits if_splits)
  from addFlyingDefenders_steps[OF f] assms(2) have "regSteps N a sd1" by simp
  with addGroundDefenders_steps[OF gnd] have "regSteps N a sd2" by simp
  then show ?thesis unfolding r by (intro removeExcessWorkers_steps) simp
qed

lemma clearIfExists_steps: "regSteps N a sd \<Longrightarrow> regSteps N a (clearIfExists n sd)"
  by (auto simp: clearIfExists_def intro: regSteps.clear)

lemma orderDefenseSquad_steps:
  "orderDefenseSquad n ord sd = Some sd' \<Longrightarrow> n \<in> N \<Longrightarrow> regSteps N a sd \<Longrightarrow> regSteps N a sd'"
  by (auto simp: orderDefenseSquad_def split: if_splits intro: regSteps.order regSteps.add)

lemma defendRegion_steps:
  assumes "defendRegion g er mr r cc = Some cc'" and "range baseDefenseName \<subseteq> N"
    and "regSteps N a (squadData cc)"
  shows "regSteps N a (squadData cc')"
proof -
  have n: "baseDefenseName (getCenter g r) \<in> N" using assms(2) by auto
  consider (skip) "cc' = cc"
    | (clr) "squadData cc' = clearIfExists (baseDefenseName (getCenter g r)) (squadData cc)"
    | (rec) ord sd1 enemies w where
        "orderDefenseSquad (baseDefenseName (getCenter g r)) ord (squadData cc) = Some sd1"
        "recruitForRegion g (cc\<lparr>enemyWorkerAttackedAt := w, squadData := sd1\<rparr>) r enemies
           (baseDefenseName (getCenter g r)) = Some cc'"
    using assms(1)
    by (auto simp: defendRegion_def Let_def split: if_splits prod.splits option.splits)
  then show ?thesis
  proof cases
    case skip
    then show ?thesis using assms(3) by simp
  next
    case clr
    then show ?thesis using assms(3) by (simp add: clearIfExists_steps)
  next
    case rec
    from orderDefenseSquad_steps[OF rec(1) n] assms(3) have "regSteps N a sd1" by simp
    with rec(2) show ?thesis
      by (auto simp: recruitForRegion_def Let_def split: option.splits
            dest!: updateDefenseSquadUnits_steps)
  qed
qed

lemma fold_steps_plain:
  assumes "\<And>x sd. regSteps N a sd \<Longrightarrow> regSteps N a (f x sd)"
  shows "regSteps N a sd \<Longrightarrow> regSteps N a (fold f xs sd)"
  using assms by (induction xs arbitrary: sd) auto

lemma sweepDefenseSquads_steps:
  "regSteps N a sd \<Longrightarrow> regSteps N a (sweepDefenseSquads g sd)"
  unfolding sweepDefenseSquads_def
  by (rule fold_steps_plain) (auto intro: regSteps.clear)

lemma updateBaseDefenseSquads_steps:
  assumes "updateBaseDefenseSquads g cc = Some cc'" and "range baseDefenseName \<subseteq> N"
  shows "regSteps N (squadData cc) (squadData cc')"
proof (cases "combatUnits cc = []")
  case True
  with assms show ?thesis by (simp add: updateBaseDefenseSquads_def regSteps.same)
next
  case False
  with assms(1) obtain er mr cc1 where
    f: "foldOpt (defendRegion g er mr) (getRegions g) cc = Some cc1" and
    c: "cc' = cc1\<lparr>squadData := sweepDefenseSquads g (squadData cc1)\<rparr>"
    by (auto simp: updateBaseDefenseSquads_def Let_def split: option.splits)
  have "regSteps N (squadData cc) (squadData cc1)"
    by (rule foldOpt_steps[where f="defendRegion g er mr" and sel=squadData, OF _ f])
      (auto intro: defendRegion_steps[OF _ assms(2)] regSteps.same)
  then show ?thesis unfolding c by (simp add: sweepDefenseSquads_steps)
qed

lemma baseDefenseName_not_fixed:
  "baseDefenseName c \<noteq> ''Idle''" "baseDefenseName c \<noteq> ''Drop''"
  by (simp_all add: baseDefenseName_def)

lemma Idle_notin_policyNames: "''Idle'' \<notin> policyNames"
  by (auto simp: policyNames_def baseDefenseName_def)

lemma allocate_steps:
  assumes "allocate g cc = Some cc'"
  shows "regSteps policyNames (squadData cc) (squadData cc')"
proof -
  from assms obtain c1 c2 c3 c4 c5 where
    s: "updateIdleSquad cc = Some c1" "updateDropSquads g c1 = Some c2"
       "updateScoutDefenseSquad g c2 = Some c3" "updateBaseDefenseSquads g c3 = Some c4"
       "updateReconSquad g c4 = Some c5" "updateAttackSquads g c5 = Some cc'"
    by (auto simp: allocate_def split: option.splits)
  note st = updateIdleSquad_steps[OF s(1), of policyNames]
    updateDropSquads_steps[OF s(2), of policyNames]
    updateScoutDefenseSquad_steps[OF s(3), of policyNames]
    updateBaseDefenseSquads_steps[OF s(4), of policyNames]
    updateReconSquad_steps[OF s(5), of policyNames]
    updateAttackSquads_steps[OF s(6), of policyNames]
  have "regSteps policyNames (squadData cc) (squadData c2)"
    using st(1,2) by (auto simp: policyNames_def intro: regSteps_trans)
  then have "regSteps policyNames (squadData cc) (squadData c3)"
    using st(3) by (auto intro: regSteps_trans)
  then have "regSteps policyNames (squadData cc) (squadData c4)"
    using st(4) by (auto simp: policyNames_def intro: regSteps_trans)
  then have "regSteps policyNames (squadData cc) (squadData c5)"
    using st(5) by (auto simp: policyNames_def intro: regSteps_trans)
  then show ?thesis
    using st(6) by (auto simp: policyNames_def intro: regSteps_trans)
qed

lemma foldOpt_invariant:
  assumes "\<And>x s s'. f x s = Some s' \<Longrightarrow> P s \<Longrightarrow> P s'"
    and "foldOpt f xs s = Some s'" and "P s"
  shows "P s'"
  using assms(2,3)
proof (induction xs arbitrary: s)
  case Nil
  then show ?case by simp
next
  case (Cons x xs)
  then obtain s1 where s1: "f x s = Some s1" and r: "foldOpt f xs s1 = Some s'"
    by (auto split: option.splits)
  from Cons.IH[OF r assms(1)[OF s1 Cons.prems(2)]] show ?case .
qed

lemma defendRegion_initialized:
  "defendRegion g er mr r cc = Some cc' \<Longrightarrow> initialized cc' = initialized cc"
  by (auto simp: defendRegion_def recruitForRegion_def Let_def
      split: if_splits prod.splits option.splits)

lemma allocate_initialized:
  assumes "allocate g cc = Some cc'"
  shows "initialized cc' = initialized cc"
proof -
  from assms obtain c1 c2 c3 c4 c5 where
    s: "updateIdleSquad cc = Some c1" "updateDropSquads g c1 = Some c2"
       "updateScoutDefenseSquad g c2 = Some c3" "updateBaseDefenseSquads g c3 = Some c4"
       "updateReconSquad g c4 = Some c5" "updateAttackSquads g c5 = Some cc'"
    by (auto simp: allocate_def split: option.splits)
  have 1: "initialized c1 = initialized cc"
    using s(1) by (auto simp: updateIdleSquad_def split: option.splits)
  have 2: "initialized c2 = initialized c1"
    using s(2) by (auto simp: updateDropSquads_def split: option.splits if_splits prod.splits bool.splits)
  have 3: "initialized c3 = initialized c2"
    using s(3) by (auto simp: updateScoutDefenseSquad_def Let_def split: option.splits if_splits)
  have 4: "initialized c4 = initialized c3"
  proof (cases "combatUnits c3 = []")
    case True
    with s(4) show ?thesis by (simp add: updateBaseDefenseSquads_def)
  next
    case False
    with s(4) obtain er mr x where
      f: "foldOpt (defendRegion g er mr) (getRegions g) c3 = Some x" and
      c: "c4 = x\<lparr>squadData := sweepDefenseSquads g (squadData x)\<rparr>"
      by (auto simp: updateBaseDefenseSquads_def Let_def split: option.splits)
    have "initialized x = initialized c3"
      by (rule foldOpt_invariant[where P="\<lambda>c. initialized c = initialized c3", OF _ f])
        (auto dest: defendRegion_initialized)
    then show ?thesis by (simp add: c)
  qed
  have 5: "initialized c5 = initialized c4"
    using s(5)
    by (auto simp: updateReconSquad_def chooseReconTarget_def Let_def
        split: option.splits if_splits)
  have 6: "initialized cc' = initialized c5"
    using s(6) by (auto simp: updateAttackSquads_def Let_def split: option.splits prod.splits)
  from 1 2 3 4 5 6 show ?thesis by simp
qed

lemma initializeSquads_wellFormed:
  assumes "initializeSquads g cc = Some cc'" and "squadData cc = []"
  shows "wellFormed (squadData cc') \<and> initialized cc'"
  using assms
  by (auto simp: initializeSquads_def Let_def addSquad_def squadExists_def getSquad_def
        newSquad_def wellFormed_def exclusive_def idleLowest_def
      split: option.splits if_splits)

lemma update_commanderOk:
  assumes "update g units cc = Some cc'" and "commanderOk cc"
  shows "commanderOk cc' \<and> initialized cc'"
proof -
  from assms(1) obtain c0 where
    i: "(if \<not> initialized cc then initializeSquads g cc else Some cc) = Some c0" and
    r: "(if cmod (frameCount g) 8 = 1 then allocate g (c0\<lparr>combatUnits := units\<rparr>)
         else Some (c0\<lparr>combatUnits := units\<rparr>)) = Some cc'"
    by (auto simp: update_def Let_def split: option.splits)
  have c0: "wellFormed (squadData c0) \<and> initialized c0"
    using i assms(2) initializeSquads_wellFormed[of g cc c0]
    by (auto simp: commanderOk_def split: if_splits)
  show ?thesis
  proof (cases "cmod (frameCount g) 8 = 1")
    case True
    with r have a: "allocate g (c0\<lparr>combatUnits := units\<rparr>) = Some cc'" by simp
    from regSteps_wellFormed[OF allocate_steps[OF a] Idle_notin_policyNames] c0
      allocate_initialized[OF a]
    show ?thesis by (simp add: commanderOk_def)
  next
    case False
    with r c0 show ?thesis by (auto simp: commanderOk_def)
  qed
qed

lemma run_commanderOk:
  "run ticks cc = Some cc' \<Longrightarrow> commanderOk cc \<Longrightarrow> commanderOk cc'"
proof (induction ticks arbitrary: cc)
  case Nil
  then show ?case by simp
next
  case (Cons t ticks)
  obtain g units where t: "t = (g, units)" by (cases t) auto
  with Cons.prems(1) obtain c1 where u: "update g units cc = Some c1" and r: "run ticks c1 = Some cc'"
    by (auto split: option.splits)
  from update_commanderOk[OF u Cons.prems(2)] Cons.IH[OF r] show ?case by simp
qed

lemma exclusive_at_most_one:
  "exclusive sd \<Longrightarrow> length (filter (\<lambda>s. containsUnit s u) sd) \<le> 1"
proof (induction sd)
  case Nil
  then show ?case by simp
next
  case (Cons s ss)
  show ?case
  proof (cases "containsUnit s u")
    case True
    then have "u \<notin> allUnits ss" using Cons.prems by (auto simp: exclusive_Cons containsUnit_def)
    then have "filter (\<lambda>s. containsUnit s u) ss = []"
      by (auto simp: allUnits_def containsUnit_def filter_empty_conv)
    with True show ?thesis by simp
  next
    case False
    with Cons show ?thesis by (simp add: exclusive_Cons)
  qed
qed

lemma inSquad_allUnits: "inSquad sd n u \<Longrightarrow> u \<in> allUnits sd"
  by (auto simp: inSquad_def allUnits_def containsUnit_def split: option.splits
      dest!: getSquad_mem)

section \<open>The double-precision product of line 854\<close>

lemma roundToDouble_bounds:
  assumes "0 \<le> a" and "a < 2 ^ 84" and "(2::int) ^ 52 dvd M" and "a \<le> M"
  shows "a - 2 ^ 30 \<le> roundToDouble a \<and> roundToDouble a \<le> M"
proof (cases "bitlen a - 53 \<le> 0")
  case True
  with assms show ?thesis by (simp add: roundToDouble_def Let_def)
next
  case False
  define s where "s = nat (bitlen a - 53)"
  have s0: "0 < s" using False by (simp add: s_def)
  have "bitlen a \<le> 84" using assms(1,2) by (simp add: bitlen_le_iff_power)
  then have s31: "s \<le> 31" by (simp add: s_def)
  define P :: int where "P = 2 ^ s"
  define q where "q = a div P"
  define r where "r = a mod P"
  define h :: int where "h = 2 ^ (s - 1)"
  have P0: "0 < P" by (simp add: P_def)
  have Ph: "P = 2 * h" using s0 by (simp add: P_def h_def power_eq_if)
  have h30: "h \<le> 2 ^ 30"
    unfolding h_def using s31 by (intro power_increasing) auto
  have a: "a = q * P + r" and r0: "0 \<le> r" and rP: "r < P"
    using P0 by (simp_all add: q_def r_def)
  have abs_a: "\<bar>a\<bar> = a" using assms(1) by simp
  have sg: "sgn a = 1"
  proof -
    have "a \<noteq> 0" using False by auto
    with assms(1) show ?thesis by simp
  qed
  have ns: "nat (bitlen a - 53 - 1) = s - 1" unfolding s_def by arith
  have e1: "(2::int) ^ nat (bitlen a - 53) = P" by (simp add: P_def s_def)
  have e2: "(2::int) ^ nat (bitlen a - 53 - 1) = h" by (simp only: ns h_def)
  have R: "roundToDouble a = (if r > h \<or> (r = h \<and> odd q) then (q + 1) * P else q * P)"
    unfolding roundToDouble_def Let_def abs_a e1 e2 sg q_def r_def
    using False by simp
  have "P dvd 2 ^ 52" unfolding P_def using s31 by (intro le_imp_power_dvd) simp
  then have "P dvd M" using assms(3) by (rule dvd_trans)
  then obtain k where M: "M = k * P" by (auto simp: dvd_def mult.commute)
  show ?thesis
  proof (cases "r > h \<or> (r = h \<and> odd q)")
    case up: True
    have "0 < h" by (simp add: h_def)
    with up have rpos: "0 < r" by auto
    have "q * P + r \<le> k * P" using assms(4) a M by simp
    then have "q * P < k * P" using rpos by simp
    then have "q < k" using P0 by (simp add: mult_less_cancel_right)
    then have "(q + 1) * P \<le> k * P" using P0 by (simp add: mult_le_cancel_right)
    moreover have "a \<le> (q + 1) * P" using a rP by (simp add: algebra_simps)
    ultimately show ?thesis using R up M by simp
  next
    case down: False
    then have "r \<le> h" by auto
    then have "a - 2 ^ 30 \<le> q * P" using a h30 by simp
    moreover have "q * P \<le> M" using a r0 assms(4) by simp
    ultimately show ?thesis using R down by simp
  qed
qed

lemma ceilTimes_1_2_eq:
  assumes "0 \<le> n" and "n < 2 ^ 31"
  shows "ceilTimes_1_2 n = (6 * n + 4) div 5"
proof -
  define c where "c = (6 * n + 4) div 5"
  define a where "a = n * double_1_2"
  have c1: "6 * n \<le> 5 * c" and c2: "5 * c \<le> 6 * n + 4" by (simp_all add: c_def)
  have a5: "5 * a = 6 * n * 2 ^ 52 - n" by (simp add: a_def double_1_2_def)
  have a0: "0 \<le> a" using assms(1) by (simp add: a_def double_1_2_def)
  have a84: "a < 2 ^ 84" using assms a5 by simp
  have aM: "a \<le> c * 2 ^ 52" using a5 c1 assms(1) by simp
  have dv: "(2::int) ^ 52 dvd c * 2 ^ 52" by simp
  from roundToDouble_bounds[OF a0 a84 dv aM]
  have lo: "a - 2 ^ 30 \<le> roundToDouble a" and hi: "roundToDouble a \<le> c * 2 ^ 52" by simp_all
  have "(c - 1) * 2 ^ 52 < a - 2 ^ 30" using a5 c2 assms by simp
  with lo have lo': "(c - 1) * 2 ^ 52 < roundToDouble a" by simp
  have "(- roundToDouble a) div 2 ^ 52 = - c"
  proof (rule int_div_pos_eq[where r="c * 2 ^ 52 - roundToDouble a"])
    show "- roundToDouble a = 2 ^ 52 * - c + (c * 2 ^ 52 - roundToDouble a)" by simp
    show "0 \<le> c * 2 ^ 52 - roundToDouble a" using hi by simp
    show "c * 2 ^ 52 - roundToDouble a < 2 ^ 52" using lo' by (simp add: algebra_simps)
  qed
  then show ?thesis by (simp add: ceilTimes_1_2_def a_def c_def)
qed


section \<open>Exclusive membership\<close>

text \<open>
  Claim C1: in every state that the commander reaches from its initial state, by any
  sequence of ticks with any games and rosters, the members of the squads of the registry
  repeat no unit, so that every unit is a member of at most one squad. A transfer is an
  assignment, which removes the unit from its current squad and then inserts it into the
  target, or (lines 419-446) a removal followed by an assignment.
\<close>

theorem unit_in_at_most_one_squad:
  assumes "run ticks CombatCommander_init = Some cc"
  shows "exclusive (squadData cc) \<and> length (filter (\<lambda>s. containsUnit s u) (squadData cc)) \<le> 1"
proof -
  have "commanderOk CombatCommander_init"
    by (simp add: commanderOk_def CombatCommander_init_def wellFormed_def exclusive_def
          idleLowest_def getSquad_def)
  from run_commanderOk[OF assms this] have "exclusive (squadData cc)"
    by (simp add: commanderOk_def wellFormed_def)
  then show ?thesis using exclusive_at_most_one[of "squadData cc" u] by simp
qed

theorem unit_in_at_most_one_squad_witness:
  "\<exists>cc. run [(twoUnitsGame, [1, 2])] CombatCommander_init = Some cc
        \<and> exclusive (squadData cc)
        \<and> length (filter (\<lambda>s. containsUnit s 1) (squadData cc)) \<le> 1"
proof -
  have "run [(twoUnitsGame, [1, 2])] CombatCommander_init \<noteq> None"
    by (simp add: twoUnitsGame_def quietGame_def tick_defs registry_defs targeting_defs
          attack_defs recon_defs Let_def)
  then obtain cc where r: "run [(twoUnitsGame, [1, 2])] CombatCommander_init = Some cc"
    by auto
  from unit_in_at_most_one_squad[OF r, of 1] r show ?thesis by blast
qed

section \<open>The weight of the recon squad\<close>

text \<open>
  Claim C2 at a concrete roster: the available weight is 30 and the weight limit 3. The
  first adding loop admits the marine (weight 2) and nothing else; the loop that fills in
  medics then admits a medic, since it asks only whether the squad is below the limit, not
  whether the medic fits. The squad ends with weight 4, above the limit of 3.
\<close>

theorem recon_squad_over_its_weight_limit:
  "squadReconWeight reconGame (combatUnits reconCommander) = 30
   \<and> reconWeightLimit 30 = 3
   \<and> membersAfter ''Recon'' (updateReconSquad reconGame reconCommander) = Some [1, 2]
   \<and> squadReconWeight reconGame [1, 2] = 4"
  by (simp add: reconGame_def reconCommander_def quietGame_def recon_defs registry_defs
        membersAfter_def idleOrder0_def holdOrder_def cdiv_def Let_def)

section \<open>The drop protocol\<close>

lemma forwardOnly_refl: "dropProtocolKind (orderType a) \<Longrightarrow> forwardOnly a a"
  by (simp add: forwardOnly_def)

lemma forwardOnly_trans: "forwardOnly a b \<Longrightarrow> forwardOnly b c \<Longrightarrow> forwardOnly a c"
  by (auto simp: forwardOnly_def dropProtocolKind_def)

lemma updateDropSquads_forward:
  assumes "updateDropSquads g cc = Some cc'" and "getSquad (squadData cc) ''Drop'' = Some d"
    and "dropProtocolKind (orderType (squadOrder d))"
  shows "\<exists>d'. getSquad (squadData cc') ''Drop'' = Some d'
             \<and> forwardOnly (squadOrder d) (squadOrder d')"
proof (cases "orderType (squadOrder d) = Drop")
  case True
  with assms show ?thesis
    by (auto simp: updateDropSquads_def squadExists_def forwardOnly_def)
next
  case False
  have ex: "squadExists (squadData cc) ''Drop''" using assms(2) by (simp add: squadExists_def)
  obtain tu n au where sv: "dropSquadSurvey g (squadUnits d) = (tu, n, au)"
    by (cases "dropSquadSurvey g (squadUnits d)") auto
  have keep: "regSteps {} (squadData cc) sd \<Longrightarrow>
        \<exists>d'. getSquad sd ''Drop'' = Some d' \<and> forwardOnly (squadOrder d) (squadOrder d')" for sd
    using regSteps_order_kept[of "{}" "squadData cc" sd "''Drop''" d] assms(2,3)
    by (auto simp: forwardOnly_def)
  have rec: "regSteps {} (squadData cc)
               (fst (fold (dropSquadRecruit g) (combatUnits cc) (squadData cc, tu, n)))"
    by (rule fold_steps[OF dropSquadRecruit_steps]) (simp_all add: regSteps.same)
  have set: "\<exists>d'. getSquad (onSquad ''Drop'' (setSquadOrder ord) (squadData cc)) ''Drop'' = Some d'
               \<and> forwardOnly (squadOrder d) (squadOrder d')"
    if "orderType ord = Load \<or> orderType ord = Drop" for ord
    using that assms(2,3) False
    by (auto simp: getSquad_onSquad_gen setSquadOrder_def forwardOnly_def dropProtocolKind_def)
  show ?thesis
  proof (cases "tu \<noteq> None \<and> n = 0")
    case True
    then obtain transport where tu: "tu = Some transport" by auto
    with True assms(1,2) ex False sv show ?thesis
      by (auto simp: updateDropSquads_def split: if_splits intro!: set)
  next
    case f: False
    then have "cc' = cc\<lparr>squadData := fst (fold (dropSquadRecruit g) (combatUnits cc) (squadData cc, tu, n))\<rparr>"
      using assms(1,2) ex False sv
      by (auto simp: updateDropSquads_def split: if_splits option.splits bool.splits)
    with keep[OF rec] show ?thesis by simp
  qed
qed

lemma steps_forward:
  assumes "regSteps N sd sd'" and "''Drop'' \<notin> N" and "getSquad sd ''Drop'' = Some d"
    and "dropProtocolKind (orderType (squadOrder d))"
  shows "\<exists>d'. getSquad sd' ''Drop'' = Some d' \<and> forwardOnly (squadOrder d) (squadOrder d')"
  using regSteps_order_kept[OF assms(1,2,3)] assms(4) by (auto simp: forwardOnly_def)

lemma allocate_forward:
  assumes "allocate g cc = Some cc'" and "getSquad (squadData cc) ''Drop'' = Some d"
    and "dropProtocolKind (orderType (squadOrder d))"
  shows "\<exists>d'. getSquad (squadData cc') ''Drop'' = Some d'
             \<and> forwardOnly (squadOrder d) (squadOrder d')"
proof -
  from assms(1) obtain c1 c2 c3 c4 c5 where
    s: "updateIdleSquad cc = Some c1" "updateDropSquads g c1 = Some c2"
       "updateScoutDefenseSquad g c2 = Some c3" "updateBaseDefenseSquads g c3 = Some c4"
       "updateReconSquad g c4 = Some c5" "updateAttackSquads g c5 = Some cc'"
    by (auto simp: allocate_def split: option.splits)
  let ?M = "{''Recon'', ''Ground'', ''Flying''} \<union> range baseDefenseName"
  have nd: "''Drop'' \<notin> ?M" by (auto simp: baseDefenseName_def)
  from steps_forward[OF updateIdleSquad_steps[OF s(1), of "{}"] _ assms(2,3)]
  obtain d1 where d1: "getSquad (squadData c1) ''Drop'' = Some d1"
    "forwardOnly (squadOrder d) (squadOrder d1)" by auto
  then have k1: "dropProtocolKind (orderType (squadOrder d1))" by (simp add: forwardOnly_def)
  from updateDropSquads_forward[OF s(2) d1(1) k1]
  obtain d2 where d2: "getSquad (squadData c2) ''Drop'' = Some d2"
    "forwardOnly (squadOrder d1) (squadOrder d2)" by auto
  then have k2: "dropProtocolKind (orderType (squadOrder d2))" by (simp add: forwardOnly_def)
  have "regSteps ?M (squadData c2) (squadData c3)"
    by (rule updateScoutDefenseSquad_steps[OF s(3)])
  moreover have "regSteps ?M (squadData c3) (squadData c4)"
    by (rule updateBaseDefenseSquads_steps[OF s(4)]) auto
  moreover have "regSteps ?M (squadData c4) (squadData c5)"
    by (rule updateReconSquad_steps[OF s(5)]) auto
  moreover have "regSteps ?M (squadData c5) (squadData cc')"
    by (rule updateAttackSquads_steps[OF s(6)]) auto
  ultimately have "regSteps ?M (squadData c2) (squadData cc')"
    by (blast intro: regSteps_trans)
  from steps_forward[OF this nd d2(1) k2]
  obtain d' where d': "getSquad (squadData cc') ''Drop'' = Some d'"
    "forwardOnly (squadOrder d2) (squadOrder d')" by auto
  with d1(2) d2(2) show ?thesis by (blast intro: forwardOnly_trans)
qed

lemma update_forward:
  assumes "update g units cc = Some cc'" and "initialized cc"
    and "getSquad (squadData cc) ''Drop'' = Some d"
    and "dropProtocolKind (orderType (squadOrder d))"
  shows "initialized cc' \<and> (\<exists>d'. getSquad (squadData cc') ''Drop'' = Some d'
             \<and> forwardOnly (squadOrder d) (squadOrder d'))"
proof (cases "cmod (frameCount g) 8 = 1")
  case True
  with assms(1,2) have a: "allocate g (cc\<lparr>combatUnits := units\<rparr>) = Some cc'"
    by (simp add: update_def Let_def)
  from allocate_forward[OF a] allocate_initialized[OF a] assms(2,3,4) show ?thesis by simp
next
  case False
  with assms show ?thesis
    by (auto simp: update_def Let_def forwardOnly_refl)
qed

text \<open>
  Claim C3: over any run of ticks, the kind of the order of the Drop squad stays among
  Hold, Load and Drop and its phase never goes down; and once the kind is Drop, the order
  is never changed again.
\<close>

theorem drop_order_moves_forward:
  assumes "run ticks cc = Some cc'" and "initialized cc"
    and "getSquad (squadData cc) ''Drop'' = Some d"
    and "dropProtocolKind (orderType (squadOrder d))"
  shows "\<exists>d'. getSquad (squadData cc') ''Drop'' = Some d'
             \<and> dropProtocolKind (orderType (squadOrder d'))
             \<and> dropPhase (orderType (squadOrder d)) \<le> dropPhase (orderType (squadOrder d'))
             \<and> (orderType (squadOrder d) = Drop \<longrightarrow> squadOrder d' = squadOrder d)"
proof -
  have "\<exists>d'. getSquad (squadData cc') ''Drop'' = Some d'
             \<and> forwardOnly (squadOrder d) (squadOrder d')"
    using assms
  proof (induction ticks arbitrary: cc d)
    case Nil
    then show ?case by (simp add: forwardOnly_refl)
  next
    case (Cons t ticks)
    obtain g units where t: "t = (g, units)" by (cases t) auto
    with Cons.prems(1) obtain c1 where u: "update g units cc = Some c1"
      and r: "run ticks c1 = Some cc'"
      by (auto split: option.splits)
    from update_forward[OF u Cons.prems(2,3,4)] obtain d1 where
      i: "initialized c1" and d1: "getSquad (squadData c1) ''Drop'' = Some d1"
      "forwardOnly (squadOrder d) (squadOrder d1)" by auto
    then have k1: "dropProtocolKind (orderType (squadOrder d1))" by (simp add: forwardOnly_def)
    from Cons.IH[OF r i d1(1) k1] d1(2) show ?case by (blast intro: forwardOnly_trans)
  qed
  then show ?thesis by (auto simp: forwardOnly_def)
qed

theorem drop_order_moves_forward_witness:
  "\<exists>cc' d'. run [(dropGame 1 False, [10, 11, 12, 13, 14]), (dropGame 9 True, [10, 11, 12, 13, 14]),
                  (dropGame 17 True, [10, 11, 12, 13, 14])] dropCommander = Some cc'
      \<and> getSquad (squadData cc') ''Drop'' = Some d'
      \<and> dropPhase Hold \<le> dropPhase (orderType (squadOrder d'))"
proof -
  let ?ticks = "[(dropGame 1 False, [10, 11, 12, 13, 14]), (dropGame 9 True, [10, 11, 12, 13, 14]),
                  (dropGame 17 True, [10, 11, 12, 13, 14])]"
  let ?d = "(newSquad ''Drop'' \<lparr>orderType = Hold, orderPosition = (64, 64),
                        orderRadius = 800, orderStatus = ''Wait for transport''\<rparr> DropPriority)
                     \<lparr>squadUnits := [10, 11, 12, 13, 14]\<rparr>"
  have "run ?ticks dropCommander \<noteq> None"
    by (simp add: drop_defs tick_defs registry_defs targeting_defs attack_defs recon_defs Let_def)
  then obtain cc' where r: "run ?ticks dropCommander = Some cc'" by auto
  have i: "initialized dropCommander" by (simp add: dropCommander_def)
  have d: "getSquad (squadData dropCommander) ''Drop'' = Some ?d"
    by (simp add: drop_defs registry_defs)
  have k: "dropProtocolKind (orderType (squadOrder ?d))"
    by (simp add: dropProtocolKind_def newSquad_def)
  from drop_order_moves_forward[OF r i d k] r show ?thesis
    by (auto simp: newSquad_def)
qed

text \<open>The three phases in one run: loading at the first tick, dropping from the second.\<close>

lemma drop_run_example:
  "map (\<lambda>ticks. map_option orderType (squadOrderAfter ''Drop'' (run ticks dropCommander)))
       [[], [(dropGame 1 False, [10, 11, 12, 13, 14])],
        [(dropGame 1 False, [10, 11, 12, 13, 14]), (dropGame 9 True, [10, 11, 12, 13, 14])],
        [(dropGame 1 False, [10, 11, 12, 13, 14]), (dropGame 9 True, [10, 11, 12, 13, 14]),
         (dropGame 17 True, [10, 11, 12, 13, 14])]]
   = [Some Hold, Some Load, Some Drop, Some Drop]"
  by (simp add: drop_defs tick_defs registry_defs targeting_defs attack_defs recon_defs Let_def)

section \<open>The drop squad departs when it is full and boarded\<close>

lemma dropSquadSurvey_fold:
  "fold (\<lambda>unit (transportUnit, transportSpotsRemaining, anyUnloadedUnits).
             if unitExists g unit then
               (if isFlying g unit \<and> spaceProvided g (getType g unit) > 0
                then (Some unit, transportSpotsRemaining, anyUnloadedUnits)
                else (transportUnit,
                      transportSpotsRemaining - spaceRequired g (getType g unit),
                      (if \<not> isLoaded g unit then True else anyUnloadedUnits)))
             else (transportUnit, transportSpotsRemaining, anyUnloadedUnits))
          units (t, n, a)
   = ((case filter (\<lambda>unit. unitExists g unit \<and> isTransport g unit) units of
         [] \<Rightarrow> t | ts \<Rightarrow> Some (last ts)),
      n - sum_list (map (\<lambda>unit. spaceRequired g (getType g unit)) (cargo g units)),
      a \<or> list_ex (\<lambda>unit. \<not> isLoaded g unit) (cargo g units))"
proof (induction units arbitrary: t n a)
  case Nil
  then show ?case by (simp add: cargo_def)
next
  case (Cons u us)
  show ?case
    by (simp add: Cons.IH cargo_def isTransport_def split: list.splits)
qed

lemma dropSquadSurvey_eq:
  "dropSquadSurvey g units
   = ((case filter (\<lambda>unit. unitExists g unit \<and> isTransport g unit) units of
         [] \<Rightarrow> None | ts \<Rightarrow> Some (last ts)),
      8 - sum_list (map (\<lambda>unit. spaceRequired g (getType g unit)) (cargo g units)),
      list_ex (\<lambda>unit. \<not> isLoaded g unit) (cargo g units))"
  unfolding dropSquadSurvey_def by (simp add: dropSquadSurvey_fold)

text \<open>
  Claim C4: if the drop squad has a transport, the space required by its other units sums
  to exactly 8, and every one of those units is loaded, then after updateDropSquads the kind
  of the order of the squad is Drop.
\<close>

theorem full_and_boarded_drop_squad_drops:
  assumes "getSquad (squadData cc) ''Drop'' = Some d"
    and "\<exists>t \<in> set (squadUnits d). unitExists g t \<and> isTransport g t"
    and "sum_list (map (\<lambda>unit. spaceRequired g (getType g unit)) (cargo g (squadUnits d))) = 8"
    and "\<forall>unit \<in> set (cargo g (squadUnits d)). isLoaded g unit"
  shows "map_option orderType (squadOrderAfter ''Drop'' (updateDropSquads g cc)) = Some Drop"
proof (cases "orderType (squadOrder d) = Drop")
  case True
  with assms(1) show ?thesis
    by (simp add: updateDropSquads_def squadExists_def squadOrderAfter_def)
next
  case False
  from assms(2) obtain ts where ts: "filter (\<lambda>unit. unitExists g unit \<and> isTransport g unit) (squadUnits d) = ts"
    and ne: "ts \<noteq> []"
    by (auto simp: filter_empty_conv)
  then obtain x xs where xx: "ts = x # xs" by (cases ts) auto
  have un: "\<not> list_ex (\<lambda>unit. \<not> isLoaded g unit) (cargo g (squadUnits d))"
    using assms(4) by (auto simp: list_ex_iff)
  have sv: "dropSquadSurvey g (squadUnits d) = (Some (last ts), 0, False)"
    using ts xx assms(3) un by (simp add: dropSquadSurvey_eq)
  have n: "squadName d = ''Drop''" using assms(1) by (simp add: getSquad_mem)
  show ?thesis
    using assms(1) False sv n
    by (simp add: updateDropSquads_def squadExists_def squadOrderAfter_def
          getSquad_onSquad setSquadOrder_def)
qed

theorem full_and_boarded_drop_squad_drops_witness:
  "map_option orderType
     (squadOrderAfter ''Drop'' (updateDropSquads (dropGame 9 True) dropCommander)) = Some Drop"
  using full_and_boarded_drop_squad_drops[of dropCommander
          "(newSquad ''Drop'' \<lparr>orderType = Hold, orderPosition = (64, 64),
                        orderRadius = 800, orderStatus = ''Wait for transport''\<rparr> DropPriority)
                     \<lparr>squadUnits := [10, 11, 12, 13, 14]\<rparr>" "dropGame 9 True"]
  by (simp add: drop_defs registry_defs isTransport_def cargo_def)

section \<open>The admission check and the Drop squad\<close>

lemma canAssign_blocked:
  assumes "getSquad sd n = Some t" and "s \<in> set sd" and "containsUnit s u"
    and "squadPriority t \<le> squadPriority s"
  shows "\<not> canAssignUnitToSquad sd u n"
  using assms by (auto simp: canAssignUnitToSquad_def list_all_iff)

text \<open>
  Claim C5, the part that holds: a member of a squad with the priority of the Drop squad is
  never admitted into a squad with the priority of the base defense squads, nor into one
  with the priority of the attack squads. What protects it is the comparison of priorities:
  DropPriority is 5, above BaseDefensePriority 3 and AttackPriority 1.
\<close>

theorem drop_members_not_assignable_to_defense:
  assumes "getSquad sd n = Some t"
    and "squadPriority t = BaseDefensePriority \<or> squadPriority t = AttackPriority"
    and "d \<in> set sd" and "squadPriority d = DropPriority" and "containsUnit d u"
  shows "\<not> canAssignUnitToSquad sd u n
         \<and> BaseDefensePriority < DropPriority \<and> AttackPriority < DropPriority"
proof -
  from assms(2,4) have "squadPriority t \<le> squadPriority d"
    by (auto simp: BaseDefensePriority_def AttackPriority_def DropPriority_def)
  with assms(1,3,5) have "\<not> canAssignUnitToSquad sd u n"
    by (rule canAssign_blocked)
  then show ?thesis
    by (simp add: BaseDefensePriority_def AttackPriority_def DropPriority_def)
qed

theorem drop_members_not_assignable_to_defense_witness:
  "\<not> canAssignUnitToSquad
       [newSquad ''Drop'' \<lparr>orderType = Hold, orderPosition = (0, 0), orderRadius = 800,
                               orderStatus = ''Wait for transport''\<rparr> DropPriority
          \<lparr>squadUnits := [7]\<rparr>,
        newSquad ''Base Defense 10 20'' \<lparr>orderType = Defend, orderPosition = (10, 20),
                               orderRadius = 800, orderStatus = ''Defend region''\<rparr>
          BaseDefensePriority]
       7 ''Base Defense 10 20''"
  using drop_members_not_assignable_to_defense
    [of "[newSquad ''Drop'' \<lparr>orderType = Hold, orderPosition = (0, 0), orderRadius = 800,
                               orderStatus = ''Wait for transport''\<rparr> DropPriority
          \<lparr>squadUnits := [7]\<rparr>,
        newSquad ''Base Defense 10 20'' \<lparr>orderType = Defend, orderPosition = (10, 20),
                               orderRadius = 800, orderStatus = ''Defend region''\<rparr>
          BaseDefensePriority]"
        "''Base Defense 10 20''"
        "newSquad ''Base Defense 10 20'' \<lparr>orderType = Defend, orderPosition = (10, 20),
                               orderRadius = 800, orderStatus = ''Defend region''\<rparr>
          BaseDefensePriority"
        "newSquad ''Drop'' \<lparr>orderType = Hold, orderPosition = (0, 0), orderRadius = 800,
                               orderStatus = ''Wait for transport''\<rparr> DropPriority
          \<lparr>squadUnits := [7]\<rparr>"
        7]
  by (simp add: getSquad_def newSquad_def containsUnit_def)

text \<open>
  Claim C5 as it is written says that the numeric priority of the Drop squad is lower than
  the priorities of the attack and base defense squads. The constants say the opposite.
\<close>

theorem drop_priority_not_lower_counterexample:
  "\<not> (DropPriority < BaseDefensePriority \<and> DropPriority < AttackPriority)"
  by (simp add: DropPriority_def BaseDefensePriority_def)

section \<open>The idle squad\<close>

lemma inSquad_addUnit_Idle:
  assumes "getSquad sd ''Idle'' = Some t"
  shows "inSquad (onSquad ''Idle'' (addUnit u) sd) ''Idle'' v = (v = u \<or> inSquad sd ''Idle'' v)"
  using assms
  by (auto simp: inSquad_def getSquad_onSquad_gen addUnit_def containsUnit_def set_Unitset_insert)

lemma allUnits_addUnit_ge: "allUnits sd \<subseteq> allUnits (onSquad n (addUnit u) sd)"
  by (induction sd) (auto simp: allUnits_Nil allUnits_Cons addUnit_def set_Unitset_insert)

lemma idleStep_props:
  assumes "getSquad sd ''Idle'' = Some t" and "idleLowest sd"
  shows "\<exists>t'. getSquad (idleStep u sd) ''Idle'' = Some t'"
    and "idleLowest (idleStep u sd)"
    and "u \<in> allUnits (idleStep u sd)"
    and "allUnits sd \<subseteq> allUnits (idleStep u sd)"
    and "v \<in> allUnits (idleStep u sd) \<Longrightarrow> v \<in> allUnits sd \<or> inSquad (idleStep u sd) ''Idle'' v"
    and "inSquad sd ''Idle'' v \<Longrightarrow> inSquad (idleStep u sd) ''Idle'' v"
proof -
  show "\<exists>t'. getSquad (idleStep u sd) ''Idle'' = Some t'"
    using assms(1) by (simp add: idleStep_def getSquad_onSquad_gen addUnit_def)
  show "idleLowest (idleStep u sd)"
    using assms by (simp add: idleStep_def idleLowest_def getSquad_onSquad_gen addUnit_def)
  show "u \<in> allUnits (idleStep u sd)"
  proof (cases "canAssignUnitToSquad sd u ''Idle''")
    case True
    have "inSquad (onSquad ''Idle'' (addUnit u) sd) ''Idle'' u"
      using assms(1) by (simp add: inSquad_addUnit_Idle)
    with True show ?thesis by (simp add: idleStep_def inSquad_allUnits)
  next
    case False
    with assms show ?thesis
      by (auto simp: idleStep_def canAssignUnitToSquad_def list_all_iff allUnits_def
            containsUnit_def)
  qed
  show "allUnits sd \<subseteq> allUnits (idleStep u sd)"
    using allUnits_addUnit_ge[of sd "''Idle''" u] by (simp add: idleStep_def)
  show "v \<in> allUnits sd \<or> inSquad (idleStep u sd) ''Idle'' v" if "v \<in> allUnits (idleStep u sd)"
    using that allUnits_addUnit[of "''Idle''" u sd] assms(1)
    by (auto simp: idleStep_def inSquad_addUnit_Idle split: if_splits)
  show "inSquad (idleStep u sd) ''Idle'' v" if "inSquad sd ''Idle'' v"
    using that assms(1) by (simp add: idleStep_def inSquad_addUnit_Idle)
qed

lemma idle_fold_props:
  assumes "getSquad sd ''Idle'' = Some t" and "idleLowest sd"
  shows "set us \<union> allUnits sd \<subseteq> allUnits (fold idleStep us sd)
         \<and> (\<forall>v. v \<in> allUnits (fold idleStep us sd)
                \<longrightarrow> v \<in> allUnits sd \<or> inSquad (fold idleStep us sd) ''Idle'' v)"
  using assms
proof (induction us arbitrary: sd t)
  case Nil
  then show ?case by simp
next
  case (Cons u us)
  note p = idleStep_props[OF Cons.prems, where u=u]
  from p(1) obtain t' where t': "getSquad (idleStep u sd) ''Idle'' = Some t'" by auto
  note ih = Cons.IH[OF t' p(2)]
  have a: "set (u # us) \<union> allUnits sd \<subseteq> allUnits (fold idleStep (u # us) sd)"
    using ih p(3,4) by auto
  have b: "v \<in> allUnits sd \<or> inSquad (fold idleStep (u # us) sd) ''Idle'' v"
    if v: "v \<in> allUnits (fold idleStep (u # us) sd)" for v
  proof -
    from v ih have "v \<in> allUnits (idleStep u sd) \<or> inSquad (fold idleStep us (idleStep u sd)) ''Idle'' v"
      by auto
    then show ?thesis
    proof
      assume "v \<in> allUnits (idleStep u sd)"
      with p(5)[where v=v] have "v \<in> allUnits sd \<or> inSquad (idleStep u sd) ''Idle'' v" by simp
      moreover have "inSquad (fold idleStep us (idleStep u sd)) ''Idle'' v"
        if "inSquad (idleStep u sd) ''Idle'' v"
      proof -
        from that have "v \<in> allUnits (idleStep u sd)" by (rule inSquad_allUnits)
        with ih have "v \<in> allUnits (fold idleStep us (idleStep u sd))" by auto
        have "\<And>sd t. getSquad sd ''Idle'' = Some t \<Longrightarrow> idleLowest sd \<Longrightarrow> inSquad sd ''Idle'' v
                \<Longrightarrow> inSquad (fold idleStep us sd) ''Idle'' v"
        proof (induction us)
          case Nil
          then show ?case by simp
        next
          case (Cons x xs)
          note q = idleStep_props[OF Cons.prems(1,2), where u=x]
          from q(1) obtain tt where "getSquad (idleStep x sd) ''Idle'' = Some tt" by auto
          from Cons.IH[OF this q(2) q(6)[OF Cons.prems(3)]] show ?case by simp
        qed
        from this[OF t' p(2) that] show ?thesis .
      qed
      ultimately show ?thesis by auto
    next
      assume "inSquad (fold idleStep us (idleStep u sd)) ''Idle'' v"
      then show ?thesis by simp
    qed
  qed
  from a b show ?case by blast
qed

lemma updateIdleSquad_fold:
  "updateIdleSquad cc = (case getSquad (squadData cc) ''Idle'' of None \<Rightarrow> None
      | Some _ \<Rightarrow> Some (cc\<lparr>squadData := fold idleStep (combatUnits cc) (squadData cc)\<rparr>))"
  unfolding updateIdleSquad_def idleStep_def by simp

lemma in_allUnits_filter:
  "u \<in> allUnits sd \<Longrightarrow> filter (\<lambda>s. containsUnit s u) sd \<noteq> []"
  by (auto simp: allUnits_def containsUnit_def filter_empty_conv)

text \<open>
  Claim C6, as the code has it: updateIdleSquad is the first policy of the allocation, and
  the other five policies run on its result. When no unit is in two squads and the Idle
  squad has the lowest priority, then right after updateIdleSquad every unit of the roster is
  a member of exactly one squad, and a unit that was in no squad is in the Idle squad.
\<close>

theorem idle_squad_takes_every_free_unit:
  assumes "wellFormed (squadData cc)" and "updateIdleSquad cc = Some cc'"
    and "u \<in> set (combatUnits cc)"
  shows "length (filter (\<lambda>s. containsUnit s u) (squadData cc')) = 1
         \<and> (u \<notin> allUnits (squadData cc) \<longrightarrow> inSquad (squadData cc') ''Idle'' u)
         \<and> allocate g cc
             = Option.bind (Option.bind (Option.bind (Option.bind
                 (updateDropSquads g cc') (updateScoutDefenseSquad g))
                 (updateBaseDefenseSquads g)) (updateReconSquad g)) (updateAttackSquads g)"
proof -
  from assms(2) obtain t where t: "getSquad (squadData cc) ''Idle'' = Some t"
    and c: "cc' = cc\<lparr>squadData := fold idleStep (combatUnits cc) (squadData cc)\<rparr>"
    by (auto simp: updateIdleSquad_fold split: option.splits)
  from assms(1) have il: "idleLowest (squadData cc)" by (simp add: wellFormed_def)
  note f = idle_fold_props[OF t il, of "combatUnits cc"]
  from f assms(3) have in': "u \<in> allUnits (squadData cc')" by (auto simp: c)
  have "wellFormed (squadData cc')"
    using regSteps_wellFormed[OF updateIdleSquad_steps[OF assms(2), of "{}"] _ assms(1)] by simp
  then have "length (filter (\<lambda>s. containsUnit s u) (squadData cc')) \<le> 1"
    using exclusive_at_most_one[of "squadData cc'" u] by (simp add: wellFormed_def)
  moreover have "filter (\<lambda>s. containsUnit s u) (squadData cc') \<noteq> []"
    using in' by (rule in_allUnits_filter)
  ultimately have "length (filter (\<lambda>s. containsUnit s u) (squadData cc')) = 1"
    by (cases "filter (\<lambda>s. containsUnit s u) (squadData cc')") auto
  moreover have "inSquad (squadData cc') ''Idle'' u" if "u \<notin> allUnits (squadData cc)"
    using f in' that by (auto simp: c)
  moreover have "allocate g cc
             = Option.bind (Option.bind (Option.bind (Option.bind
                 (updateDropSquads g cc') (updateScoutDefenseSquad g))
                 (updateBaseDefenseSquads g)) (updateReconSquad g)) (updateAttackSquads g)"
    using assms(2) by (simp add: allocate_def split: option.splits)
  ultimately show ?thesis by blast
qed

theorem idle_squad_takes_every_free_unit_witness:
  "\<exists>cc'. updateIdleSquad freshCommander = Some cc'
        \<and> length (filter (\<lambda>s. containsUnit s 2) (squadData cc')) = 1
        \<and> inSquad (squadData cc') ''Idle'' 2"
proof -
  have "updateIdleSquad freshCommander \<noteq> None"
    by (simp add: freshCommander_def updateIdleSquad_def registry_defs)
  then obtain cc' where r: "updateIdleSquad freshCommander = Some cc'" by auto
  have w: "wellFormed (squadData freshCommander)"
    by (simp add: freshCommander_def wellFormed_def exclusive_def idleLowest_def registry_defs)
  have u: "2 \<in> set (combatUnits freshCommander)" by (simp add: freshCommander_def)
  have f: "2 \<notin> allUnits (squadData freshCommander)"
    by (simp add: freshCommander_def allUnits_def newSquad_def)
  from idle_squad_takes_every_free_unit[where g=quietGame, OF w r u] f r show ?thesis by blast
qed

text \<open>
  Claim C6 as it is written puts the idle policy after the other policies, so that no unit
  of the roster is without a squad when the allocation tick ends. In the run below the
  probe defends in the first tick; in the second tick, a full allocation tick, its squad is
  cleared after updateIdleSquad has run, and the probe ends the tick in no squad.
\<close>

theorem unit_left_unassigned_counterexample:
  "cmod (frameCount calmGame) 8 = 1
   \<and> squadsOf 2 (run [(rushGame, [2]), (calmGame, [2])] CombatCommander_init) = Some []"
  by (simp add: calmGame_def rushGame_def quietGame_def tick_defs registry_defs targeting_defs
        attack_defs recon_defs defense_defs squadsOf_def ceilTimes_1_2_eq Let_def)

text \<open>After the first tick of that run the probe is in the defense squad of the region.\<close>

lemma rush_tick:
  "membersAfter ''Base Defense 100 100'' (run [(rushGame, [2])] CombatCommander_init) = Some [2]"
  by (simp add: rushGame_def quietGame_def tick_defs registry_defs targeting_defs
        attack_defs recon_defs defense_defs membersAfter_def ceilTimes_1_2_eq Let_def)

section \<open>The ground defenders that a region needs\<close>



lemma groundThreat_pos: "0 < groundThreat g t"
  by (simp add: groundThreat_def)







section \<open>Chasing a scout\<close>

lemma getSquad_removeFromCurrent_absent:
  "getSquad sd n = Some s \<Longrightarrow> \<not> containsUnit s u \<Longrightarrow> getSquad (removeFromCurrent u sd) n = Some s"
  unfolding getSquad_def by (induction sd) (auto simp: removeUnit_def)

lemma assign_to_empty_squad:
  assumes "getSquad sd n = Some s" and "isEmpty s"
  shows "map_option squadUnits (getSquad (assignUnitToSquad sd u n) n) = Some [u]"
proof -
  have "\<not> containsUnit s u" using assms(2) by (simp add: isEmpty_def containsUnit_def)
  from getSquad_removeFromCurrent_absent[OF assms(1) this]
  have "getSquad (assignUnitToSquad sd u n) n = Some (addUnit u s)"
    unfolding assignUnitToSquad_def using assms(1)
    by (intro getSquad_onSquad) (auto simp: addUnit_def getSquad_mem)
  then show ?thesis using assms(2)
    by (simp add: addUnit_def isEmpty_def Unitset_insert_def)
qed

text \<open>
  Claim C8, as the code has it: the scout defense squad exists and the home region is known;
  the only enemy unit in the home region is one worker, and the commander's record of the
  last attack of an enemy worker - one record for all workers and all regions, which starts
  at frame 0 - is at least 120 frames old. Then the squad is not cleared: if it has members
  it keeps them, and if it is empty it receives exactly one unit when some dragoon of the
  roster is in the home region and can be assigned - the first such dragoon - and stays empty
  otherwise.
\<close>

theorem lone_quiet_worker_is_chased:
  assumes "ScoutDefenseRadius g \<noteq> 0" and "combatUnits cc \<noteq> []"
    and "getSquad (squadData cc) ''ScoutDefense'' = Some sq"
    and "getRegionTile g (baseTilePosition g (getMyMainBaseLocation g)) = Some home"
    and "isValid g (getCenter g home)"
    and "unitsInRegion g home (enemyUnits g) = [w]" and "isWorker g (getType g w)"
    and "enemyWorkerAttackedAt cc \<le> frameCount g - 120"
  shows "membersAfter ''ScoutDefense'' (updateScoutDefenseSquad g cc)
           = Some (if isEmpty sq
                   then (case find (scoutDefender g (squadData cc) home) (combatUnits cc) of
                           None \<Rightarrow> [] | Some unit \<Rightarrow> [unit])
                   else squadUnits sq)
         \<and> (\<forall>unit. find (scoutDefender g (squadData cc) home) (combatUnits cc) = Some unit
               \<longrightarrow> unit \<in> set (combatUnits cc) \<and> getType g unit = Protoss_Dragoon
                   \<and> unit \<in> set (unitsInRegion g home (combatUnits cc)))"
proof -
  have "\<not> notAScout g (enemyWorkerAttackedAt cc) home unit" if "unit \<in> set (enemyUnits g)" for unit
  proof (cases "getRegionTile g (TilePosition (getPosition g unit)) = Some home")
    case True
    with that have "unit \<in> set (unitsInRegion g home (enemyUnits g))"
      by (simp add: unitsInRegion_def)
    with assms(6) have "unit = w" by simp
    with assms(7,8) show ?thesis by (simp add: notAScout_def)
  next
    case False
    then show ?thesis by (simp add: notAScout_def)
  qed
  then have chase: "\<not> list_ex (notAScout g (enemyWorkerAttackedAt cc) home) (enemyUnits g)"
    by (auto simp: list_ex_iff)
  have mem: "membersAfter ''ScoutDefense'' (updateScoutDefenseSquad g cc)
           = Some (if isEmpty sq
                   then (case find (scoutDefender g (squadData cc) home) (combatUnits cc) of
                           None \<Rightarrow> [] | Some unit \<Rightarrow> [unit])
                   else squadUnits sq)"
  proof (cases "isEmpty sq")
    case False
    with assms(1-5) chase show ?thesis
      by (simp add: updateScoutDefenseSquad_def membersAfter_def)
  next
    case True
    show ?thesis
    proof (cases "find (scoutDefender g (squadData cc) home) (combatUnits cc)")
      case None
      with True assms(1-5) chase show ?thesis
        by (simp add: updateScoutDefenseSquad_def membersAfter_def isEmpty_def)
    next
      case (Some unit)
      with True assms(1-5) chase assign_to_empty_squad[OF assms(3) True, of unit] show ?thesis
        by (simp add: updateScoutDefenseSquad_def membersAfter_def)
    qed
  qed
  moreover have "unit \<in> set (combatUnits cc) \<and> getType g unit = Protoss_Dragoon
                   \<and> unit \<in> set (unitsInRegion g home (combatUnits cc))"
    if "find (scoutDefender g (squadData cc) home) (combatUnits cc) = Some unit" for unit
    using that by (auto simp: find_Some_iff scoutDefender_def unitsInRegion_def in_set_conv_nth)
  ultimately show ?thesis by blast
qed

theorem lone_quiet_worker_is_chased_witness:
  "membersAfter ''ScoutDefense'' (updateScoutDefenseSquad scoutGame scoutCommander) = Some [3]"
  using lone_quiet_worker_is_chased[of scoutGame scoutCommander
          "newSquad ''ScoutDefense'' \<lparr>orderType = Defend, orderPosition = (64, 64),
                        orderRadius = 600, orderStatus = ''Get the scout''\<rparr> ScoutDefensePriority"
          0 90]
  by (simp add: scoutGame_def scoutCommander_def quietGame_def registry_defs unitsInRegion_def
        TilePosition_def cdiv_def scoutDefender_def idleOrder0_def holdOrder_def)

text \<open>
  Claim C8 as it is written asks only that the worker itself has not attacked within the
  last 120 ticks. Worker 90 is alone in the home region and never attacks, and dragoon 3 is
  at home and can be assigned; yet the squad stays empty at frame 113, when the record still
  has the value 0 of the constructor, and at frame 2001 after the other worker 91 was seen
  attacking in region 1 at frame 1993 (lines 767-768).
\<close>

theorem scout_not_chased_counterexample:
  "unitsInRegion earlyScoutGame 0 (enemyUnits earlyScoutGame) = [90]
   \<and> isWorker earlyScoutGame (getType earlyScoutGame 90)
   \<and> \<not> isAttacking earlyScoutGame 90
   \<and> enemyWorkerAttackedAt scoutCommander = enemyWorkerAttackedAt CombatCommander_init
   \<and> find (scoutDefender earlyScoutGame (squadData scoutCommander) 0)
         (combatUnits scoutCommander) = Some 3
   \<and> membersAfter ''ScoutDefense'' (updateScoutDefenseSquad earlyScoutGame scoutCommander)
       = Some []
   \<and> unitsInRegion scoutGame 0 (enemyUnits scoutGame) = [90]
   \<and> \<not> isAttacking workerAttackGame 90 \<and> \<not> isAttacking scoutGame 90
   \<and> map_option enemyWorkerAttackedAt (updateBaseDefenseSquads workerAttackGame scoutCommander)
       = Some 1993
   \<and> map_option (\<lambda>cc. find (scoutDefender scoutGame (squadData cc) 0) (combatUnits cc))
         (updateBaseDefenseSquads workerAttackGame scoutCommander) = Some (Some 3)
   \<and> membersAfter ''ScoutDefense''
         (case updateBaseDefenseSquads workerAttackGame scoutCommander of
            None \<Rightarrow> None
          | Some cc \<Rightarrow> updateScoutDefenseSquad scoutGame cc) = Some []"
  by (simp add: earlyScoutGame_def workerAttackGame_def scoutGame_def scoutCommander_def
        quietGame_def tick_defs registry_defs defense_defs unitsInRegion_def scoutDefender_def
        notAScout_def membersAfter_def idleOrder0_def holdOrder_def ceilTimes_1_2_eq Let_def)

section \<open>The orders of the attack squads under a defensive posture\<close>

lemma attackSquadsOrders_defensive:
  assumes "getSquad sd ''Ground'' = Some gs" and "getSquad sd ''Flying'' = Some fs"
  shows "map_option squadOrder (getSquad (attackSquadsOrders g False sd) ''Ground'')
           = Some \<lparr>orderType = (if wallExists g then HoldWall else Hold),
                   orderPosition = fst (getDefensePosition g),
                   orderRadius = snd (getDefensePosition g), orderStatus = ''Hold the wall''\<rparr>"
    and "map_option squadOrder (getSquad (attackSquadsOrders g False sd) ''Flying'')
           = Some \<lparr>orderType = Hold,
                   orderPosition = fst (getDefensePosition g),
                   orderRadius = snd (getDefensePosition g), orderStatus = ''Hold the wall''\<rparr>"
proof -
  have n: "squadName gs = ''Ground''" "squadName fs = ''Flying''"
    using assms by (simp_all add: getSquad_mem)
  show "map_option squadOrder (getSquad (attackSquadsOrders g False sd) ''Ground'')
           = Some \<lparr>orderType = (if wallExists g then HoldWall else Hold),
                   orderPosition = fst (getDefensePosition g),
                   orderRadius = snd (getDefensePosition g), orderStatus = ''Hold the wall''\<rparr>"
    using assms(1) n(1)
    by (simp add: attackSquadsOrders_def Let_def getSquad_onSquad_other getSquad_onSquad
          setSquadOrder_def split: prod.splits)
  show "map_option squadOrder (getSquad (attackSquadsOrders g False sd) ''Flying'')
           = Some \<lparr>orderType = Hold,
                   orderPosition = fst (getDefensePosition g),
                   orderRadius = snd (getDefensePosition g), orderStatus = ''Hold the wall''\<rparr>"
    using assms(2) n(2)
    by (simp add: attackSquadsOrders_def Let_def getSquad_onSquad_other getSquad_onSquad
          setSquadOrder_def split: prod.splits)
qed

lemma getDefensePosition_eq:
  "getDefensePosition g =
     (if wallExists g then (wallGapCenter g, 100)
      else (basePosition g (case getMyNaturalLocation g of
                              None \<Rightarrow> getMyMainBaseLocation g
                            | Some natural \<Rightarrow> if getBaseOwner g natural = Self then natural
                                              else getMyMainBaseLocation g), 400))"
  by (auto simp: getDefensePosition_def Let_def DefensivePositionRadius_def cdiv_def
      split: option.splits)

text \<open>
  The loop over the roster never fails when no unit is in two squads: the assertion of line
  439 holds, because a unit taken out of the Flying squad is then in no squad.
\<close>

lemma removeUnit_all_gone:
  "exclusive sd \<Longrightarrow> inSquad sd n u \<Longrightarrow> u \<notin> allUnits (onSquad n (removeUnit u) sd)"
proof (induction sd)
  case Nil
  then show ?case by (simp add: inSquad_def getSquad_def)
next
  case (Cons s ss)
  show ?case
  proof (cases "squadName s = n")
    case True
    with Cons.prems show ?thesis
      by (auto simp: inSquad_def getSquad_def exclusive_Cons allUnits_Cons containsUnit_def
            removeUnit_def set_Unitset_erase)
  next
    case False
    with Cons.prems have i: "inSquad ss n u" by (simp add: inSquad_def getSquad_def)
    then have "u \<in> allUnits ss" by (rule inSquad_allUnits)
    with Cons.prems(1) have "u \<notin> set (squadUnits s)" by (auto simp: exclusive_Cons)
    with Cons.IH[OF _ i] Cons.prems(1) False show ?thesis
      by (simp add: exclusive_Cons allUnits_Cons)
  qed
qed

lemma free_unit_canAssign:
  assumes "getSquad sd n = Some t" and "u \<notin> allUnits sd"
  shows "canAssignUnitToSquad sd u n"
  using assms by (auto simp: canAssignUnitToSquad_def list_all_iff allUnits_def containsUnit_def)

lemma attackSquadsUnit_total:
  assumes "exclusive sd" and "getSquad sd ''Ground'' = Some gs"
  shows "\<exists>sd' gd' fd'. attackSquadsUnit g a b u (sd, gd, fd) = Some (sd', gd', fd')
           \<and> exclusive sd' \<and> unitsChanged sd' sd"
proof -
  have g1: "getSquad (onSquad ''Flying'' (removeUnit u) sd) ''Ground'' = Some gs"
    using assms(2) by (simp add: getSquad_onSquad_gen removeUnit_def)
  have ok: "canAssignUnitToSquad (onSquad ''Flying'' (removeUnit u) sd) u ''Ground''"
    if "inSquad sd ''Flying'' u"
    using free_unit_canAssign[OF g1 removeUnit_all_gone[OF assms(1) that]] .
  obtain r where r: "attackSquadsUnit g a b u (sd, gd, fd) = r" by simp
  have "r \<noteq> None"
    using r ok by (auto simp: attackSquadsUnit_def Let_def split: if_splits)
  then obtain sd' gd' fd' where s: "attackSquadsUnit g a b u (sd, gd, fd) = Some (sd', gd', fd')"
    using r by (cases r) auto
  from attackSquadsUnit_steps[OF s, of "{}" sd] have st: "regSteps {} sd sd'"
    by (simp add: regSteps.same)
  have "exclusive sd'"
    using s assms(1)
    by (auto simp: attackSquadsUnit_def Let_def exclusive_assign exclusive_removeUnit
        split: if_splits)
  moreover have "unitsChanged sd' sd"
    using attackSquadsUnit_unitsChanged[OF s] by simp
  ultimately show ?thesis using s by blast
qed

lemma attackSquads_loop_total:
  assumes "exclusive sd" and "getSquad sd ''Ground'' = Some gs"
  shows "\<exists>sd' gd' fd'. foldOpt (attackSquadsUnit g a b) us (sd, gd, fd) = Some (sd', gd', fd')
           \<and> unitsChanged sd' sd"
  using assms
proof (induction us arbitrary: sd gd fd gs)
  case Nil
  then show ?case by (simp add: unitsChanged_refl)
next
  case (Cons u us)
  from attackSquadsUnit_total[OF Cons.prems, of g a b u gd fd]
  obtain sd1 gd1 fd1 where s: "attackSquadsUnit g a b u (sd, gd, fd) = Some (sd1, gd1, fd1)"
    and e: "exclusive sd1" and uc: "unitsChanged sd1 sd" by blast
  from unitsChanged_getSquad[OF uc, of "''Ground''"] Cons.prems(2)
  obtain gs1 where "getSquad sd1 ''Ground'' = Some gs1" by (auto elim!: option.rel_cases)
  from Cons.IH[OF e this, of gd1 fd1]
  obtain sd' gd' fd' where "foldOpt (attackSquadsUnit g a b) us (sd1, gd1, fd1) = Some (sd', gd', fd')"
    and "unitsChanged sd' sd1" by blast
  with s uc show ?case by (auto intro: unitsChanged_trans)
qed

text \<open>
  Claim C9, as the code has it: under a defensive posture, with the two squads in the
  registry and no unit in two squads, both squads are ordered to the same point with the same
  radius - the gap center of the wall with radius 100 when the wall exists, else the natural
  when it is ours, else the main base, with radius 400. The Ground squad holds against the
  wall when the wall exists; the Flying squad gets a plain Hold in either case (line 494).
\<close>

theorem defensive_posture_orders:
  assumes "\<not> goAggressive cc" and "exclusive (squadData cc)"
    and "squadExists (squadData cc) ''Ground''" and "squadExists (squadData cc) ''Flying''"
  shows "squadOrderAfter ''Ground'' (updateAttackSquads g cc)
           = Some \<lparr>orderType = (if wallExists g then HoldWall else Hold),
                   orderPosition =
                     (if wallExists g then wallGapCenter g
                      else basePosition g
                             (case getMyNaturalLocation g of
                                None \<Rightarrow> getMyMainBaseLocation g
                              | Some natural \<Rightarrow>
                                  if getBaseOwner g natural = Self then natural
                                  else getMyMainBaseLocation g)),
                   orderRadius = (if wallExists g then 100 else 400),
                   orderStatus = ''Hold the wall''\<rparr>
       \<and> squadOrderAfter ''Flying'' (updateAttackSquads g cc)
           = Some \<lparr>orderType = Hold,
                   orderPosition =
                     (if wallExists g then wallGapCenter g
                      else basePosition g
                             (case getMyNaturalLocation g of
                                None \<Rightarrow> getMyMainBaseLocation g
                              | Some natural \<Rightarrow>
                                  if getBaseOwner g natural = Self then natural
                                  else getMyMainBaseLocation g)),
                   orderRadius = (if wallExists g then 100 else 400),
                   orderStatus = ''Hold the wall''\<rparr>"
proof -
  from assms(3,4) obtain gs fs where
    gs: "getSquad (squadData cc) ''Ground'' = Some gs" and
    fs: "getSquad (squadData cc) ''Flying'' = Some fs"
    by (auto simp: squadExists_def)
  from attackSquads_loop_total[OF assms(2) gs]
  obtain sd gd fd where
    loop: "foldOpt (attackSquadsUnit g (hasCombatUnits g gs)
              (list_ex (\<lambda>unit. isFlyingSquadUnit (getType g unit)) (squadUnits fs)))
             (combatUnits cc) (squadData cc, hasDetector g gs, hasDetector g fs) = Some (sd, gd, fd)"
    and uc: "unitsChanged sd (squadData cc)"
    by blast
  have r: "updateAttackSquads g cc = Some (cc\<lparr>squadData := attackSquadsOrders g False sd\<rparr>)"
    using gs fs loop assms(1) by (simp add: updateAttackSquads_def Let_def)
  from unitsChanged_getSquad[OF uc, of "''Ground''"] gs
  obtain gs' where gs': "getSquad sd ''Ground'' = Some gs'" by (auto elim!: option.rel_cases)
  from unitsChanged_getSquad[OF uc, of "''Flying''"] fs
  obtain fs' where fs': "getSquad sd ''Flying'' = Some fs'" by (auto elim!: option.rel_cases)
  show ?thesis
    using attackSquadsOrders_defensive[OF gs' fs', of g] r
    by (cases "wallExists g") (auto simp: squadOrderAfter_def getDefensePosition_eq)
qed

theorem defensive_posture_orders_witness:
  "squadOrderAfter ''Ground'' (updateAttackSquads wallGame defensiveCommander)
     = Some \<lparr>orderType = HoldWall, orderPosition = (1000, 2000), orderRadius = 100,
             orderStatus = ''Hold the wall''\<rparr>
   \<and> squadOrderAfter ''Flying'' (updateAttackSquads wallGame defensiveCommander)
     = Some \<lparr>orderType = Hold, orderPosition = (1000, 2000), orderRadius = 100,
             orderStatus = ''Hold the wall''\<rparr>"
  using defensive_posture_orders[of defensiveCommander wallGame]
  by (simp add: wallGame_def quietGame_def defensiveCommander_def exclusive_def
        registry_defs holdOrder_def idleOrder0_def)

text \<open>
  Claim C9 as it is written gives both squads the kind hold-against-wall when the wall
  exists. In \<open>wallGame\<close> the wall exists, and the Flying squad ends with the kind Hold.
\<close>

theorem flying_squad_plain_hold_at_wall_counterexample:
  "wallExists wallGame \<and> \<not> goAggressive defensiveCommander
   \<and> map_option orderType
        (squadOrderAfter ''Flying'' (updateAttackSquads wallGame defensiveCommander)) = Some Hold"
  by (simp add: wallGame_def quietGame_def defensiveCommander_def registry_defs attack_defs
        holdOrder_def idleOrder0_def squadOrderAfter_def)

section \<open>The attack point\<close>

lemma attackLocationAfterBases_forget:
  assumes "\<not> canAG" and "enemyRace g \<noteq> Terran"
  shows "attackLocationAfterBases (g\<lparr>getUnitInfo := []\<rparr>) hasG hasA canAA canAG
         = attackLocationAfterBases g hasG hasA canAA canAG"
proof -
  have "attackableUnit (g\<lparr>getUnitInfo := []\<rparr>) canAA canAG = attackableUnit g canAA canAG"
    by (simp add: fun_eq_iff attackableUnit_def)
  then show ?thesis using assms
    by (simp add: attackLocationAfterBases_def split: option.splits)
qed

text \<open>Step 1 gives no base when no base belongs to the enemy.\<close>

lemma weakestEnemyBase_no_enemy_base:
  assumes "\<forall>base \<in> set (getBaseLocations g). getBaseOwner g base \<noteq> Enemy"
  shows "weakestEnemyBase g hasG hasA = None"
proof -
  have "fold (\<lambda>base (targetBase, bestScore).
                  if getBaseOwner g base = Enemy
                  then (let score = baseScore g hasG hasA base
                        in if score > bestScore then (Some base, score)
                           else (targetBase, bestScore))
                  else (targetBase, bestScore)) bases acc = acc"
    if "\<forall>base \<in> set bases. getBaseOwner g base \<noteq> Enemy" for bases acc
    using that by (induction bases arbitrary: acc) (auto split: prod.splits)
  from this[OF assms] show ?thesis by (simp add: weakestEnemyBase_def)
qed

text \<open>
  Claim C10: the step over the remembered enemy buildings is taken exactly when the squad can
  attack ground or the enemy is Terran. Let step 1 give no base: it is skipped for a squad
  that cannot attack ground, and finds no base otherwise. If the squad can attack ground or
  the enemy is Terran, and some remembered building has a valid last position that is not
  vacated, then getAttackLocation returns the last position of such a building, the first
  one in the table. If the squad cannot attack ground and the enemy is not Terran, the step
  is skipped: getAttackLocation returns what it returns when nothing is remembered.
\<close>

theorem attack_location_building_gate:
  assumes "canAttackGround g squad
             \<longrightarrow> weakestEnemyBase g (hasGround g squad) (hasAir g squad) = None"
  shows "((canAttackGround g squad \<or> enemyRace g = Terran)
            \<and> ui \<in> set (getUnitInfo g) \<and> knownBuilding g ui
          \<longrightarrow> (\<exists>b. find (knownBuilding g) (getUnitInfo g) = Some b \<and> knownBuilding g b
                   \<and> getAttackLocation g (Some squad) = lastPosition b))
         \<and> (\<not> canAttackGround g squad \<and> enemyRace g \<noteq> Terran
              \<longrightarrow> getAttackLocation g (Some squad)
                    = getAttackLocation (g\<lparr>getUnitInfo := []\<rparr>) (Some squad))"
proof -
  have later: "getAttackLocation g (Some squad)
               = attackLocationAfterBases g (hasGround g squad) (hasAir g squad)
                   (canAttackAir g squad) (canAttackGround g squad)"
    using assms by (cases "canAttackGround g squad") (simp_all add: getAttackLocation_def Let_def)
  have taken: "\<exists>b. find (knownBuilding g) (getUnitInfo g) = Some b \<and> knownBuilding g b
                   \<and> getAttackLocation g (Some squad) = lastPosition b"
    if gate: "canAttackGround g squad \<or> enemyRace g = Terran"
      and ui: "ui \<in> set (getUnitInfo g)" "knownBuilding g ui"
  proof -
    from ui obtain b where b: "find (knownBuilding g) (getUnitInfo g) = Some b"
      by (cases "find (knownBuilding g) (getUnitInfo g)") (auto simp: find_None_iff)
    then have "knownBuilding g b" by (auto simp: find_Some_iff)
    moreover have "getAttackLocation g (Some squad) = lastPosition b"
      using gate b by (auto simp: later attackLocationAfterBases_def)
    ultimately show ?thesis using b by blast
  qed
  have skipped: "getAttackLocation g (Some squad)
                 = getAttackLocation (g\<lparr>getUnitInfo := []\<rparr>) (Some squad)"
    if "\<not> canAttackGround g squad" and "enemyRace g \<noteq> Terran"
    using that attackLocationAfterBases_forget[OF that, of "hasGround g squad" "hasAir g squad"
                 "canAttackAir g squad"]
    by (simp add: getAttackLocation_def Let_def)
  from taken skipped show ?thesis by blast
qed

theorem attack_location_building_gate_witness:
  "getAttackLocation terranGame (Some flyingSquad) = (320, 640)
   \<and> getAttackLocation zergGame (Some flyingSquad) = (7, 7)
   \<and> getAttackLocation groundGame (Some flyingSquad) = (320, 640)"
  using attack_location_building_gate[of terranGame flyingSquad
          "\<lparr>uiType = Terran_Bunker, lastPosition = (320, 640), goneFromLastPosition = False\<rparr>"]
    attack_location_building_gate[of zergGame flyingSquad]
    attack_location_building_gate[of groundGame flyingSquad
          "\<lparr>uiType = Terran_Bunker, lastPosition = (320, 640), goneFromLastPosition = False\<rparr>"]
  by (simp add: groundGame_def zergGame_def terranGame_def quietGame_def flyingSquad_def
        targeting_defs)

end
